(* ===== verification/Prelude.thy ===== *)
theory Prelude
  imports Main
begin

text \<open>
  Shared vocabulary of the development: error values and the result type every fallible
  operation returns, Go's wrapping 64-bit integers, and the generic facts on lists and
  results that the component theories use.
\<close>

named_theorems result_simps \<open>rewriting of the result monad\<close>
named_theorems i64_simps \<open>exactness of 64-bit arithmetic inside its range\<close>

section \<open>Errors and results\<close>

text \<open>
  The registered errors of the modules (and of the Cosmos SDK's \<^verbatim>\<open>errortypes\<close>) that the
  modelled code returns. \<open>Wrapf code msg\<close> is \<^verbatim>\<open>errorsmod.Wrapf(code, msg, ...)\<close> with the
  format string for \<open>msg\<close>; \<open>Errorf msg\<close> is \<^verbatim>\<open>fmt.Errorf\<close> or \<^verbatim>\<open>errors.New\<close>;
  \<open>Panic msg\<close> is a Go panic, which the transaction runner turns into a failed
  transaction.
\<close>

datatype sdk_error =
    ErrUnauthorized | ErrInvalidRequest | ErrNotSupported | ErrUnknownAddress
  | ErrInvalidAddress | ErrInvalidCoins | ErrNotFound | ErrInsufficientFunds
  | ErrInsufficientVestedCoins | ErrVestingLockup | ErrInsufficientUnlockedCoins
  | ErrApplyShedule | ErrNotSubjectToClawback
  | ErrLiquidationFailed | ErrRedeemFailed | ErrDenomNotFound | ErrModuleIsDisabled
  | ErrInvalidAccount | ErrGasOverflow | ErrInvalidBaseFee | ErrInvalidGasCap | ErrInvalidAmount
  | ErrInvalidGasPrice | ErrInvalidGasFee | ErrInvalidGasLimit | ErrInvalidChainID | ErrInvalidType
  | ErrModuleDisabled | ErrInvalidDenom | ErrNotEligible
  | ErrInvalidSigner | ErrOutOfGas | ErrLogic | ErrInsufficientFee | ErrInvalidRefund | ErrCallDisabled | ErrCreateDisabled

datatype err = Wrapf sdk_error string | Errorf string | Panic string

type_synonym 'a result = "err + 'a"

definition bind_r :: "'e + 'a \<Rightarrow> ('a \<Rightarrow> 'e + 'b) \<Rightarrow> 'e + 'b" where
  "bind_r m f = (case m of Inl e \<Rightarrow> Inl e | Inr x \<Rightarrow> f x)"

definition of_option :: "'e \<Rightarrow> 'a option \<Rightarrow> 'e + 'a" where
  "of_option e m = (case m of None \<Rightarrow> Inl e | Some x \<Rightarrow> Inr x)"

definition guard_r :: "bool \<Rightarrow> 'e \<Rightarrow> 'e + unit" where
  "guard_r b e = (if b then Inr () else Inl e)"

lemma bind_r_Inl [simp, result_simps]: "bind_r (Inl e) f = Inl e"
  by (simp add: bind_r_def)

lemma bind_r_Inr [simp, result_simps]: "bind_r (Inr x) f = f x"
  by (simp add: bind_r_def)

lemma bind_r_eq_Inr [result_simps]: "bind_r m f = Inr y \<longleftrightarrow> (\<exists>x. m = Inr x \<and> f x = Inr y)"
  by (cases m) auto

lemma bind_r_eq_Inl [result_simps]:
  "bind_r m f = Inl e \<longleftrightarrow> m = Inl e \<or> (\<exists>x. m = Inr x \<and> f x = Inl e)"
  by (cases m) auto

lemma bind_r_assoc: "bind_r (bind_r m f) g = bind_r m (\<lambda>x. bind_r (f x) g)"
  by (cases m) auto

lemma bind_r_cong [fundef_cong]:
  "m = m' \<Longrightarrow> (\<And>x. m' = Inr x \<Longrightarrow> f x = f' x) \<Longrightarrow> bind_r m f = bind_r m' f'"
  by (cases m') auto

lemma of_option_simps [simp, result_simps]:
  "of_option e None = Inl e" "of_option e (Some x) = Inr x"
  by (simp_all add: of_option_def)

lemma of_option_eq_Inr [result_simps]: "of_option e m = Inr x \<longleftrightarrow> m = Some x"
  by (cases m) auto

lemma of_option_eq_Inl [result_simps]: "of_option e m = Inl e' \<longleftrightarrow> m = None \<and> e' = e"
  by (cases m) auto

lemma guard_r_eq_Inr [simp, result_simps]: "guard_r b e = Inr u \<longleftrightarrow> b"
  by (simp add: guard_r_def)

lemma guard_r_eq_Inl [simp, result_simps]: "guard_r b e = Inl e' \<longleftrightarrow> \<not> b \<and> e' = e"
  by (auto simp: guard_r_def)

lemma guard_r_True [simp]: "guard_r True e = Inr ()"
  by (simp add: guard_r_def)

lemma guard_r_False [simp]: "guard_r False e = Inl e"
  by (simp add: guard_r_def)

section \<open>Go's int64\<close>

text \<open>
  Go's \<^verbatim>\<open>int64\<close> arithmetic wraps around silently. A value of the type is an \<open>int\<close> in
  \<open>[-2^63, 2^63)\<close>, and an operation is the integer operation followed by \<open>wrap64\<close>.
\<close>

definition in64 :: "int \<Rightarrow> bool" where
  "in64 x \<longleftrightarrow> - 9223372036854775808 \<le> x \<and> x < 9223372036854775808"

definition wrap64 :: "int \<Rightarrow> int" where
  "wrap64 x = (x + 9223372036854775808) mod 18446744073709551616 - 9223372036854775808"

definition add64 :: "int \<Rightarrow> int \<Rightarrow> int" where
  "add64 a b = wrap64 (a + b)"

definition sub64 :: "int \<Rightarrow> int \<Rightarrow> int" where
  "sub64 a b = wrap64 (a - b)"

lemma in64_wrap64: "in64 (wrap64 x)"
proof -
  have "0 \<le> (x + 9223372036854775808) mod 18446744073709551616"
    and "(x + 9223372036854775808) mod 18446744073709551616 < 18446744073709551616"
    by simp_all
  then show ?thesis by (simp add: in64_def wrap64_def)
qed

lemma wrap64_id [i64_simps]: "in64 x \<Longrightarrow> wrap64 x = x"
  by (simp add: in64_def wrap64_def)

lemma add64_exact [i64_simps]: "in64 (a + b) \<Longrightarrow> add64 a b = a + b"
  by (simp add: add64_def wrap64_id)

lemma sub64_exact [i64_simps]: "in64 (a - b) \<Longrightarrow> sub64 a b = a - b"
  by (simp add: sub64_def wrap64_id)

lemma in64_between: "in64 a \<Longrightarrow> in64 c \<Longrightarrow> a \<le> b \<Longrightarrow> b \<le> c \<Longrightarrow> in64 b"
  by (simp add: in64_def)

section \<open>Lists\<close>

lemma sum_list_nonneg_int:
  fixes xs :: "int list"
  shows "(\<And>x. x \<in> set xs \<Longrightarrow> 0 \<le> x) \<Longrightarrow> 0 \<le> sum_list xs"
  by (induction xs) auto

lemma sum_list_take_le:
  fixes f :: "'a \<Rightarrow> int"
  assumes "\<And>x. x \<in> set xs \<Longrightarrow> 0 \<le> f x"
  shows "sum_list (map f (take n xs)) \<le> sum_list (map f xs)"
proof -
  have "sum_list (map f xs) = sum_list (map f (take n xs)) + sum_list (map f (drop n xs))"
    by (metis append_take_drop_id map_append sum_list_append)
  moreover have "0 \<le> sum_list (map f (drop n xs))"
    using assms in_set_dropD by (fastforce intro!: sum_list_nonneg_int)
  ultimately show ?thesis by simp
qed

end
