(* ===== verification/Coins.thy ===== *)
theory Coins
  imports Prelude
begin

text \<open>
  The interface of the Cosmos SDK's \<^verbatim>\<open>sdk.Coin\<close>, \<^verbatim>\<open>sdk.Coins\<close> and \<^verbatim>\<open>sdkvesting.Periods\<close>
  as the modules of the repository use it. The SDK is not part of the repository, so its
  operations are fields of a record that every definition takes as a parameter, and what
  the code relies on of them is the locale \<open>coins_laws\<close>. A coin-list implementation
  shows that the laws can be met and makes concrete runs computable.
\<close>

section \<open>The interface\<close>

record coin =
  Denom :: string
  Amt :: int

record 'c period =
  Length :: int
  Amount :: 'c

text \<open>
  \<open>NewCoin\<close> and \<open>Sub\<close> panic in Go; the panic is \<open>None\<close>. The variadic \<^verbatim>\<open>Add\<close> and
  \<^verbatim>\<open>Sub\<close> are called either with a whole \<^verbatim>\<open>Coins\<close> or with one \<^verbatim>\<open>Coin\<close>, hence two fields each.
\<close>

record 'c coins_api =
  coEmpty :: 'c
  coNewCoin :: "string \<Rightarrow> int \<Rightarrow> coin option"
  coNewCoins :: "coin \<Rightarrow> 'c"
  coAdd :: "'c \<Rightarrow> 'c \<Rightarrow> 'c"
  coAddCoin :: "'c \<Rightarrow> coin \<Rightarrow> 'c"
  coSub :: "'c \<Rightarrow> 'c \<Rightarrow> 'c option"
  coSubCoin :: "'c \<Rightarrow> coin \<Rightarrow> 'c option"
  coSafeSub :: "'c \<Rightarrow> 'c \<Rightarrow> 'c \<times> bool"
  coMin :: "'c \<Rightarrow> 'c \<Rightarrow> 'c"
  coIsAllLTE :: "'c \<Rightarrow> 'c \<Rightarrow> bool"
  coIsZero :: "'c \<Rightarrow> bool"
  coIsValid :: "'c \<Rightarrow> bool"
  coLen :: "'c \<Rightarrow> nat"
  coAmountOf :: "'c \<Rightarrow> string \<Rightarrow> int"
  coFind :: "'c \<Rightarrow> string \<Rightarrow> bool \<times> coin"
  coItems :: "'c \<Rightarrow> coin list"
  coTotalLength :: "'c period list \<Rightarrow> int"
  coTotalAmount :: "'c period list \<Rightarrow> 'c"

text \<open>
  The laws are those of the SDK's documentation, read through the amount of each
  denomination: \<open>Add\<close> adds per denomination, \<open>Min\<close> is the per-denomination minimum,
  \<open>Sub\<close> panics exactly when an amount would become negative, \<open>SafeSub\<close> flags that case,
  \<open>IsAllLTE\<close> compares every denomination, and valid coins hold no negative amount.
\<close>

locale coins_laws =
  fixes K :: "'c coins_api"
    and denom_ok :: "string \<Rightarrow> bool"
  assumes valid_empty: "coIsValid K (coEmpty K)"
    and amount_empty: "coAmountOf K (coEmpty K) d = 0"
    and amount_nonneg: "coIsValid K a \<Longrightarrow> 0 \<le> coAmountOf K a d"
    and new_coin: "coNewCoin K d n = (if denom_ok d \<and> 0 \<le> n then Some \<lparr>Denom = d, Amt = n\<rparr> else None)"
    and valid_new_coins: "denom_ok (Denom x) \<Longrightarrow> 0 \<le> Amt x \<Longrightarrow> coIsValid K (coNewCoins K x)"
    and amount_new_coins: "denom_ok (Denom x) \<Longrightarrow> 0 \<le> Amt x \<Longrightarrow>
      coAmountOf K (coNewCoins K x) d = (if d = Denom x then Amt x else 0)"
    and valid_add: "coIsValid K a \<Longrightarrow> coIsValid K b \<Longrightarrow> coIsValid K (coAdd K a b)"
    and amount_add: "coIsValid K a \<Longrightarrow> coIsValid K b \<Longrightarrow>
      coAmountOf K (coAdd K a b) d = coAmountOf K a d + coAmountOf K b d"
    and valid_add_coin: "coIsValid K a \<Longrightarrow> denom_ok (Denom x) \<Longrightarrow> 0 \<le> Amt x \<Longrightarrow>
      coIsValid K (coAddCoin K a x)"
    and amount_add_coin: "coIsValid K a \<Longrightarrow> denom_ok (Denom x) \<Longrightarrow> 0 \<le> Amt x \<Longrightarrow>
      coAmountOf K (coAddCoin K a x) d = coAmountOf K a d + (if d = Denom x then Amt x else 0)"
    and sub_panics: "coIsValid K a \<Longrightarrow> coIsValid K b \<Longrightarrow>
      coSub K a b = None \<longleftrightarrow> (\<exists>d. coAmountOf K a d < coAmountOf K b d)"
    and valid_sub: "coIsValid K a \<Longrightarrow> coIsValid K b \<Longrightarrow> coSub K a b = Some c \<Longrightarrow> coIsValid K c"
    and amount_sub: "coIsValid K a \<Longrightarrow> coIsValid K b \<Longrightarrow> coSub K a b = Some c \<Longrightarrow>
      coAmountOf K c d = coAmountOf K a d - coAmountOf K b d"
    and sub_coin_panics: "coIsValid K a \<Longrightarrow> denom_ok (Denom x) \<Longrightarrow> 0 \<le> Amt x \<Longrightarrow>
      coSubCoin K a x = None \<longleftrightarrow> coAmountOf K a (Denom x) < Amt x"
    and valid_sub_coin: "coIsValid K a \<Longrightarrow> denom_ok (Denom x) \<Longrightarrow> 0 \<le> Amt x \<Longrightarrow>
      coSubCoin K a x = Some c \<Longrightarrow> coIsValid K c"
    and amount_sub_coin: "coIsValid K a \<Longrightarrow> denom_ok (Denom x) \<Longrightarrow> 0 \<le> Amt x \<Longrightarrow>
      coSubCoin K a x = Some c \<Longrightarrow>
      coAmountOf K c d = coAmountOf K a d - (if d = Denom x then Amt x else 0)"
    and safe_sub_neg: "coIsValid K a \<Longrightarrow> coIsValid K b \<Longrightarrow>
      snd (coSafeSub K a b) \<longleftrightarrow> (\<exists>d. coAmountOf K a d < coAmountOf K b d)"
    and valid_safe_sub: "coIsValid K a \<Longrightarrow> coIsValid K b \<Longrightarrow> \<not> snd (coSafeSub K a b) \<Longrightarrow>
      coIsValid K (fst (coSafeSub K a b))"
    and amount_safe_sub: "coIsValid K a \<Longrightarrow> coIsValid K b \<Longrightarrow> \<not> snd (coSafeSub K a b) \<Longrightarrow>
      coAmountOf K (fst (coSafeSub K a b)) d = coAmountOf K a d - coAmountOf K b d"
    and valid_min: "coIsValid K a \<Longrightarrow> coIsValid K b \<Longrightarrow> coIsValid K (coMin K a b)"
    and amount_min: "coIsValid K a \<Longrightarrow> coIsValid K b \<Longrightarrow>
      coAmountOf K (coMin K a b) d = min (coAmountOf K a d) (coAmountOf K b d)"
    and all_lte: "coIsValid K a \<Longrightarrow> coIsValid K b \<Longrightarrow>
      coIsAllLTE K a b \<longleftrightarrow> (\<forall>d. coAmountOf K a d \<le> coAmountOf K b d)"
    and is_zero: "coIsValid K a \<Longrightarrow> coIsZero K a \<longleftrightarrow> (\<forall>d. coAmountOf K a d = 0)"
    and len_zero: "coIsValid K a \<Longrightarrow> coLen K a = 0 \<longleftrightarrow> (\<forall>d. coAmountOf K a d = 0)"
    and find_coin: "coIsValid K a \<Longrightarrow> denom_ok d \<Longrightarrow>
      coFind K a d = (if coAmountOf K a d = 0 then (False, \<lparr>Denom = [], Amt = 0\<rparr>)
                      else (True, \<lparr>Denom = d, Amt = coAmountOf K a d\<rparr>))"
    and items: "coIsValid K a \<Longrightarrow> x \<in> set (coItems K a) \<longleftrightarrow> 0 < Amt x \<and> Amt x = coAmountOf K a (Denom x)"
    and items_ok: "coIsValid K a \<Longrightarrow> x \<in> set (coItems K a) \<Longrightarrow> denom_ok (Denom x)"
    and items_distinct: "coIsValid K a \<Longrightarrow> distinct (map Denom (coItems K a))"
    and total_length: "coTotalLength K ps = wrap64 (sum_list (map Length ps))"
    and valid_total_amount: "(\<And>p. p \<in> set ps \<Longrightarrow> coIsValid K (Amount p)) \<Longrightarrow>
      coIsValid K (coTotalAmount K ps)"
    and amount_total_amount: "(\<And>p. p \<in> set ps \<Longrightarrow> coIsValid K (Amount p)) \<Longrightarrow>
      coAmountOf K (coTotalAmount K ps) d = sum_list (map (\<lambda>p. coAmountOf K (Amount p) d) ps)"
begin

lemmas amounts = amount_empty amount_add amount_min amount_add_coin amount_new_coins
lemmas valids = valid_empty valid_add valid_min valid_add_coin valid_new_coins

lemma sub_defined:
  assumes "coIsValid K a" "coIsValid K b" "\<And>d. coAmountOf K b d \<le> coAmountOf K a d"
  obtains c where "coSub K a b = Some c" "coIsValid K c"
    "\<And>d. coAmountOf K c d = coAmountOf K a d - coAmountOf K b d"
proof -
  have "coSub K a b \<noteq> None"
    using sub_panics[OF assms(1,2)] assms(3) by (metis not_le)
  then obtain c where c: "coSub K a b = Some c" by auto
  show thesis
    by (rule that[OF c]) (use valid_sub[OF assms(1,2) c] amount_sub[OF assms(1,2) c] in auto)
qed

lemma sub_coin_defined:
  assumes "coIsValid K a" "denom_ok (Denom x)" "0 \<le> Amt x" "Amt x \<le> coAmountOf K a (Denom x)"
  obtains c where "coSubCoin K a x = Some c" "coIsValid K c"
    "\<And>d. coAmountOf K c d = coAmountOf K a d - (if d = Denom x then Amt x else 0)"
proof -
  have "coSubCoin K a x \<noteq> None"
    using sub_coin_panics[OF assms(1-3)] assms(4) by auto
  then obtain c where c: "coSubCoin K a x = Some c" by auto
  show thesis
    by (rule that[OF c])
      (use valid_sub_coin[OF assms(1-3) c] amount_sub_coin[OF assms(1-3) c] in auto)
qed

lemma is_zero_empty: "coIsZero K (coEmpty K)"
  by (simp add: is_zero valid_empty amount_empty)

end

section \<open>A coin-list implementation of the interface\<close>

text \<open>
  Coins as a list of \<open>coin\<close>s with distinct denominations and positive amounts.
\<close>

definition cl_amt :: "coin list \<Rightarrow> string \<Rightarrow> int" where
  "cl_amt xs d = sum_list (map Amt (filter (\<lambda>c. Denom c = d) xs))"

definition cl_tab :: "string list \<Rightarrow> (string \<Rightarrow> int) \<Rightarrow> coin list" where
  "cl_tab ds f = map (\<lambda>d. \<lparr>Denom = d, Amt = f d\<rparr>) (filter (\<lambda>d. 0 < f d) (remdups ds))"

definition cl_denoms :: "coin list \<Rightarrow> string list" where
  "cl_denoms xs = map Denom xs"

definition cl_valid :: "coin list \<Rightarrow> bool" where
  "cl_valid xs \<longleftrightarrow> distinct (cl_denoms xs) \<and> list_all (\<lambda>c. 0 < Amt c \<and> Denom c \<noteq> []) xs"

definition cl_add :: "coin list \<Rightarrow> coin list \<Rightarrow> coin list" where
  "cl_add a b = cl_tab (cl_denoms a @ cl_denoms b) (\<lambda>d. cl_amt a d + cl_amt b d)"

definition cl_min :: "coin list \<Rightarrow> coin list \<Rightarrow> coin list" where
  "cl_min a b = cl_tab (cl_denoms a) (\<lambda>d. min (cl_amt a d) (cl_amt b d))"

definition cl_lte :: "coin list \<Rightarrow> coin list \<Rightarrow> bool" where
  "cl_lte a b \<longleftrightarrow> list_all (\<lambda>d. cl_amt a d \<le> cl_amt b d) (cl_denoms a)"

definition cl_diff :: "coin list \<Rightarrow> coin list \<Rightarrow> coin list" where
  "cl_diff a b = cl_tab (cl_denoms a) (\<lambda>d. cl_amt a d - cl_amt b d)"

definition stdCoins :: "coin list coins_api" where
  "stdCoins = \<lparr>
     coEmpty = [],
     coNewCoin = (\<lambda>d x. if d \<noteq> [] \<and> 0 \<le> x then Some \<lparr>Denom = d, Amt = x\<rparr> else None),
     coNewCoins = (\<lambda>c. cl_add [] [c]),
     coAdd = cl_add,
     coAddCoin = (\<lambda>a c. cl_add a [c]),
     coSub = (\<lambda>a b. if cl_lte b a then Some (cl_diff a b) else None),
     coSubCoin = (\<lambda>a c. if cl_lte [c] a then Some (cl_diff a [c]) else None),
     coSafeSub = (\<lambda>a b. (cl_diff a b, \<not> cl_lte b a)),
     coMin = cl_min,
     coIsAllLTE = cl_lte,
     coIsZero = (\<lambda>a. list_all (\<lambda>c. Amt c = 0) a),
     coIsValid = cl_valid,
     coLen = length,
     coAmountOf = cl_amt,
     coFind = (\<lambda>a d. if cl_amt a d = 0 then (False, \<lparr>Denom = [], Amt = 0\<rparr>)
                     else (True, \<lparr>Denom = d, Amt = cl_amt a d\<rparr>)),
     coItems = (\<lambda>a. a),
     coTotalLength = (\<lambda>ps. wrap64 (sum_list (map Length ps))),
     coTotalAmount = (\<lambda>ps. foldr (\<lambda>p c. cl_add (Amount p) c) ps [])\<rparr>"

lemma cl_amt_simps [simp]:
  "cl_amt [] d = 0" "cl_amt (c # xs) d = (if Denom c = d then Amt c else 0) + cl_amt xs d"
  by (simp_all add: cl_amt_def)

lemma cl_amt_notin: "d \<notin> set (cl_denoms xs) \<Longrightarrow> cl_amt xs d = 0"
  by (induction xs) (auto simp: cl_denoms_def)

lemma cl_amt_map:
  "distinct ds \<Longrightarrow> cl_amt (map (\<lambda>d. \<lparr>Denom = d, Amt = f d\<rparr>) ds) d = (if d \<in> set ds then f d else 0)"
  by (induction ds) auto

lemma cl_amt_tab: "cl_amt (cl_tab ds f) d = (if d \<in> set ds \<and> 0 < f d then f d else 0)"
  by (simp add: cl_tab_def cl_amt_map)

lemma cl_denoms_tab: "cl_denoms (cl_tab ds f) = filter (\<lambda>d. 0 < f d) (remdups ds)"
  by (simp add: cl_tab_def cl_denoms_def o_def)

lemma cl_valid_tab: "[] \<notin> set ds \<Longrightarrow> cl_valid (cl_tab ds f)"
  unfolding cl_valid_def cl_denoms_tab by (auto simp: cl_tab_def list_all_iff)

lemma cl_valid_nonneg: "cl_valid xs \<Longrightarrow> 0 \<le> cl_amt xs d"
  by (induction xs) (auto simp: cl_valid_def cl_denoms_def)

lemma cl_valid_denoms: "cl_valid xs \<Longrightarrow> [] \<notin> set (cl_denoms xs)"
  by (auto simp: cl_valid_def cl_denoms_def list_all_iff)

lemma cl_valid_pos: "cl_valid xs \<Longrightarrow> d \<in> set (cl_denoms xs) \<Longrightarrow> 0 < cl_amt xs d"
proof (induction xs)
  case (Cons c xs)
  then have "cl_valid xs" "Denom c \<notin> set (cl_denoms xs)" "0 < Amt c"
    by (auto simp: cl_valid_def cl_denoms_def)
  then show ?case
    using Cons cl_amt_notin[of "Denom c" xs] by (auto simp: cl_denoms_def)
qed (simp add: cl_denoms_def)

lemma cl_amt_add:
  assumes "\<And>d. 0 \<le> cl_amt a d" "\<And>d. 0 \<le> cl_amt b d"
  shows "cl_amt (cl_add a b) d = cl_amt a d + cl_amt b d"
  using assms[of d] cl_amt_notin[of d a] cl_amt_notin[of d b]
  by (auto simp: cl_add_def cl_amt_tab)

lemma cl_lte_iff:
  assumes "\<And>d. 0 \<le> cl_amt b d"
  shows "cl_lte a b \<longleftrightarrow> (\<forall>d. cl_amt a d \<le> cl_amt b d)"
proof
  assume lte: "cl_lte a b"
  show "\<forall>d. cl_amt a d \<le> cl_amt b d"
  proof
    fix d
    show "cl_amt a d \<le> cl_amt b d"
      using lte assms[of d] cl_amt_notin[of d a]
      by (cases "d \<in> set (cl_denoms a)") (simp_all add: cl_lte_def list_all_iff)
  qed
qed (simp add: cl_lte_def list_all_iff)

lemma cl_amt_diff:
  assumes "\<And>d. 0 \<le> cl_amt b d" "\<And>d. cl_amt b d \<le> cl_amt a d"
  shows "cl_amt (cl_diff a b) d = cl_amt a d - cl_amt b d"
  using assms[of d] cl_amt_notin[of d a] by (auto simp: cl_diff_def cl_amt_tab)

lemma cl_single_nonneg: "0 \<le> Amt c \<Longrightarrow> 0 \<le> cl_amt [c] d"
  by simp

lemma cl_valid_add_gen:
  "[] \<notin> set (cl_denoms a) \<Longrightarrow> [] \<notin> set (cl_denoms b) \<Longrightarrow> cl_valid (cl_add a b)"
  unfolding cl_add_def by (rule cl_valid_tab) simp

lemma cl_total:
  assumes "\<And>p. p \<in> set ps \<Longrightarrow> cl_valid (Amount p)"
  shows "cl_valid (foldr (\<lambda>p c. cl_add (Amount p) c) ps [])"
    and "cl_amt (foldr (\<lambda>p c. cl_add (Amount p) c) ps []) d = sum_list (map (\<lambda>p. cl_amt (Amount p) d) ps)"
proof -
  have "cl_valid (foldr (\<lambda>p c. cl_add (Amount p) c) ps []) \<and>
    (\<forall>d. cl_amt (foldr (\<lambda>p c. cl_add (Amount p) c) ps []) d = sum_list (map (\<lambda>p. cl_amt (Amount p) d) ps))"
    using assms
  proof (induction ps)
    case Nil
    then show ?case by (simp add: cl_valid_def cl_denoms_def)
  next
    case (Cons p ps)
    then have "cl_valid (Amount p)" and IH: "cl_valid (foldr (\<lambda>p c. cl_add (Amount p) c) ps [])"
      by simp_all
    then have "cl_amt (cl_add (Amount p) (foldr (\<lambda>p c. cl_add (Amount p) c) ps [])) d =
        cl_amt (Amount p) d + cl_amt (foldr (\<lambda>p c. cl_add (Amount p) c) ps []) d" for d
      by (intro cl_amt_add cl_valid_nonneg)
    then show ?case
      using Cons \<open>cl_valid (Amount p)\<close> IH by (simp add: cl_valid_add_gen cl_valid_denoms)
  qed
  then show "cl_valid (foldr (\<lambda>p c. cl_add (Amount p) c) ps [])"
    and "cl_amt (foldr (\<lambda>p c. cl_add (Amount p) c) ps []) d = sum_list (map (\<lambda>p. cl_amt (Amount p) d) ps)"
    by simp_all
qed

lemma cl_zero_iff: "cl_valid a \<Longrightarrow> (\<forall>d. cl_amt a d = 0) \<longleftrightarrow> a = []"
proof (cases a)
  case (Cons c xs)
  moreover assume "cl_valid a"
  ultimately have "0 < cl_amt a (Denom c)"
    by (intro cl_valid_pos) (simp_all add: cl_denoms_def)
  with Cons show ?thesis by (metis less_irrefl list.discI)
qed simp

lemma cl_valid_empty: "cl_valid []"
  by (simp add: cl_valid_def cl_denoms_def)

lemma cl_is_zero: "cl_valid a \<Longrightarrow> list_all (\<lambda>c. Amt c = 0) a \<longleftrightarrow> a = []"
  by (cases a) (auto simp: cl_valid_def)

lemma cl_items: "cl_valid a \<Longrightarrow> x \<in> set a \<longleftrightarrow> 0 < Amt x \<and> Amt x = cl_amt a (Denom x)"
proof (induction a)
  case (Cons c a)
  then have v: "cl_valid a" "Denom c \<notin> set (cl_denoms a)" "0 < Amt c"
    by (auto simp: cl_valid_def cl_denoms_def)
  show ?case
  proof (cases "Denom x = Denom c")
    case True
    then have "x \<notin> set a" using v(2) by (metis cl_denoms_def image_eqI list.set_map)
    with True v cl_amt_notin[OF v(2)] show ?thesis by (auto intro: coin.equality)
  next
    case False
    then show ?thesis using Cons.IH[OF v(1)] by auto
  qed
qed simp

interpretation std: coins_laws stdCoins "\<lambda>d. d \<noteq> []"
proof (unfold_locales, unfold stdCoins_def coins_api.simps, goal_cases)
  case (2 d) show ?case by simp
next
  case (3 a d) then show ?case by (rule cl_valid_nonneg)
next
  case (4 d x) show ?case by simp
next
  case (5 c) then show ?case by (simp add: cl_valid_add_gen cl_denoms_def)
next
  case (6 c d) then show ?case using cl_amt_add[of "[]" "[c]" d] by simp
next
  case (7 a b) then show ?case by (simp add: cl_valid_add_gen cl_valid_denoms)
next
  case (8 a b d) then show ?case by (simp add: cl_amt_add cl_valid_nonneg)
next
  case (9 a c) then show ?case
    by (intro cl_valid_add_gen) (simp_all add: cl_valid_denoms, simp add: cl_denoms_def)
next
  case (10 a c d) then show ?case using cl_amt_add[of a "[c]" d] cl_valid_nonneg[of a] by auto
next
  case (11 a b) then show ?case by (auto simp: cl_lte_iff cl_valid_nonneg not_le dest: leD)
next
  case (12 a b c) then show ?case
    by (auto simp: cl_diff_def cl_valid_tab cl_valid_denoms split: if_splits)
next
  case (13 a b c d)
  then have "cl_amt b d \<le> cl_amt a d" for d
    using cl_lte_iff[of a b] cl_valid_nonneg[of a] by (auto split: if_splits)
  then show ?case using 13(2,3) by (auto simp: cl_amt_diff cl_valid_nonneg split: if_splits)
next
  case (14 a x) then show ?case by (simp add: cl_lte_def cl_denoms_def not_le)
next
  case (15 a x c) then show ?case
    by (auto simp: cl_diff_def cl_valid_tab cl_valid_denoms split: if_splits)
next
  case (16 a x c d)
  then have c: "c = cl_diff a [x]" and "cl_lte [x] a" by (simp_all split: if_splits)
  then have "cl_amt [x] d \<le> cl_amt a d" for d
    using cl_lte_iff[of a "[x]"] cl_valid_nonneg[OF 16(1)] by blast
  then have "cl_amt (cl_diff a [x]) d = cl_amt a d - cl_amt [x] d"
    using 16(3) by (intro cl_amt_diff cl_single_nonneg)
  then show ?case unfolding c by auto
next
  case (17 a b) then show ?case by (simp add: cl_lte_iff cl_valid_nonneg not_le)
next
  case (18 a b) then show ?case by (simp add: cl_diff_def cl_valid_tab cl_valid_denoms)
next
  case (19 a b d)
  then have "cl_amt b d \<le> cl_amt a d" for d
    using cl_lte_iff[of a b] cl_valid_nonneg[of a] by auto
  then show ?case using 19(2) by (simp add: cl_amt_diff cl_valid_nonneg)
next
  case (20 a b) then show ?case by (simp add: cl_min_def cl_valid_tab cl_valid_denoms)
next
  case (21 a b d) then show ?case
    using cl_amt_notin[of d a] cl_valid_nonneg[of a d] cl_valid_nonneg[of b d]
    by (auto simp: cl_min_def cl_amt_tab)
next
  case (22 a b) then show ?case by (simp add: cl_lte_iff cl_valid_nonneg)
next
  case (23 a) then show ?case by (simp add: cl_zero_iff cl_is_zero)
next
  case (24 a) then show ?case by (simp add: cl_zero_iff)
next
  case (25 a d) show ?case by simp
next
  case (26 a x) then show ?case by (rule cl_items)
next
  case (27 a x) then show ?case by (auto simp: cl_valid_def list_all_iff)
next
  case (28 a) then show ?case by (simp add: cl_valid_def cl_denoms_def)
next
  case (29 ps) show ?case by simp
next
  case (30 ps) then show ?case by (rule cl_total(1))
next
  case (31 ps d) then show ?case by (rule cl_total(2))
next
  case 1 show ?case by (rule cl_valid_empty)
qed

lemma stdCoins_sel [simp]:
  "coEmpty stdCoins = []" "coAmountOf stdCoins = cl_amt" "coIsValid stdCoins = cl_valid"
  "coAdd stdCoins = cl_add" "coMin stdCoins = cl_min" "coIsAllLTE stdCoins = cl_lte"
  "coLen stdCoins = length" "coItems stdCoins = (\<lambda>a. a)"
  by (simp_all add: stdCoins_def)

lemmas std_laws = std.coins_laws_axioms

end
