(* ===== verification/Schedule.thy ===== *)
theory Schedule
  imports Coins
begin

text \<open>
  Vesting schedules, \<^verbatim>\<open>x/vesting/types/schedule.go\<close> and \<^verbatim>\<open>x/vesting/types/utils.go\<close>.
  A schedule is a start time and a list of periods; each period ends in an event that
  releases its amount. The specification of a schedule is the step function
  \<open>released\<close>: what has been released up to a time, per denomination. The theorems say
  that reading, merging, intersecting and aligning schedules are the pointwise value,
  sum, minimum and identity of step functions.
\<close>

section \<open>The code\<close>

definition CoinEq :: "'c coins_api \<Rightarrow> 'c \<Rightarrow> 'c \<Rightarrow> bool" where
  "CoinEq K a b \<longleftrightarrow> coIsAllLTE K a b \<and> coIsAllLTE K b a"

definition Max64 :: "int \<Rightarrow> int \<Rightarrow> int" where
  "Max64 i j = (if i > j then i else j)"

definition Min64 :: "int \<Rightarrow> int \<Rightarrow> int" where
  "Min64 i j = (if i < j then i else j)"

text \<open>The loop of \<open>ReadSchedule\<close>, with its two variables as arguments.\<close>

fun ReadSchedule_loop :: "'c coins_api \<Rightarrow> int \<Rightarrow> int \<Rightarrow> 'c period list \<Rightarrow> 'c \<Rightarrow> 'c" where
  "ReadSchedule_loop K readTime elapsedTime [] coins = coins"
| "ReadSchedule_loop K readTime elapsedTime (period # periods) coins =
     (if readTime < add64 elapsedTime (Length period) then coins
      else ReadSchedule_loop K readTime (add64 elapsedTime (Length period)) periods
             (coAdd K coins (Amount period)))"

definition ReadSchedule ::
  "'c coins_api \<Rightarrow> int \<Rightarrow> int \<Rightarrow> 'c period list \<Rightarrow> 'c \<Rightarrow> int \<Rightarrow> 'c" where
  "ReadSchedule K startTime endTime periods totalCoins readTime =
     (if readTime \<le> startTime then coEmpty K
      else if readTime \<ge> endTime then totalCoins
      else ReadSchedule_loop K readTime startTime periods (coEmpty K))"

fun ReadPastPeriodCount_loop :: "int \<Rightarrow> int \<Rightarrow> 'c period list \<Rightarrow> nat \<Rightarrow> nat" where
  "ReadPastPeriodCount_loop readTime elapsedTime [] passedPeriods = passedPeriods"
| "ReadPastPeriodCount_loop readTime elapsedTime (period # periods) passedPeriods =
     (if readTime < add64 elapsedTime (Length period) then passedPeriods
      else ReadPastPeriodCount_loop readTime (add64 elapsedTime (Length period)) periods
             (Suc passedPeriods))"

definition ReadPastPeriodCount :: "int \<Rightarrow> int \<Rightarrow> 'c period list \<Rightarrow> int \<Rightarrow> nat" where
  "ReadPastPeriodCount startTime endTime periods readTime =
     (if readTime \<le> startTime then 0
      else if readTime \<ge> endTime then length periods
      else ReadPastPeriodCount_loop readTime startTime periods 0)"

text \<open>
  The three loops of \<open>DisjunctPeriods\<close>. The indices into the two period slices are the
  suffixes still to be processed; \<open>timeA\<close>, \<open>timeB\<close> are the times of the last event of
  each schedule, \<open>endTime\<close> that of the last emitted event. The result is the final
  \<open>endTime\<close> and the periods emitted from here on.
\<close>

definition emit :: "int \<Rightarrow> int \<Rightarrow> 'c \<Rightarrow> 'c period" where
  "emit endTime nextTime amount = \<lparr>Length = sub64 nextTime endTime, Amount = amount\<rparr>"

fun Disjunct_loop :: "'c coins_api \<Rightarrow> int \<Rightarrow> int \<Rightarrow> int \<Rightarrow> 'c period list \<Rightarrow> 'c period list \<Rightarrow>
    int \<times> 'c period list" where
  "Disjunct_loop K timeA timeB endTime (a # as) (b # bs) =
     (let nextA = add64 timeA (Length a); nextB = add64 timeB (Length b) in
      if nextA < nextB then
        apsnd ((#) (emit endTime nextA (Amount a))) (Disjunct_loop K nextA timeB nextA as (b # bs))
      else if nextA > nextB then
        apsnd ((#) (emit endTime nextB (Amount b))) (Disjunct_loop K timeA nextB nextB (a # as) bs)
      else
        apsnd ((#) (emit endTime nextA (coAdd K (Amount a) (Amount b))))
          (Disjunct_loop K nextA nextA nextA as bs))"
| "Disjunct_loop K timeA timeB endTime (a # as) [] =
     (let nextA = add64 timeA (Length a) in
      apsnd ((#) (emit endTime nextA (Amount a))) (Disjunct_loop K nextA timeB nextA as []))"
| "Disjunct_loop K timeA timeB endTime [] (b # bs) =
     (let nextB = add64 timeB (Length b) in
      apsnd ((#) (emit endTime nextB (Amount b))) (Disjunct_loop K timeA nextB nextB [] bs))"
| "Disjunct_loop K timeA timeB endTime [] [] = (endTime, [])"

definition DisjunctPeriods :: "'c coins_api \<Rightarrow> int \<Rightarrow> int \<Rightarrow> 'c period list \<Rightarrow> 'c period list \<Rightarrow>
    int \<times> int \<times> 'c period list" where
  "DisjunctPeriods K startA startB periodsA periodsB =
     (let startTime = Min64 startA startB
      in (startTime, Disjunct_loop K startA startB startTime periodsA periodsB))"

text \<open>
  \<open>ConjunctPeriods\<close>: the shared tail of \<open>consumeA\<close>, \<open>consumeB\<close> and \<open>consumeBoth\<close>
  compares the minimum of the two running totals with what has been emitted and emits
  the difference. It returns the periods emitted (none or one), the end of the last
  emitted period and the emitted amount. \<^verbatim>\<open>Sub\<close> may panic.
\<close>

definition Conjunct_emit :: "'c coins_api \<Rightarrow> int \<Rightarrow> int \<Rightarrow> 'c \<Rightarrow> 'c \<Rightarrow> 'c \<Rightarrow>
    ('c period list \<times> int \<times> 'c) result" where
  "Conjunct_emit K lastEnd nextTime resultingAmount totalA totalB =
     (let minAmount = coMin K totalA totalB in
      if coIsAllLTE K resultingAmount minAmount then
        bind_r (of_option (Panic ''negative coin amount'') (coSub K minAmount resultingAmount))
          (\<lambda>diff. if \<not> coIsZero K diff
                  then Inr ([emit lastEnd nextTime diff], nextTime, coAdd K resultingAmount diff)
                  else Inr ([], lastEnd, resultingAmount))
      else Inr ([], lastEnd, resultingAmount))"

fun Conjunct_loop :: "'c coins_api \<Rightarrow> int \<Rightarrow> int \<Rightarrow> int \<Rightarrow> 'c \<Rightarrow> 'c \<Rightarrow> 'c \<Rightarrow>
    'c period list \<Rightarrow> 'c period list \<Rightarrow> (int \<times> 'c period list) result" where
  "Conjunct_loop K timeA timeB lastEnd res totA totB (a # as) (b # bs) =
     (let nextA = add64 timeA (Length a); nextB = add64 timeB (Length b) in
      if nextA < nextB then
        (let totA' = coAdd K totA (Amount a) in
         bind_r (Conjunct_emit K lastEnd nextA res totA' totB) (\<lambda>(out, lastEnd', res').
         bind_r (Conjunct_loop K nextA timeB lastEnd' res' totA' totB as (b # bs)) (\<lambda>(end, ps).
         Inr (end, out @ ps))))
      else if nextA > nextB then
        (let totB' = coAdd K totB (Amount b) in
         bind_r (Conjunct_emit K lastEnd nextB res totA totB') (\<lambda>(out, lastEnd', res').
         bind_r (Conjunct_loop K timeA nextB lastEnd' res' totA totB' (a # as) bs) (\<lambda>(end, ps).
         Inr (end, out @ ps))))
      else
        (let totA' = coAdd K totA (Amount a); totB' = coAdd K totB (Amount b) in
         bind_r (Conjunct_emit K lastEnd nextA res totA' totB') (\<lambda>(out, lastEnd', res').
         bind_r (Conjunct_loop K nextA nextA lastEnd' res' totA' totB' as bs) (\<lambda>(end, ps).
         Inr (end, out @ ps)))))"
| "Conjunct_loop K timeA timeB lastEnd res totA totB (a # as) [] =
     (let nextA = add64 timeA (Length a); totA' = coAdd K totA (Amount a) in
      bind_r (Conjunct_emit K lastEnd nextA res totA' totB) (\<lambda>(out, lastEnd', res').
      bind_r (Conjunct_loop K nextA timeB lastEnd' res' totA' totB as []) (\<lambda>(end, ps).
      Inr (end, out @ ps))))"
| "Conjunct_loop K timeA timeB lastEnd res totA totB [] (b # bs) =
     (let nextB = add64 timeB (Length b); totB' = coAdd K totB (Amount b) in
      bind_r (Conjunct_emit K lastEnd nextB res totA totB') (\<lambda>(out, lastEnd', res').
      bind_r (Conjunct_loop K timeA nextB lastEnd' res' totA totB' [] bs) (\<lambda>(end, ps).
      Inr (end, out @ ps))))"
| "Conjunct_loop K timeA timeB lastEnd res totA totB [] [] = Inr (lastEnd, [])"

definition ConjunctPeriods :: "'c coins_api \<Rightarrow> int \<Rightarrow> int \<Rightarrow> 'c period list \<Rightarrow> 'c period list \<Rightarrow>
    (int \<times> int \<times> 'c period list) result" where
  "ConjunctPeriods K startA startB periodsA periodsB =
     (let startTime = Min64 startA startB in
      bind_r (Conjunct_loop K startA startB startTime (coEmpty K) (coEmpty K) (coEmpty K)
                periodsA periodsB)
        (\<lambda>(end, ps). Inr (startTime, end, ps)))"

text \<open>
  \<open>AlignSchedules\<close> updates the first period of each slice in place; the updated slices
  are returned next to the start and end times.
\<close>

definition align_first :: "int \<Rightarrow> 'c period list \<Rightarrow> 'c period list" where
  "align_first delta ps =
     (case ps of [] \<Rightarrow> [] | p # rest \<Rightarrow> p\<lparr>Length := add64 (Length p) delta\<rparr> # rest)"

definition AlignSchedules :: "'c coins_api \<Rightarrow> int \<Rightarrow> int \<Rightarrow> 'c period list \<Rightarrow> 'c period list \<Rightarrow>
    int \<times> int \<times> 'c period list \<times> 'c period list" where
  "AlignSchedules K startA startB periodsA periodsB =
     (let startTime = Min64 startA startB;
          periodsA' = align_first (sub64 startA startTime) periodsA;
          periodsB' = align_first (sub64 startB startTime) periodsB;
          endA = add64 startTime (coTotalLength K periodsA');
          endB = add64 startTime (coTotalLength K periodsB')
      in (startTime, Max64 endA endB, periodsA', periodsB'))"

section \<open>The specification: released amounts over time\<close>

fun released :: "'c coins_api \<Rightarrow> int \<Rightarrow> 'c period list \<Rightarrow> int \<Rightarrow> string \<Rightarrow> int" where
  "released K s [] t d = 0"
| "released K s (p # ps) t d =
     (if s + Length p \<le> t then coAmountOf K (Amount p) d else 0) + released K (s + Length p) ps t d"

definition total_length :: "'c period list \<Rightarrow> int" where
  "total_length ps = sum_list (map Length ps)"

definition total_amount :: "'c coins_api \<Rightarrow> 'c period list \<Rightarrow> string \<Rightarrow> int" where
  "total_amount K ps d = sum_list (map (\<lambda>p. coAmountOf K (Amount p) d) ps)"

text \<open>
  A schedule is well formed when its amounts are valid coins, its lengths are not
  negative and its times stay within half of the \<^verbatim>\<open>int64\<close> range, so that no sum or
  difference of two of them wraps around.
\<close>

definition time_ok :: "int \<Rightarrow> bool" where
  "time_ok t \<longleftrightarrow> - 4611686018427387904 \<le> t \<and> t < 4611686018427387904"

definition sched_ok :: "'c coins_api \<Rightarrow> int \<Rightarrow> 'c period list \<Rightarrow> bool" where
  "sched_ok K s ps \<longleftrightarrow> time_ok s \<and> time_ok (s + total_length ps) \<and>
     list_all (\<lambda>p. 0 \<le> Length p \<and> coIsValid K (Amount p)) ps"

lemma total_length_simps [simp]:
  "total_length [] = 0" "total_length (p # ps) = Length p + total_length ps"
  "total_length (ps @ qs) = total_length ps + total_length qs"
  by (simp_all add: total_length_def)

lemma total_amount_simps [simp]:
  "total_amount K [] d = 0"
  "total_amount K (p # ps) d = coAmountOf K (Amount p) d + total_amount K ps d"
  "total_amount K (ps @ qs) d = total_amount K ps d + total_amount K qs d"
  by (simp_all add: total_amount_def)

lemma total_length_nonneg: "list_all (\<lambda>p. 0 \<le> Length p \<and> V p) ps \<Longrightarrow> 0 \<le> total_length ps"
  by (induction ps) auto

lemma sched_ok_Nil [simp]: "sched_ok K s [] \<longleftrightarrow> time_ok s"
  by (simp add: sched_ok_def)

lemma sched_ok_Cons:
  "sched_ok K s (p # ps) \<longleftrightarrow>
     time_ok s \<and> 0 \<le> Length p \<and> coIsValid K (Amount p) \<and> sched_ok K (s + Length p) ps"
  using total_length_nonneg[of "\<lambda>p. coIsValid K (Amount p)" ps]
  by (auto simp: sched_ok_def time_ok_def add.assoc)

lemma time_ok_add64 [i64_simps]: "time_ok (s + l) \<Longrightarrow> add64 s l = s + l"
  by (auto simp: time_ok_def in64_def intro!: add64_exact)

lemma time_ok_sub64 [i64_simps]: "time_ok a \<Longrightarrow> time_ok b \<Longrightarrow> sub64 a b = a - b"
  by (auto simp: time_ok_def in64_def intro!: sub64_exact)

lemma sched_ok_start: "sched_ok K s ps \<Longrightarrow> time_ok s"
  by (simp add: sched_ok_def)

lemma sched_ok_add64: "sched_ok K s (p # ps) \<Longrightarrow> add64 s (Length p) = s + Length p"
  by (auto simp: sched_ok_Cons dest!: sched_ok_start intro: time_ok_add64)

lemma Min64_min: "Min64 a b = min a b"
  by (simp add: Min64_def)

lemma Max64_max: "Max64 a b = max a b"
  by (simp add: Max64_def)

lemma released_before: "list_all (\<lambda>p. 0 \<le> Length p \<and> V p) ps \<Longrightarrow> t < s \<Longrightarrow> released K s ps t d = 0"
  by (induction ps arbitrary: s) auto

lemma sched_ok_released_before: "sched_ok K s ps \<Longrightarrow> t < s \<Longrightarrow> released K s ps t d = 0"
  by (auto simp: sched_ok_def intro: released_before)

lemma released_after:
  "list_all (\<lambda>p. 0 \<le> Length p \<and> V p) ps \<Longrightarrow> s + total_length ps \<le> t \<Longrightarrow>
   released K s ps t d = total_amount K ps d"
proof (induction ps arbitrary: s)
  case (Cons p ps)
  then have "0 \<le> total_length ps" by (intro total_length_nonneg[of V]) simp
  with Cons show ?case by (simp add: add.assoc)
qed simp

lemma sched_ok_released_after:
  "sched_ok K s ps \<Longrightarrow> s + total_length ps \<le> t \<Longrightarrow> released K s ps t d = total_amount K ps d"
  by (auto simp: sched_ok_def intro: released_after)

section \<open>Reading a schedule\<close>

context coins_laws
begin

lemma sched_ok_valid: "sched_ok K s ps \<Longrightarrow> p \<in> set ps \<Longrightarrow> coIsValid K (Amount p)"
  by (auto simp: sched_ok_def list_all_iff)

lemma released_nonneg: "sched_ok K s ps \<Longrightarrow> 0 \<le> released K s ps t d"
  by (induction ps arbitrary: s) (auto simp: sched_ok_Cons amount_nonneg)

lemma released_mono: "sched_ok K s ps \<Longrightarrow> t \<le> t' \<Longrightarrow> released K s ps t d \<le> released K s ps t' d"
  by (induction ps arbitrary: s) (auto simp: sched_ok_Cons amount_nonneg add_mono)

lemma released_le_total: "sched_ok K s ps \<Longrightarrow> released K s ps t d \<le> total_amount K ps d"
  by (induction ps arbitrary: s) (auto simp: sched_ok_Cons amount_nonneg add_mono)

lemma ReadSchedule_loop_valid:
  "sched_ok K s ps \<Longrightarrow> coIsValid K c \<Longrightarrow> coIsValid K (ReadSchedule_loop K t s ps c)"
  by (induction ps arbitrary: s c) (auto simp: sched_ok_Cons sched_ok_add64 valid_add)

lemma ReadSchedule_loop_amount:
  "sched_ok K s ps \<Longrightarrow> coIsValid K c \<Longrightarrow>
   coAmountOf K (ReadSchedule_loop K t s ps c) d = coAmountOf K c d + released K s ps t d"
proof (induction ps arbitrary: s c)
  case (Cons p ps)
  then have ok: "sched_ok K (s + Length p) ps" and v: "coIsValid K (Amount p)"
    by (simp_all add: sched_ok_Cons)
  note add = sched_ok_add64[OF Cons.prems(1)]
  show ?case
  proof (cases "t < s + Length p")
    case True
    then show ?thesis using sched_ok_released_before[OF ok True] by (simp add: add)
  next
    case False
    then show ?thesis using Cons.IH[OF ok valid_add[OF Cons.prems(2) v]] Cons.prems v
      by (simp add: add amount_add)
  qed
qed simp

lemma ReadSchedule_valid:
  "sched_ok K s ps \<Longrightarrow> coIsValid K tot \<Longrightarrow> coIsValid K (ReadSchedule K s e ps tot t)"
  by (simp add: ReadSchedule_def ReadSchedule_loop_valid valid_empty)

lemma ReadSchedule_amount:
  assumes "sched_ok K s ps" "s + total_length ps \<le> e"
    and "\<And>d. coAmountOf K tot d = total_amount K ps d"
  shows "coAmountOf K (ReadSchedule K s e ps tot t) d = (if t \<le> s then 0 else released K s ps t d)"
  using assms sched_ok_released_after[OF assms(1), of t d]
  by (simp add: ReadSchedule_def ReadSchedule_loop_amount valid_empty amount_empty)

end

lemma ReadPastPeriodCount_loop_eq:
  "sched_ok K s ps \<Longrightarrow> ReadPastPeriodCount_loop t s ps n = n + ReadPastPeriodCount_loop t s ps 0"
proof (induction ps arbitrary: s n)
  case (Cons p ps)
  then have ok: "sched_ok K (s + Length p) ps" by (simp add: sched_ok_Cons)
  show ?case
    using Cons.IH[OF ok, of "Suc n"] Cons.IH[OF ok, of 1] by (simp add: sched_ok_add64[OF Cons.prems])
qed simp

text \<open>The periods counted are exactly those whose events lie in the past.\<close>

lemma ReadPastPeriodCount_loop_take:
  "sched_ok K s ps \<Longrightarrow> n = ReadPastPeriodCount_loop t s ps 0 \<Longrightarrow>
   n \<le> length ps \<and> total_amount K (take n ps) d = released K s ps t d \<and>
   (0 < n \<longrightarrow> s + total_length (take n ps) \<le> t) \<and>
   (n < length ps \<longrightarrow> t < s + total_length (take (Suc n) ps))"
proof (induction ps arbitrary: s n)
  case (Cons p ps)
  then have ok: "sched_ok K (s + Length p) ps" by (simp add: sched_ok_Cons)
  note add = sched_ok_add64[OF Cons.prems(1)]
  show ?case
  proof (cases "t < s + Length p")
    case True
    then show ?thesis
      using Cons.prems(2) sched_ok_released_before[OF ok True] by (simp add: add)
  next
    case False
    define m where "m = ReadPastPeriodCount_loop t (s + Length p) ps 0"
    have n: "n = Suc m"
      using Cons.prems(2) False ReadPastPeriodCount_loop_eq[OF ok, of t 1] by (simp add: add m_def)
    from Cons.IH[OF ok m_def] False show ?thesis
      by (cases m) (auto simp: n add.assoc)
  qed
qed simp

lemma ReadPastPeriodCount_take:
  assumes "sched_ok K s ps" "s + total_length ps \<le> e"
  shows "ReadPastPeriodCount s e ps t \<le> length ps \<and>
    total_amount K (take (ReadPastPeriodCount s e ps t) ps) d = (if t \<le> s then 0 else released K s ps t d)"
  using ReadPastPeriodCount_loop_take[OF assms(1) refl, of t d]
    sched_ok_released_after[OF assms(1), of t d] assms(2)
  by (simp add: ReadPastPeriodCount_def)

section \<open>Merging two schedules\<close>

text \<open>The next event of a schedule does not lie before the last emitted event.\<close>

definition next_after :: "int \<Rightarrow> int \<Rightarrow> 'c period list \<Rightarrow> bool" where
  "next_after e s ps \<longleftrightarrow> (case ps of [] \<Rightarrow> True | p # _ \<Rightarrow> e \<le> s + Length p)"

lemma next_after_simps [simp]: "next_after e s []" "next_after e s (p # ps) \<longleftrightarrow> e \<le> s + Length p"
  by (simp_all add: next_after_def)

lemma next_after_self: "sched_ok K s ps \<Longrightarrow> e \<le> s \<Longrightarrow> next_after e s ps"
  by (cases ps) (auto simp: sched_ok_Cons)

lemma emit_length: "time_ok e \<Longrightarrow> time_ok n \<Longrightarrow> Length (emit e n c) = n - e"
  by (simp add: emit_def time_ok_sub64)

lemma emit_amount [simp]: "Amount (emit e n c) = c"
  by (simp add: emit_def)

lemma sched_ok_emit:
  "time_ok e \<Longrightarrow> e \<le> n \<Longrightarrow> coIsValid K c \<Longrightarrow> sched_ok K n ps \<Longrightarrow> sched_ok K e (emit e n c # ps)"
  by (simp add: sched_ok_Cons emit_length sched_ok_start)

lemma released_emit:
  "time_ok e \<Longrightarrow> time_ok n \<Longrightarrow>
   released K e (emit e n c # ps) t d = (if n \<le> t then coAmountOf K c d else 0) + released K n ps t d"
  by (simp add: emit_length)

context coins_laws
begin

text \<open>
  The invariant of the merge: the emitted periods form a well-formed schedule that starts
  at the last emitted event, ends at the returned end time, and releases the sum of what
  the two remaining schedules release.
\<close>

definition merge_inv :: "int \<Rightarrow> int \<Rightarrow> int \<Rightarrow> 'c period list \<Rightarrow> 'c period list \<Rightarrow>
    int \<times> 'c period list \<Rightarrow> bool" where
  "merge_inv tA tB e A B r \<longleftrightarrow> sched_ok K e (snd r) \<and> fst r = e + total_length (snd r) \<and>
     (\<forall>t d. released K e (snd r) t d = released K tA A t d + released K tB B t d)"

lemma merge_inv_step:
  assumes "merge_inv tA tB n A B r" "time_ok e" "e \<le> n" "coIsValid K c"
    and "\<And>t d. released K tA' A' t d + released K tB' B' t d =
      (if n \<le> t then coAmountOf K c d else 0) + released K tA A t d + released K tB B t d"
  shows "merge_inv tA' tB' e A' B' (apsnd ((#) (emit e n c)) r)"
proof -
  from assms(1) have ok: "sched_ok K n (snd r)" by (simp add: merge_inv_def)
  with sched_ok_emit[OF assms(2-4) ok] assms show ?thesis
    by (simp add: merge_inv_def released_emit emit_length sched_ok_start)
qed

lemma Disjunct_loop_inv:
  "K' = K \<Longrightarrow> sched_ok K tA A \<Longrightarrow> sched_ok K tB B \<Longrightarrow> time_ok e \<Longrightarrow>
   next_after e tA A \<Longrightarrow> next_after e tB B \<Longrightarrow>
   merge_inv tA tB e A B (Disjunct_loop K' tA tB e A B)"
proof (induction K' tA tB e A B rule: Disjunct_loop.induct)
  case (1 K' tA tB e a as b bs)
  let ?nA = "tA + Length a" and ?nB = "tB + Length b"
  have okA: "sched_ok K ?nA as" "coIsValid K (Amount a)" "time_ok ?nA"
    and okB: "sched_ok K ?nB bs" "coIsValid K (Amount b)" "time_ok ?nB"
    using "1.prems"(2,3) by (auto simp: sched_ok_Cons dest: sched_ok_start)
  note add = sched_ok_add64[OF "1.prems"(2)] sched_ok_add64[OF "1.prems"(3)]
  note eqs = "1.prems"(1) add
  consider "?nA < ?nB" | "?nB < ?nA" | "?nA = ?nB" by linarith
  then show ?case
  proof cases
    case 1
    with "1.IH"(1)[OF _ _ _ \<open>K' = K\<close>] "1.prems" okA
    have "merge_inv ?nA tB ?nA as (b # bs) (Disjunct_loop K ?nA tB ?nA as (b # bs))"
      by (simp add: add next_after_self)
    from merge_inv_step[OF this, of e "Amount a" tA "a # as" tB "b # bs"]
    show ?thesis using 1 okA "1.prems" by (simp add: add Let_def)
  next
    case 2
    with "1.IH"(2)[OF _ _ _ _ \<open>K' = K\<close>] "1.prems" okB
    have "merge_inv tA ?nB ?nB (a # as) bs (Disjunct_loop K tA ?nB ?nB (a # as) bs)"
      by (simp add: add next_after_self)
    from merge_inv_step[OF this, of e "Amount b" tA "a # as" tB "b # bs"]
    show ?thesis using 2 okB "1.prems" by (simp add: add Let_def)
  next
    case 3
    with "1.IH"(3)[OF _ _ _ _ \<open>K' = K\<close>] "1.prems" okA okB
    have "merge_inv ?nA ?nA ?nA as bs (Disjunct_loop K ?nA ?nA ?nA as bs)"
      by (simp add: add next_after_self)
    from merge_inv_step[OF this, of e "coAdd K (Amount a) (Amount b)" tA "a # as" tB "b # bs"]
    show ?thesis using 3 okA okB "1.prems" by (simp add: add Let_def amount_add valid_add)
  qed
next
  case (2 K' tA tB e a as)
  let ?nA = "tA + Length a"
  have okA: "sched_ok K ?nA as" "coIsValid K (Amount a)" "time_ok ?nA"
    using "2.prems"(2) by (auto simp: sched_ok_Cons dest: sched_ok_start)
  note add = sched_ok_add64[OF "2.prems"(2)]
  from "2.IH"[OF refl \<open>K' = K\<close>] "2.prems" okA
  have "merge_inv ?nA tB ?nA as [] (Disjunct_loop K ?nA tB ?nA as [])"
    by (simp add: add next_after_self)
  from merge_inv_step[OF this, of e "Amount a" tA "a # as" tB "[]"]
  show ?case using okA "2.prems" by (simp add: add Let_def)
next
  case (3 K' tA tB e b bs)
  let ?nB = "tB + Length b"
  have okB: "sched_ok K ?nB bs" "coIsValid K (Amount b)" "time_ok ?nB"
    using "3.prems"(3) by (auto simp: sched_ok_Cons dest: sched_ok_start)
  note add = sched_ok_add64[OF "3.prems"(3)]
  from "3.IH"[OF refl \<open>K' = K\<close>] "3.prems" okB
  have "merge_inv tA ?nB ?nB [] bs (Disjunct_loop K tA ?nB ?nB [] bs)"
    by (simp add: add next_after_self)
  from merge_inv_step[OF this, of e "Amount b" tA "[]" tB "b # bs"]
  show ?case using okB "3.prems" by (simp add: add Let_def)
next
  case (4 K' tA tB e)
  then show ?case by (simp add: merge_inv_def)
qed

lemma DisjunctPeriods_correct:
  assumes "sched_ok K sA A" "sched_ok K sB B" "DisjunctPeriods K sA sB A B = (s, e, ps)"
  shows "s = min sA sB" "sched_ok K s ps" "e = s + total_length ps"
    "released K s ps t d = released K sA A t d + released K sB B t d"
proof -
  let ?s = "min sA sB"
  have "time_ok ?s" using assms(1,2) by (auto simp: min_def dest: sched_ok_start)
  then have "merge_inv sA sB ?s A B (Disjunct_loop K sA sB ?s A B)"
    using assms by (intro Disjunct_loop_inv next_after_self) auto
  moreover have "s = ?s" "Disjunct_loop K sA sB ?s A B = (e, ps)"
    using assms(3) by (auto simp: DisjunctPeriods_def Let_def Min64_min)
  ultimately show "s = min sA sB" "sched_ok K s ps" "e = s + total_length ps"
    "released K s ps t d = released K sA A t d + released K sB B t d"
    by (auto simp: merge_inv_def)
qed

lemma released_total:
  "sched_ok K s ps \<Longrightarrow> released K s ps (s + total_length ps) d = total_amount K ps d"
  by (simp add: sched_ok_released_after)

lemma DisjunctPeriods_total:
  assumes "sched_ok K sA A" "sched_ok K sB B" "DisjunctPeriods K sA sB A B = (s, e, ps)"
  shows "total_amount K ps d = total_amount K A d + total_amount K B d"
proof -
  define t where "t = max (s + total_length ps) (max (sA + total_length A) (sB + total_length B))"
  have "total_amount K ps d = released K s ps t d" "total_amount K A d = released K sA A t d"
    "total_amount K B d = released K sB B t d"
    using assms DisjunctPeriods_correct(2)[OF assms]
    by (simp_all add: sched_ok_released_after t_def)
  then show ?thesis using DisjunctPeriods_correct(4)[OF assms] by simp
qed

end

section \<open>Intersecting two schedules\<close>

lemma released_next_after:
  "sched_ok K s ps \<Longrightarrow> next_after n s ps \<Longrightarrow> t < n \<Longrightarrow> released K s ps t d = 0"
  by (cases ps) (auto simp: sched_ok_Cons sched_ok_released_before)

context coins_laws
begin

text \<open>
  What one step of the intersection guarantees: it does not panic, the emitted amount
  becomes the minimum of the two running totals, and prefixing the emitted periods to a
  schedule shifts its released amounts by the difference from the event time on.
\<close>

definition emit_inv :: "int \<Rightarrow> int \<Rightarrow> 'c \<Rightarrow> 'c \<Rightarrow> 'c \<Rightarrow> 'c period list \<Rightarrow> int \<Rightarrow> 'c \<Rightarrow> bool" where
  "emit_inv e n res totA totB out e' res' \<longleftrightarrow>
     coIsValid K res' \<and> (e' = e \<or> e' = n) \<and>
     (\<forall>d. coAmountOf K res' d = min (coAmountOf K totA d) (coAmountOf K totB d)) \<and>
     (\<forall>ps. sched_ok K e' ps \<longrightarrow> sched_ok K e (out @ ps) \<and>
        e + total_length (out @ ps) = e' + total_length ps \<and>
        (\<forall>t d. released K e (out @ ps) t d =
           (if n \<le> t then coAmountOf K res' d - coAmountOf K res d else 0) + released K e' ps t d))"

lemma Conjunct_emit_inv:
  assumes v: "coIsValid K res" "coIsValid K totA" "coIsValid K totB"
    and le: "\<And>d. coAmountOf K res d \<le> min (coAmountOf K totA d) (coAmountOf K totB d)"
    and t: "time_ok e" "time_ok n" "e \<le> n"
  obtains out e' res' where "Conjunct_emit K e n res totA totB = Inr (out, e', res')"
    "emit_inv e n res totA totB out e' res'"
proof -
  let ?m = "coMin K totA totB"
  have vm: "coIsValid K ?m" and am: "\<And>d. coAmountOf K ?m d = min (coAmountOf K totA d) (coAmountOf K totB d)"
    using v by (simp_all add: valid_min amount_min)
  have lte: "coIsAllLTE K res ?m" using le v vm by (simp add: all_lte am)
  obtain diff where diff: "coSub K ?m res = Some diff" "coIsValid K diff"
    "\<And>d. coAmountOf K diff d = coAmountOf K ?m d - coAmountOf K res d"
    using sub_defined[OF vm v(1)] le am by auto
  show thesis
  proof (cases "coIsZero K diff")
    case True
    then have "\<And>d. coAmountOf K res d = coAmountOf K ?m d"
      using diff by (simp add: is_zero)
    with True show thesis
      using lte diff v(1) am by (intro that[of "[]" e res]) (simp_all add: Conjunct_emit_def Let_def emit_inv_def)
  next
    case False
    have "sched_ok K n ps \<Longrightarrow> sched_ok K e (emit e n diff # ps)" for ps
      using sched_ok_emit[OF t(1,3) diff(2)] .
    with False show thesis
      using lte diff v(1) am t
      by (intro that[of "[emit e n diff]" n "coAdd K res diff"])
        (simp_all add: Conjunct_emit_def Let_def emit_inv_def amount_add valid_add released_emit emit_length)
  qed
qed

definition conj_inv :: "int \<Rightarrow> int \<Rightarrow> int \<Rightarrow> 'c \<Rightarrow> 'c \<Rightarrow> 'c \<Rightarrow> 'c period list \<Rightarrow> 'c period list \<Rightarrow>
    (int \<times> 'c period list) result \<Rightarrow> bool" where
  "conj_inv tA tB e res totA totB A B r \<longleftrightarrow>
     (\<exists>end ps. r = Inr (end, ps) \<and> sched_ok K e ps \<and> end = e + total_length ps \<and>
        (\<forall>t d. released K e ps t d =
           min (coAmountOf K totA d + released K tA A t d) (coAmountOf K totB d + released K tB B t d)
           - coAmountOf K res d))"

lemma conj_inv_step:
  assumes emit: "emit_inv e n res totA' totB' out e' res'"
    and IH: "conj_inv tA' tB' e' res' totA' totB' A' B' r"
    and res: "\<And>d. coAmountOf K res d = min (coAmountOf K totA d) (coAmountOf K totB d)"
    and before: "\<And>t d. t < n \<Longrightarrow> released K tA A t d = 0 \<and> released K tB B t d = 0 \<and>
      released K tA' A' t d = 0 \<and> released K tB' B' t d = 0"
    and after: "\<And>t d. n \<le> t \<Longrightarrow>
      coAmountOf K totA' d + released K tA' A' t d = coAmountOf K totA d + released K tA A t d \<and>
      coAmountOf K totB' d + released K tB' B' t d = coAmountOf K totB d + released K tB B t d"
  shows "conj_inv tA tB e res totA totB A B (bind_r r (\<lambda>(end, ps). Inr (end, out @ ps)))"
proof -
  from IH obtain ends ps where r: "r = Inr (ends, ps)" and ok: "sched_ok K e' ps"
    and len: "ends = e' + total_length ps"
    and rel: "\<And>t d. released K e' ps t d =
      min (coAmountOf K totA' d + released K tA' A' t d) (coAmountOf K totB' d + released K tB' B' t d)
      - coAmountOf K res' d"
    by (auto simp: conj_inv_def)
  from emit ok have ok': "sched_ok K e (out @ ps)"
    and len': "e + total_length (out @ ps) = e' + total_length ps"
    and rel': "\<And>t d. released K e (out @ ps) t d =
      (if n \<le> t then coAmountOf K res' d - coAmountOf K res d else 0) + released K e' ps t d"
    and res': "\<And>d. coAmountOf K res' d = min (coAmountOf K totA' d) (coAmountOf K totB' d)"
    by (auto simp: emit_inv_def)
  have "released K e (out @ ps) t d =
      min (coAmountOf K totA d + released K tA A t d) (coAmountOf K totB d + released K tB B t d)
      - coAmountOf K res d" for t d
    using after[of t d] before[of t d] res[of d] res'[of d] by (cases "n \<le> t") (simp_all add: rel' rel)
  then show ?thesis using ok' len' len by (simp add: conj_inv_def r)
qed

text \<open>
  Advancing one of the two schedules to the event time \<open>n\<close>: either nothing happens before
  \<open>n\<close> and the schedule is left alone, or its head event is at \<open>n\<close> and is consumed.
\<close>

definition advance :: "int \<Rightarrow> int \<Rightarrow> 'c \<Rightarrow> 'c period list \<Rightarrow> int \<Rightarrow> 'c \<Rightarrow> 'c period list \<Rightarrow> bool" where
  "advance n s tot ps s' tot' ps' \<longleftrightarrow>
     sched_ok K s' ps' \<and> coIsValid K tot' \<and> next_after n s' ps' \<and>
     (\<forall>t d. t < n \<longrightarrow> released K s ps t d = 0 \<and> released K s' ps' t d = 0) \<and>
     (\<forall>t d. n \<le> t \<longrightarrow> coAmountOf K tot' d + released K s' ps' t d = coAmountOf K tot d + released K s ps t d) \<and>
     (\<forall>d. coAmountOf K tot d \<le> coAmountOf K tot' d)"

lemma advance_same:
  "sched_ok K s ps \<Longrightarrow> coIsValid K tot \<Longrightarrow> next_after n s ps \<Longrightarrow> advance n s tot ps s tot ps"
  by (simp add: advance_def released_next_after)

lemma advance_head:
  assumes "sched_ok K s (p # ps)" "coIsValid K tot" "n = s + Length p"
  shows "advance n s tot (p # ps) n (coAdd K tot (Amount p)) ps"
  using assms amount_nonneg[of "Amount p"] sched_ok_released_before[of K n ps]
  by (auto simp: advance_def sched_ok_Cons amount_add valid_add intro: next_after_self)

definition conj_pre :: "int \<Rightarrow> int \<Rightarrow> int \<Rightarrow> 'c \<Rightarrow> 'c \<Rightarrow> 'c \<Rightarrow> 'c period list \<Rightarrow> 'c period list \<Rightarrow> bool" where
  "conj_pre tA tB e res totA totB A B \<longleftrightarrow>
     sched_ok K tA A \<and> sched_ok K tB B \<and> time_ok e \<and> next_after e tA A \<and> next_after e tB B \<and>
     coIsValid K res \<and> coIsValid K totA \<and> coIsValid K totB \<and>
     (\<forall>d. coAmountOf K res d = min (coAmountOf K totA d) (coAmountOf K totB d))"

lemma next_after_le: "next_after n s ps \<Longrightarrow> e \<le> n \<Longrightarrow> next_after e s ps"
  by (cases ps) auto

lemma conj_consume:
  assumes pre: "conj_pre tA tB e res totA totB A B"
    and n: "time_ok n" "e \<le> n"
    and advA: "advance n tA totA A tA' totA' A'" and advB: "advance n tB totB B tB' totB' B'"
    and IH: "\<And>e' res'. conj_pre tA' tB' e' res' totA' totB' A' B' \<Longrightarrow>
      conj_inv tA' tB' e' res' totA' totB' A' B' (loop e' res')"
  shows "conj_inv tA tB e res totA totB A B
    (bind_r (Conjunct_emit K e n res totA' totB') (\<lambda>(out, e', res').
     bind_r (loop e' res') (\<lambda>(end, ps). Inr (end, out @ ps))))"
proof -
  have le: "coAmountOf K res d \<le> min (coAmountOf K totA' d) (coAmountOf K totB' d)" for d
    using pre advA advB by (auto simp: conj_pre_def advance_def intro: min.coboundedI1 min.coboundedI2)
  obtain out e' res' where em: "Conjunct_emit K e n res totA' totB' = Inr (out, e', res')"
    and inv: "emit_inv e n res totA' totB' out e' res'"
    using Conjunct_emit_inv[of res totA' totB' e n] le pre advA advB n
    unfolding conj_pre_def advance_def by blast
  have "conj_pre tA' tB' e' res' totA' totB' A' B'"
    using pre inv advA advB n by (auto simp: conj_pre_def emit_inv_def advance_def intro: next_after_le)
  then have "conj_inv tA' tB' e' res' totA' totB' A' B' (loop e' res')"
    by (rule IH)
  then have "conj_inv tA tB e res totA totB A B (bind_r (loop e' res') (\<lambda>(end, ps). Inr (end, out @ ps)))"
    by (rule conj_inv_step[OF inv]) (use pre advA advB in \<open>auto simp: conj_pre_def advance_def\<close>)
  then show ?thesis by (simp add: em)
qed

lemma Conjunct_loop_inv:
  "conj_pre tA tB e res totA totB A B \<Longrightarrow>
   conj_inv tA tB e res totA totB A B (Conjunct_loop K tA tB e res totA totB A B)"
proof (induction "length A + length B" arbitrary: tA tB e res totA totB A B rule: less_induct)
  case less
  then have p: "sched_ok K tA A" "sched_ok K tB B" "next_after e tA A" "next_after e tB B"
    "coIsValid K totA" "coIsValid K totB"
    by (simp_all add: conj_pre_def)
  note consume = conj_consume[OF less.prems] and IH = less.hyps
  note sameA = advance_same[OF p(1,5)] and sameB = advance_same[OF p(2,6)]
  have head: "add64 s (Length x) = s + Length x \<and> time_ok (s + Length x)" if "sched_ok K s (x # xs)" for s x xs
    using that sched_ok_add64[OF that] by (auto simp: sched_ok_Cons dest: sched_ok_start)
  show ?case
  proof (cases A; cases B)
    assume "A = []" "B = []"
    then show ?thesis using less.prems by (simp add: conj_inv_def conj_pre_def)
  next
    fix b bs assume c: "A = []" "B = b # bs"
    note advB = advance_head[OF p(2)[unfolded c] p(6) refl, folded c]
    show ?thesis
      using consume[OF _ _ sameA advB IH] head[of tB b bs] p c by (simp add: Let_def)
  next
    fix a as assume c: "A = a # as" "B = []"
    note advA = advance_head[OF p(1)[unfolded c] p(5) refl, folded c]
    show ?thesis
      using consume[OF _ _ advA sameB IH] head[of tA a as] p c by (simp add: Let_def)
  next
    fix a as b bs assume c: "A = a # as" "B = b # bs"
    note advA = advance_head[OF p(1)[unfolded c] p(5) refl, folded c]
    note advB = advance_head[OF p(2)[unfolded c] p(6) refl, folded c]
    consider "tA + Length a < tB + Length b" | "tB + Length b < tA + Length a"
      | "tA + Length a = tB + Length b" by linarith
    then show ?thesis
    proof cases
      case 1
      then show ?thesis
        using consume[OF _ _ advA sameB IH] head[of tA a as] head[of tB b bs] p c by (simp add: Let_def)
    next
      case 2
      then show ?thesis
        using consume[OF _ _ sameA advB IH] head[of tA a as] head[of tB b bs] p c by (simp add: Let_def)
    next
      case 3
      then show ?thesis
        using consume[OF _ _ advA advB[folded 3] IH] head[of tA a as] head[of tB b bs] p c by (simp add: Let_def)
    qed
  qed
qed

lemma ConjunctPeriods_correct:
  assumes "sched_ok K sA A" "sched_ok K sB B"
  obtains e ps where "ConjunctPeriods K sA sB A B = Inr (min sA sB, e, ps)"
    "sched_ok K (min sA sB) ps" "e = min sA sB + total_length ps"
    "\<And>t d. released K (min sA sB) ps t d = min (released K sA A t d) (released K sB B t d)"
proof -
  let ?s = "min sA sB"
  have "time_ok ?s" using assms by (auto simp: min_def dest: sched_ok_start)
  then have "conj_pre sA sB ?s (coEmpty K) (coEmpty K) (coEmpty K) A B"
    using assms by (simp add: conj_pre_def next_after_self valid_empty)
  from Conjunct_loop_inv[OF this] obtain e ps where
    "Conjunct_loop K sA sB ?s (coEmpty K) (coEmpty K) (coEmpty K) A B = Inr (e, ps)"
    "sched_ok K ?s ps" "e = ?s + total_length ps"
    "\<And>t d. released K ?s ps t d = min (released K sA A t d) (released K sB B t d)"
    by (auto simp: conj_inv_def amount_empty)
  then show thesis
    by (intro that[of e ps]) (simp_all add: ConjunctPeriods_def Let_def Min64_min)
qed

end

section \<open>Aligning two schedules\<close>

lemma released_align_first:
  assumes "sched_ok K s ps" "time_ok s'" "s' \<le> s"
  shows "released K s' (align_first (s - s') ps) t d = released K s ps t d"
    "sched_ok K s' (align_first (s - s') ps)"
    "ps \<noteq> [] \<Longrightarrow> s' + total_length (align_first (s - s') ps) = s + total_length ps"
proof -
  have "add64 (Length p) (s - s') = Length p + (s - s')" if "ps = p # qs" for p qs
    using assms total_length_nonneg[of "\<lambda>p. coIsValid K (Amount p)" qs] that
    by (intro add64_exact) (auto simp: sched_ok_def time_ok_def in64_def)
  then show "released K s' (align_first (s - s') ps) t d = released K s ps t d"
    "sched_ok K s' (align_first (s - s') ps)"
    "ps \<noteq> [] \<Longrightarrow> s' + total_length (align_first (s - s') ps) = s + total_length ps"
    using assms by (auto simp: align_first_def sched_ok_Cons add.commute split: list.splits)
qed

context coins_laws
begin

lemma add64_total_length:
  assumes "sched_ok K s ps"
  shows "add64 s (coTotalLength K ps) = s + total_length ps"
proof -
  have "0 \<le> total_length ps" "time_ok (s + total_length ps)" "time_ok s"
    using assms total_length_nonneg[of "\<lambda>p. coIsValid K (Amount p)" ps] by (auto simp: sched_ok_def)
  then have "coTotalLength K ps = total_length ps"
    unfolding total_length by (auto simp: total_length_def time_ok_def in64_def intro!: wrap64_id)
  with \<open>time_ok (s + total_length ps)\<close> show ?thesis by (simp add: time_ok_add64)
qed

end

lemma sched_ok_take: "sched_ok K s ps \<Longrightarrow> sched_ok K s (take n ps)"
proof (induction ps arbitrary: s n)
  case (Cons p ps)
  then show ?case by (cases n) (auto simp: sched_ok_Cons)
qed simp

lemma total_length_take_le: "sched_ok K s ps \<Longrightarrow> total_length (take n ps) \<le> total_length ps"
  by (auto simp: sched_ok_def list_all_iff total_length_def intro!: sum_list_take_le)

lemma released_take_loop:
  "sched_ok K s ps \<Longrightarrow> n = ReadPastPeriodCount_loop t s ps 0 \<Longrightarrow>
   released K s (take n ps) t' d = released K s ps (min t t') d"
proof (induction ps arbitrary: s n)
  case (Cons p ps)
  then have ok: "sched_ok K (s + Length p) ps" by (simp add: sched_ok_Cons)
  note add = sched_ok_add64[OF Cons.prems(1)]
  show ?case
  proof (cases "t < s + Length p")
    case True
    then show ?thesis
      using Cons.prems(2) sched_ok_released_before[OF ok, of "min t t'"] by (simp add: add)
  next
    case False
    have "n = Suc (ReadPastPeriodCount_loop t (s + Length p) ps 0)"
      using Cons.prems(2) False ReadPastPeriodCount_loop_eq[OF ok, of t 1] by (simp add: add)
    with Cons.IH[OF ok refl] False show ?thesis by simp
  qed
qed simp

lemma released_take:
  assumes "sched_ok K s ps" "s + total_length ps \<le> e"
  shows "released K s (take (ReadPastPeriodCount s e ps t) ps) t' d =
    (if t \<le> s then 0 else released K s ps (min t t') d)"
  using released_take_loop[OF assms(1) refl, of t t' d] assms
    sched_ok_released_after[OF assms(1), of t d] sched_ok_released_after[OF assms(1), of t' d]
  by (auto simp: ReadPastPeriodCount_def min_def)

section \<open>Properties\<close>

text \<open>Coins of the native denomination and periods over them, for concrete runs.\<close>

definition islm :: "int \<Rightarrow> coin list" where
  "islm n = [\<lparr>Denom = ''aISLM'', Amt = n\<rparr>]"

definition iperiod :: "int \<Rightarrow> int \<Rightarrow> coin list period" where
  "iperiod l n = \<lparr>Length = l, Amount = islm n\<rparr>"

text \<open>
  C1. Reading a well-formed schedule whose end time is not before its last event and whose
  total is the sum of its periods gives, per denomination, exactly what the events up to
  the read time release, and nothing up to and including the start time: the shortcut for
  times after the end agrees with the step function.
\<close>

theorem ReadSchedule_reads_step_function:
  assumes "coins_laws K ok" "sched_ok K startTime periods"
    and "startTime + total_length periods \<le> endTime"
    and "\<forall>d. coAmountOf K totalCoins d = total_amount K periods d"
  shows "coAmountOf K (ReadSchedule K startTime endTime periods totalCoins readTime) d =
    (if readTime \<le> startTime then 0 else released K startTime periods readTime d)"
  using coins_laws.ReadSchedule_amount[OF assms(1-3)] assms(4) by simp

theorem ReadSchedule_reads_step_function_witness:
  "coAmountOf stdCoins (ReadSchedule stdCoins 100 400 [iperiod 100 30, iperiod 200 70] (islm 100) 250) ''aISLM'' = 30"
proof -
  have "sched_ok stdCoins 100 [iperiod 100 30, iperiod 200 70]" by code_simp
  moreover have "100 + total_length [iperiod 100 30, iperiod 200 70] \<le> 400" by code_simp
  moreover have "\<forall>d. coAmountOf stdCoins (islm 100) d = total_amount stdCoins [iperiod 100 30, iperiod 200 70] d"
    by (simp add: stdCoins_def islm_def iperiod_def)
  ultimately have "coAmountOf stdCoins (ReadSchedule stdCoins 100 400 [iperiod 100 30, iperiod 200 70] (islm 100) 250) ''aISLM''
    = (if (250::int) \<le> 100 then 0 else released stdCoins 100 [iperiod 100 30, iperiod 200 70] 250 ''aISLM'')"
    by (rule ReadSchedule_reads_step_function[OF std_laws])
  also have "\<dots> = 30" by code_simp
  finally show ?thesis .
qed

text \<open>
  C2. Merging two schedules adds their step functions: the merged schedule starts at the
  earlier start, is well formed, ends at its returned end time, and at every time and in
  every denomination releases the sum of what the two schedules release.
\<close>

theorem DisjunctPeriods_adds_step_functions:
  assumes "coins_laws K ok" "sched_ok K startA periodsA" "sched_ok K startB periodsB"
    and "DisjunctPeriods K startA startB periodsA periodsB = (startTime, endTime, periods)"
  shows "startTime = min startA startB \<and> sched_ok K startTime periods \<and>
    endTime = startTime + total_length periods \<and>
    released K startTime periods t d = released K startA periodsA t d + released K startB periodsB t d"
  using coins_laws.DisjunctPeriods_correct[OF assms] by blast

theorem DisjunctPeriods_adds_step_functions_witness:
  "\<exists>ps. DisjunctPeriods stdCoins 100 150 [iperiod 100 30] [iperiod 50 5, iperiod 10 6] = (100, 210, ps) \<and>
     released stdCoins 100 ps 205 ''aISLM'' = 35"
proof -
  obtain s e ps where d: "DisjunctPeriods stdCoins 100 150 [iperiod 100 30] [iperiod 50 5, iperiod 10 6] = (s, e, ps)"
    by (metis prod_cases3)
  have "sched_ok stdCoins 100 [iperiod 100 30]" "sched_ok stdCoins 150 [iperiod 50 5, iperiod 10 6]"
    by code_simp+
  from DisjunctPeriods_adds_step_functions[OF std_laws this d, of 205 "''aISLM''"]
  have "s = 100" and "released stdCoins 100 ps 205 ''aISLM'' =
      released stdCoins 100 [iperiod 100 30] 205 ''aISLM'' +
      released stdCoins 150 [iperiod 50 5, iperiod 10 6] 205 ''aISLM''"
    by (auto simp: islm_def iperiod_def)
  moreover have "released stdCoins 100 [iperiod 100 30] 205 ''aISLM'' +
      released stdCoins 150 [iperiod 50 5, iperiod 10 6] 205 ''aISLM'' = 35" by code_simp
  moreover have "fst (snd (DisjunctPeriods stdCoins 100 150 [iperiod 100 30] [iperiod 50 5, iperiod 10 6])) = 210"
    by code_simp
  ultimately show ?thesis using d by auto
qed

text \<open>
  C3. Intersecting two schedules takes the minimum of their step functions: the
  computation does not panic, the result starts at the earlier start, is well formed,
  ends at its returned end time, and at every time and in every denomination releases the
  smaller of what the two schedules release.
\<close>

theorem ConjunctPeriods_min_of_step_functions:
  assumes "coins_laws K ok" "sched_ok K startA periodsA" "sched_ok K startB periodsB"
  shows "\<exists>endTime periods.
    ConjunctPeriods K startA startB periodsA periodsB = Inr (min startA startB, endTime, periods) \<and>
    sched_ok K (min startA startB) periods \<and> endTime = min startA startB + total_length periods \<and>
    (\<forall>t d. released K (min startA startB) periods t d =
       min (released K startA periodsA t d) (released K startB periodsB t d))"
  using coins_laws.ConjunctPeriods_correct[OF assms] by metis

theorem ConjunctPeriods_min_of_step_functions_witness:
  "\<exists>e ps. ConjunctPeriods stdCoins 100 100 [iperiod 100 30, iperiod 50 10] [iperiod 0 35] = Inr (100, e, ps) \<and>
     released stdCoins 100 ps 250 ''aISLM'' = 35"
proof -
  have "sched_ok stdCoins 100 [iperiod 100 30, iperiod 50 10]" "sched_ok stdCoins 100 [iperiod 0 35]"
    by code_simp+
  from ConjunctPeriods_min_of_step_functions[OF std_laws this] obtain e ps where
    "ConjunctPeriods stdCoins 100 100 [iperiod 100 30, iperiod 50 10] [iperiod 0 35] = Inr (100, e, ps)"
    "released stdCoins 100 ps 250 ''aISLM'' =
       min (released stdCoins 100 [iperiod 100 30, iperiod 50 10] 250 ''aISLM'')
           (released stdCoins 100 [iperiod 0 35] 250 ''aISLM'')"
    by auto
  moreover have "min (released stdCoins 100 [iperiod 100 30, iperiod 50 10] 250 ''aISLM'')
      (released stdCoins 100 [iperiod 0 35] 250 ''aISLM'') = 35" by code_simp
  ultimately show ?thesis by auto
qed

text \<open>
  Aligning two schedules to their earlier start keeps both step functions, and the
  returned end time is the later of their last events when both have periods.
\<close>

theorem AlignSchedules_keeps_step_functions:
  assumes "coins_laws K ok" "sched_ok K startA periodsA" "sched_ok K startB periodsB"
    and "AlignSchedules K startA startB periodsA periodsB = (startTime, endTime, periodsA', periodsB')"
  shows "startTime = min startA startB \<and>
    released K startTime periodsA' t d = released K startA periodsA t d \<and>
    released K startTime periodsB' t d = released K startB periodsB t d \<and>
    (periodsA \<noteq> [] \<longrightarrow> periodsB \<noteq> [] \<longrightarrow>
       endTime = max (startA + total_length periodsA) (startB + total_length periodsB))"
proof -
  let ?s = "min startA startB"
  have ok: "time_ok ?s" "time_ok startA" "time_ok startB"
    using assms(2,3) by (auto simp: min_def dest: sched_ok_start)
  have A: "periodsA' = align_first (startA - ?s) periodsA" and B: "periodsB' = align_first (startB - ?s) periodsB"
    and s: "startTime = ?s"
    and e: "endTime = max (add64 ?s (coTotalLength K periodsA')) (add64 ?s (coTotalLength K periodsB'))"
    using assms(4) ok by (auto simp: AlignSchedules_def Let_def Min64_min Max64_max time_ok_sub64)
  note relA = released_align_first[OF assms(2) ok(1), folded A]
    and relB = released_align_first[OF assms(3) ok(1), folded B]
  show ?thesis using relA relB coins_laws.add64_total_length[OF assms(1)] e s by auto
qed

theorem AlignSchedules_keeps_step_functions_witness:
  "released stdCoins 100 (fst (snd (snd (AlignSchedules stdCoins 150 100 [iperiod 50 7] [iperiod 10 7])))) 200 ''aISLM'' = 7"
proof -
  obtain s e a b where d: "AlignSchedules stdCoins 150 100 [iperiod 50 7] [iperiod 10 7] = (s, e, a, b)"
    by (metis prod_cases4)
  have "sched_ok stdCoins 150 [iperiod 50 7]" "sched_ok stdCoins 100 [iperiod 10 7]" by code_simp+
  from AlignSchedules_keeps_step_functions[OF std_laws this d, of 200 "''aISLM''"]
  have "s = 100" and "released stdCoins s a 200 ''aISLM'' = released stdCoins 150 [iperiod 50 7] 200 ''aISLM''"
    by (auto simp: islm_def iperiod_def)
  moreover have "released stdCoins 150 [iperiod 50 7] 200 ''aISLM'' = 7" by code_simp
  ultimately show ?thesis using d by simp
qed

text \<open>
  The period count of a well-formed schedule is the number of its events that lie in
  the past: the amounts of that many first periods are what the schedule has released.
\<close>

theorem ReadPastPeriodCount_counts_past_periods:
  assumes "sched_ok K startTime periods" "startTime + total_length periods \<le> endTime"
  shows "ReadPastPeriodCount startTime endTime periods readTime \<le> length periods \<and>
    total_amount K (take (ReadPastPeriodCount startTime endTime periods readTime) periods) d =
      (if readTime \<le> startTime then 0 else released K startTime periods readTime d)"
  using assms by (rule ReadPastPeriodCount_take)

theorem ReadPastPeriodCount_counts_past_periods_witness:
  "total_amount stdCoins (take (ReadPastPeriodCount 100 400 [iperiod 100 30, iperiod 200 70] 250)
     [iperiod 100 30, iperiod 200 70]) ''aISLM'' = 30"
proof -
  have "sched_ok stdCoins 100 [iperiod 100 30, iperiod 200 70]"
    "100 + total_length [iperiod 100 30, iperiod 200 70] \<le> 400"
    by code_simp+
  from ReadPastPeriodCount_counts_past_periods[OF this, of 250 "''aISLM''"]
  have "total_amount stdCoins (take (ReadPastPeriodCount 100 400 [iperiod 100 30, iperiod 200 70] 250)
     [iperiod 100 30, iperiod 200 70]) ''aISLM'' =
    (if (250::int) \<le> 100 then 0 else released stdCoins 100 [iperiod 100 30, iperiod 200 70] 250 ''aISLM'')"
    by blast
  also have "\<dots> = 30" by code_simp
  finally show ?thesis .
qed

end
