(* ===== verification/Addresses.thy ===== *)
theory Addresses
  imports Prelude "HOL-Library.Word"
begin

text \<open>
  Byte strings, addresses and hashes, and the interface of the SDK's bech32 and
  go-ethereum's hex functions that the modules call. Those functions are third-party code,
  hence fields of a record the definitions take as a parameter; \<open>addr_laws\<close> states the
  round trips the modules rely on.
\<close>

type_synonym bytes = "8 word list"
type_synonym acc_address = bytes
type_synonym hash = "256 word"

record addr_api =
  accString :: "acc_address \<Rightarrow> string"
  accFromBech32 :: "string \<Rightarrow> acc_address option"
  valFromBech32 :: "string \<Rightarrow> acc_address option"
  verifyAddressFormat :: "bytes \<Rightarrow> bool"
  hexToAddress :: "string \<Rightarrow> bytes"
  hashHex :: "hash \<Rightarrow> string"
  hexToHash :: "string \<Rightarrow> hash"
  emptyCodeHash :: hash

text \<open>\<^verbatim>\<open>sdk.MustAccAddressFromBech32\<close> panics on a malformed address.\<close>

definition mustAcc :: "addr_api \<Rightarrow> string \<Rightarrow> acc_address result" where
  "mustAcc X s = of_option (Panic ''invalid bech32 address'') (accFromBech32 X s)"

locale addr_laws =
  fixes X :: addr_api
  assumes hash_roundtrip: "hexToHash X (hashHex X h) = h"
    and bech32_string: "accFromBech32 X s = Some a \<Longrightarrow> accString X a = s"
    and string_inj: "accString X a = accString X b \<Longrightarrow> a = b"

text \<open>
  An instance: an address is written as the characters of its bytes after the prefix
  \<^verbatim>\<open>haqq1\<close>, a hash as its value in unary-free decimal digits.
\<close>

definition demo_string :: "acc_address \<Rightarrow> string" where
  "demo_string a = ''haqq1'' @ map (\<lambda>b. char_of (unat b)) a"

definition demo_parse :: "string \<Rightarrow> acc_address option" where
  "demo_parse s = (if take 5 s = ''haqq1'' then Some (map (\<lambda>c. word_of_nat (of_char c)) (drop 5 s)) else None)"

fun digits :: "nat \<Rightarrow> nat \<Rightarrow> string" where
  "digits 0 n = []"
| "digits (Suc k) n = char_of (48 + n mod 10) # digits k (n div 10)"

fun undigits :: "string \<Rightarrow> nat" where
  "undigits [] = 0"
| "undigits (c # cs) = (of_char c - 48) + 10 * undigits cs"

definition demoAddr :: addr_api where
  "demoAddr = \<lparr>
     accString = demo_string,
     accFromBech32 = demo_parse,
     valFromBech32 = demo_parse,
     verifyAddressFormat = (\<lambda>b. length b \<le> 255 \<and> b \<noteq> []),
     hexToAddress = (\<lambda>s. map (\<lambda>c. word_of_nat (of_char c)) s),
     hashHex = (\<lambda>h. digits 78 (unat h)),
     hexToHash = (\<lambda>s. word_of_nat (undigits s)),
     emptyCodeHash = 0\<rparr>"

lemma undigits_digits: "n < 10 ^ k \<Longrightarrow> undigits (digits k n) = n"
proof (induction k arbitrary: n)
  case (Suc k)
  then have "n div 10 < 10 ^ k" by (simp add: less_mult_imp_div_less mult.commute)
  moreover have "48 + n mod 10 < 256" by (simp add: order_less_trans[OF mod_less_divisor[of 10 n]])
  ultimately show ?case using Suc.IH by simp
qed simp

lemma demo_string_parse: "demo_parse s = Some a \<Longrightarrow> demo_string a = s"
proof -
  assume a: "demo_parse s = Some a"
  have eq: "char_of (unat (word_of_nat (of_char c) :: 8 word)) = c" for c
    by (simp add: unat_of_nat take_bit_nat_eq_self)
  from a have "take 5 s = ''haqq1''" "a = map (\<lambda>c. word_of_nat (of_char c)) (drop 5 s)"
    by (auto simp: demo_parse_def split: if_splits)
  then show ?thesis
    using append_take_drop_id[of 5 s] by (simp add: demo_string_def o_def eq)
qed

lemma demo_string_inj: "demo_string a = demo_string b \<Longrightarrow> a = b"
proof -
  have "inj (\<lambda>b :: 8 word. char_of (unat b) :: char)"
  proof (rule injI)
    fix x y :: "8 word"
    assume "(char_of (unat x) :: char) = char_of (unat y)"
    then have "(of_char (char_of (unat x)) :: nat) = of_char (char_of (unat y))" by simp
    then have "unat x mod 256 = unat y mod 256" by simp
    moreover have "unat z < 256" for z :: "8 word" using unsigned_less[of z] by simp
    ultimately show "x = y" by (simp add: unsigned_word_eqI)
  qed
  then show "demo_string a = demo_string b \<Longrightarrow> a = b"
    by (simp add: demo_string_def inj_map_eq_map)
qed

interpretation demo: addr_laws demoAddr
proof
  fix h :: hash
  have "unat h < 2 ^ 256" using unsigned_less[of h] by simp
  then have "unat h < 10 ^ 78" by (rule order_less_trans) simp
  then show "hexToHash demoAddr (hashHex demoAddr h) = h"
    by (simp add: demoAddr_def undigits_digits)
next
  fix s a
  assume "accFromBech32 demoAddr s = Some a"
  then show "accString demoAddr a = s" using demo_string_parse[of s a] by (simp add: demoAddr_def)
next
  fix a b
  assume "accString demoAddr a = accString demoAddr b"
  then show "a = b" using demo_string_inj by (simp add: demoAddr_def)
qed

lemmas demo_laws = demo.addr_laws_axioms

end
