(* ===== verification/ClawbackAccount.thy ===== *)
theory ClawbackAccount
  imports Schedule Addresses
begin

text \<open>
  The clawback vesting account, \<^verbatim>\<open>x/vesting/types/clawback_vesting_account.go\<close>: an account
  with a lockup schedule and a vesting schedule over the same coins. Coins are spendable
  once they are both vested and unlocked; unvested coins can be clawed back by the funder.
  Every method that calls the panicking \<^verbatim>\<open>Coins.Sub\<close> returns a \<open>result\<close>; the invariant
  \<open>account_ok\<close> is what keeps them from panicking.
\<close>

section \<open>The account and its methods\<close>

record base_account =
  Address :: string
  AccountNumber :: nat
  Sequence :: nat

record 'c clawback_account =
  BaseAccount :: base_account
  OriginalVesting :: 'c
  DelegatedFree :: 'c
  DelegatedVesting :: 'c
  EndTime :: int
  FunderAddress :: string
  StartTime :: int
  LockupPeriods :: "'c period list"
  VestingPeriods :: "'c period list"
  CodeHash :: string

text \<open>The panicking \<^verbatim>\<open>Coins.Sub\<close> as a result.\<close>

definition subC :: "'c coins_api \<Rightarrow> 'c \<Rightarrow> 'c \<Rightarrow> 'c result" where
  "subC K a b = of_option (Panic ''negative coin amount'') (coSub K a b)"

definition NewClawbackVestingAccount :: "'c coins_api \<Rightarrow> addr_api \<Rightarrow> base_account \<Rightarrow> acc_address \<Rightarrow>
    'c \<Rightarrow> int \<Rightarrow> 'c period list \<Rightarrow> 'c period list \<Rightarrow> hash option \<Rightarrow> 'c clawback_account" where
  "NewClawbackVestingAccount K X baseAcc funder originalVesting startTime lockupPeriods vestingPeriods code =
     (case AlignSchedules K startTime startTime lockupPeriods vestingPeriods of
        (_, endTime, lp, vp) \<Rightarrow>
      \<lparr>BaseAccount = baseAcc,
       OriginalVesting = originalVesting,
       DelegatedFree = coEmpty K,
       DelegatedVesting = coEmpty K,
       EndTime = endTime,
       FunderAddress = accString X funder,
       StartTime = startTime,
       LockupPeriods = lp,
       VestingPeriods = vp,
       CodeHash = (case code of None \<Rightarrow> hashHex X (emptyCodeHash X) | Some c \<Rightarrow> hashHex X c)\<rparr>)"

definition GetUnlockedCoins :: "'c coins_api \<Rightarrow> 'c clawback_account \<Rightarrow> int \<Rightarrow> 'c" where
  "GetUnlockedCoins K va blockTime =
     ReadSchedule K (StartTime va) (EndTime va) (LockupPeriods va) (OriginalVesting va) blockTime"

definition GetVestedCoins :: "'c coins_api \<Rightarrow> 'c clawback_account \<Rightarrow> int \<Rightarrow> 'c" where
  "GetVestedCoins K va blockTime =
     ReadSchedule K (StartTime va) (EndTime va) (VestingPeriods va) (OriginalVesting va) blockTime"

definition GetLockedUpCoins :: "'c coins_api \<Rightarrow> 'c clawback_account \<Rightarrow> int \<Rightarrow> 'c result" where
  "GetLockedUpCoins K va blockTime = subC K (OriginalVesting va) (GetUnlockedCoins K va blockTime)"

definition GetUnlockedVestedCoins :: "'c coins_api \<Rightarrow> 'c clawback_account \<Rightarrow> int \<Rightarrow> 'c" where
  "GetUnlockedVestedCoins K va blockTime =
     (let coins = coMin K (GetUnlockedCoins K va blockTime) (GetVestedCoins K va blockTime)
      in if coIsZero K coins then coEmpty K else coins)"

definition GetLockedUpVestedCoins :: "'c coins_api \<Rightarrow> 'c clawback_account \<Rightarrow> int \<Rightarrow> 'c result" where
  "GetLockedUpVestedCoins K va blockTime =
     subC K (GetVestedCoins K va blockTime) (GetUnlockedVestedCoins K va blockTime)"

definition GetVestingCoins :: "'c coins_api \<Rightarrow> 'c clawback_account \<Rightarrow> int \<Rightarrow> 'c result" where
  "GetVestingCoins K va blockTime = subC K (OriginalVesting va) (GetVestedCoins K va blockTime)"

definition LockedCoins :: "'c coins_api \<Rightarrow> 'c clawback_account \<Rightarrow> int \<Rightarrow> 'c result" where
  "LockedCoins K va blockTime =
     bind_r (GetLockedUpVestedCoins K va blockTime) (\<lambda>lockedUpVested.
       let lockedUpVestedDelegatedCoins =
             coMin K (coAdd K (DelegatedFree va) (DelegatedVesting va)) lockedUpVested;
           (res, isNeg) = coSafeSub K (OriginalVesting va)
             (coAdd K (GetUnlockedVestedCoins K va blockTime) lockedUpVestedDelegatedCoins)
       in Inr (if isNeg then coEmpty K else res))"

text \<open>\<open>TrackDelegation\<close> updates the account in place and panics on a bad amount.\<close>

fun TrackDelegation_loop :: "'c coins_api \<Rightarrow> 'c \<Rightarrow> coin list \<Rightarrow> 'c clawback_account \<Rightarrow>
    'c clawback_account result" where
  "TrackDelegation_loop K balance [] va = Inr va"
| "TrackDelegation_loop K balance (c # cs) va =
     (let baseAmt = coAmountOf K balance (Denom c) in
      if Amt c = 0 \<or> baseAmt < Amt c
      then Inl (Panic ''delegation attempt with zero coins or insufficient funds'')
      else TrackDelegation_loop K balance cs
             (va\<lparr>DelegatedFree := coAddCoin K (DelegatedFree va) c\<rparr>))"

definition TrackDelegation :: "'c coins_api \<Rightarrow> 'c clawback_account \<Rightarrow> 'c \<Rightarrow> 'c \<Rightarrow>
    'c clawback_account result" where
  "TrackDelegation K va balance amount = TrackDelegation_loop K balance (coItems K amount) va"

text \<open>
  \<open>Validate\<close>. The first argument is the SDK's \<^verbatim>\<open>BaseVestingAccount.Validate\<close>; the two loops
  over the periods accumulate the end of a schedule and its coins.
\<close>

fun sum_periods :: "'c coins_api \<Rightarrow> int \<Rightarrow> 'c \<Rightarrow> 'c period list \<Rightarrow> int \<times> 'c" where
  "sum_periods K end coins [] = (end, coins)"
| "sum_periods K end coins (p # ps) = sum_periods K (add64 end (Length p)) (coAdd K coins (Amount p)) ps"

definition ClawbackVestingAccount_Validate ::
  "('c clawback_account \<Rightarrow> unit result) \<Rightarrow> 'c coins_api \<Rightarrow> 'c clawback_account \<Rightarrow> unit result" where
  "ClawbackVestingAccount_Validate baseValidate K va =
     (if StartTime va \<ge> EndTime va then Inl (Errorf ''vesting start-time must be before end-time'')
      else
        (let (lockupEnd, lockupCoins) = sum_periods K (StartTime va) (coEmpty K) (LockupPeriods va) in
         if lockupEnd > EndTime va then Inl (Errorf ''lockup schedule extends beyond account end time'')
         else if \<not> CoinEq K lockupCoins (OriginalVesting va)
         then Inl (Errorf ''original vesting coins does not match the sum of all coins in lockup periods'')
         else
           (let (vestingEnd, vestingCoins) = sum_periods K (StartTime va) (coEmpty K) (VestingPeriods va) in
            if vestingEnd > EndTime va then Inl (Errorf ''vesting schedule extends beyond account end time'')
            else if \<not> CoinEq K vestingCoins (OriginalVesting va)
            then Inl (Errorf ''original vesting coins does not match the sum of all coins in vesting periods'')
            else baseValidate va)))"

definition GetPassedPeriodCount :: "'c clawback_account \<Rightarrow> int \<Rightarrow> nat" where
  "GetPassedPeriodCount va blockTime =
     ReadPastPeriodCount (StartTime va) (EndTime va) (VestingPeriods va) blockTime"

definition ComputeClawback :: "'c coins_api \<Rightarrow> 'c clawback_account \<Rightarrow> int \<Rightarrow>
    ('c clawback_account \<times> 'c) result" where
  "ComputeClawback K va clawbackTime =
     (let totalVested = GetVestedCoins K va clawbackTime in
      bind_r (GetVestingCoins K va clawbackTime) (\<lambda>totalUnvested.
      let passedPeriodID = GetPassedPeriodCount va clawbackTime;
          newVestingPeriods = take passedPeriodID (VestingPeriods va);
          newVestingEnd = add64 (StartTime va) (coTotalLength K newVestingPeriods);
          capPeriods = [\<lparr>Length = 0, Amount = totalVested\<rparr>] in
      bind_r (ConjunctPeriods K (StartTime va) (StartTime va) (LockupPeriods va) capPeriods)
        (\<lambda>(_, newLockingEnd, newLockupPeriods).
      Inr (va\<lparr>OriginalVesting := totalVested,
              EndTime := Max64 newVestingEnd newLockingEnd,
              LockupPeriods := newLockupPeriods,
              VestingPeriods := newVestingPeriods\<rparr>,
           totalUnvested))))"

definition HasLockedCoins :: "'c coins_api \<Rightarrow> 'c clawback_account \<Rightarrow> int \<Rightarrow> bool result" where
  "HasLockedCoins K va blockTime =
     bind_r (GetLockedUpCoins K va blockTime) (\<lambda>c. Inr (\<not> coIsZero K c))"

definition AddGrant :: "'c coins_api \<Rightarrow> 'c clawback_account \<Rightarrow> int \<Rightarrow> 'c period list \<Rightarrow> 'c period list \<Rightarrow>
    'c \<Rightarrow> 'c clawback_account result" where
  "AddGrant K va grantStartTime grantLockupPeriods grantVestingPeriods grantCoins =
     (let va1 = (if length (LockupPeriods va) = 0 \<and> length (VestingPeriods va) = 0
                 then va\<lparr>StartTime := grantStartTime\<rparr> else va);
          accStartTime = StartTime va1;
          (newLockupStart, newLockupEnd, newLockupPeriods) =
            DisjunctPeriods K accStartTime grantStartTime (LockupPeriods va1) grantLockupPeriods;
          (newVestingStart, newVestingEnd, newVestingPeriods) =
            DisjunctPeriods K accStartTime grantStartTime (VestingPeriods va1) grantVestingPeriods
      in if newLockupStart \<noteq> newVestingStart
         then Inl (Wrapf ErrVestingLockup ''vesting start time calculation should match lockup start'')
         else Inr (va1\<lparr>StartTime := newLockupStart,
                       EndTime := Max64 newLockupEnd newVestingEnd,
                       LockupPeriods := newLockupPeriods,
                       VestingPeriods := newVestingPeriods,
                       OriginalVesting := coAdd K (OriginalVesting va1) grantCoins\<rparr>))"

definition ClawbackVestingAccount_GetCodeHash :: "addr_api \<Rightarrow> 'c clawback_account \<Rightarrow> hash" where
  "ClawbackVestingAccount_GetCodeHash X va = hexToHash X (CodeHash va)"

definition ClawbackVestingAccount_SetCodeHash ::
  "addr_api \<Rightarrow> 'c clawback_account \<Rightarrow> hash \<Rightarrow> 'c clawback_account" where
  "ClawbackVestingAccount_SetCodeHash X va codeHash = va\<lparr>CodeHash := hashHex X codeHash\<rparr>"

text \<open>\<^verbatim>\<open>AccountTypeEOA\<close> is 1 and \<^verbatim>\<open>AccountTypeContract\<close> is 2.\<close>

definition ClawbackVestingAccount_Type :: "addr_api \<Rightarrow> 'c clawback_account \<Rightarrow> nat" where
  "ClawbackVestingAccount_Type X va = (if emptyCodeHash X = hexToHash X (CodeHash va) then 1 else 2)"

section \<open>The invariant\<close>

definition account_ok :: "'c coins_api \<Rightarrow> 'c clawback_account \<Rightarrow> bool" where
  "account_ok K va \<longleftrightarrow>
     sched_ok K (StartTime va) (LockupPeriods va) \<and> sched_ok K (StartTime va) (VestingPeriods va) \<and>
     StartTime va + total_length (LockupPeriods va) \<le> EndTime va \<and>
     StartTime va + total_length (VestingPeriods va) \<le> EndTime va \<and>
     coIsValid K (OriginalVesting va) \<and> coIsValid K (DelegatedFree va) \<and> coIsValid K (DelegatedVesting va) \<and>
     (\<forall>d. coAmountOf K (OriginalVesting va) d = total_amount K (LockupPeriods va) d) \<and>
     (\<forall>d. coAmountOf K (OriginalVesting va) d = total_amount K (VestingPeriods va) d)"

text \<open>What has been vested and unlocked by a time, per denomination.\<close>

definition vested_at :: "'c coins_api \<Rightarrow> 'c clawback_account \<Rightarrow> int \<Rightarrow> string \<Rightarrow> int" where
  "vested_at K va t d = (if t \<le> StartTime va then 0 else released K (StartTime va) (VestingPeriods va) t d)"

definition unlocked_at :: "'c coins_api \<Rightarrow> 'c clawback_account \<Rightarrow> int \<Rightarrow> string \<Rightarrow> int" where
  "unlocked_at K va t d = (if t \<le> StartTime va then 0 else released K (StartTime va) (LockupPeriods va) t d)"

text \<open>
  The locked coins: everything that is not vested and unlocked, less the delegated part of
  the vested coins that are still locked.
\<close>

definition locked_at :: "'c coins_api \<Rightarrow> 'c clawback_account \<Rightarrow> int \<Rightarrow> string \<Rightarrow> int" where
  "locked_at K va t d =
     (let uv = min (unlocked_at K va t d) (vested_at K va t d);
          delegated = coAmountOf K (DelegatedFree va) d + coAmountOf K (DelegatedVesting va) d
      in coAmountOf K (OriginalVesting va) d - uv - min delegated (vested_at K va t d - uv))"

text \<open>A well-formed grant: two schedules from one start that release the same coins.\<close>

definition grant_ok :: "'c coins_api \<Rightarrow> int \<Rightarrow> 'c period list \<Rightarrow> 'c period list \<Rightarrow> 'c \<Rightarrow> bool" where
  "grant_ok K s lp vp c \<longleftrightarrow> sched_ok K s lp \<and> sched_ok K s vp \<and> coIsValid K c \<and>
     (\<forall>d. total_amount K lp d = coAmountOf K c d) \<and> (\<forall>d. total_amount K vp d = coAmountOf K c d)"

lemma account_okD:
  assumes "account_ok K va"
  shows "sched_ok K (StartTime va) (LockupPeriods va)" "sched_ok K (StartTime va) (VestingPeriods va)"
    "StartTime va + total_length (LockupPeriods va) \<le> EndTime va"
    "StartTime va + total_length (VestingPeriods va) \<le> EndTime va"
    "coIsValid K (OriginalVesting va)" "coIsValid K (DelegatedFree va)" "coIsValid K (DelegatedVesting va)"
    "coAmountOf K (OriginalVesting va) d = total_amount K (LockupPeriods va) d"
    "coAmountOf K (OriginalVesting va) d = total_amount K (VestingPeriods va) d"
  using assms by (auto simp: account_ok_def)

context coins_laws
begin

lemma GetVestedCoins_ok:
  assumes "account_ok K va"
  shows "coIsValid K (GetVestedCoins K va t)" "coAmountOf K (GetVestedCoins K va t) d = vested_at K va t d"
  using ReadSchedule_valid[OF account_okD(2,5)[OF assms]]
    ReadSchedule_amount[OF account_okD(2,4)[OF assms] account_okD(9)[OF assms]]
  by (simp_all add: GetVestedCoins_def vested_at_def)

lemma GetUnlockedCoins_ok:
  assumes "account_ok K va"
  shows "coIsValid K (GetUnlockedCoins K va t)" "coAmountOf K (GetUnlockedCoins K va t) d = unlocked_at K va t d"
  using ReadSchedule_valid[OF account_okD(1,5)[OF assms]]
    ReadSchedule_amount[OF account_okD(1,3)[OF assms] account_okD(8)[OF assms]]
  by (simp_all add: GetUnlockedCoins_def unlocked_at_def)

lemma vested_bounds:
  assumes "account_ok K va"
  shows "0 \<le> vested_at K va t d" "vested_at K va t d \<le> coAmountOf K (OriginalVesting va) d"
  using released_nonneg[OF account_okD(2)[OF assms]] released_le_total[OF account_okD(2)[OF assms]]
    account_okD(9)[OF assms] amount_nonneg[OF account_okD(5)[OF assms]]
  by (auto simp: vested_at_def)

lemma unlocked_bounds:
  assumes "account_ok K va"
  shows "0 \<le> unlocked_at K va t d" "unlocked_at K va t d \<le> coAmountOf K (OriginalVesting va) d"
  using released_nonneg[OF account_okD(1)[OF assms]] released_le_total[OF account_okD(1)[OF assms]]
    account_okD(8)[OF assms] amount_nonneg[OF account_okD(5)[OF assms]]
  by (auto simp: unlocked_at_def)

lemma vested_mono: "account_ok K va \<Longrightarrow> t \<le> t' \<Longrightarrow> vested_at K va t d \<le> vested_at K va t' d"
  by (auto simp: vested_at_def released_nonneg account_okD(2) intro: released_mono[OF account_okD(2)])

lemma unlocked_mono: "account_ok K va \<Longrightarrow> t \<le> t' \<Longrightarrow> unlocked_at K va t d \<le> unlocked_at K va t' d"
  by (auto simp: unlocked_at_def released_nonneg account_okD(1) intro: released_mono[OF account_okD(1)])

lemma GetUnlockedVestedCoins_ok:
  assumes "account_ok K va"
  shows "coIsValid K (GetUnlockedVestedCoins K va t)"
    "coAmountOf K (GetUnlockedVestedCoins K va t) d = min (unlocked_at K va t d) (vested_at K va t d)"
proof -
  note U = GetUnlockedCoins_ok[OF assms] and V = GetVestedCoins_ok[OF assms]
  have v: "coIsValid K (coMin K (GetUnlockedCoins K va t) (GetVestedCoins K va t))"
    using U(1) V(1) by (simp add: valid_min)
  show "coIsValid K (GetUnlockedVestedCoins K va t)"
    using v by (simp add: GetUnlockedVestedCoins_def Let_def valid_empty)
  show "coAmountOf K (GetUnlockedVestedCoins K va t) d = min (unlocked_at K va t d) (vested_at K va t d)"
    using is_zero[OF v] U V by (auto simp: GetUnlockedVestedCoins_def Let_def amount_empty amount_min)
qed

lemma subC_ok:
  assumes "coIsValid K a" "coIsValid K b" "\<And>d. coAmountOf K b d \<le> coAmountOf K a d"
  obtains c where "subC K a b = Inr c" "coIsValid K c"
    "\<And>d. coAmountOf K c d = coAmountOf K a d - coAmountOf K b d"
  using sub_defined[OF assms] by (metis of_option_simps(2) subC_def)

lemma GetVestingCoins_ok:
  assumes "account_ok K va"
  obtains c where "GetVestingCoins K va t = Inr c" "coIsValid K c"
    "\<And>d. coAmountOf K c d = coAmountOf K (OriginalVesting va) d - vested_at K va t d"
  using subC_ok[OF account_okD(5)[OF assms] GetVestedCoins_ok(1)[OF assms]]
    GetVestedCoins_ok(2)[OF assms] vested_bounds[OF assms]
  unfolding GetVestingCoins_def by metis

lemma GetLockedUpCoins_ok:
  assumes "account_ok K va"
  obtains c where "GetLockedUpCoins K va t = Inr c" "coIsValid K c"
    "\<And>d. coAmountOf K c d = coAmountOf K (OriginalVesting va) d - unlocked_at K va t d"
  using subC_ok[OF account_okD(5)[OF assms] GetUnlockedCoins_ok(1)[OF assms]]
    GetUnlockedCoins_ok(2)[OF assms] unlocked_bounds[OF assms]
  unfolding GetLockedUpCoins_def by metis

lemma GetLockedUpVestedCoins_ok:
  assumes "account_ok K va"
  obtains c where "GetLockedUpVestedCoins K va t = Inr c" "coIsValid K c"
    "\<And>d. coAmountOf K c d = vested_at K va t d - min (unlocked_at K va t d) (vested_at K va t d)"
  using subC_ok[OF GetVestedCoins_ok(1)[OF assms] GetUnlockedVestedCoins_ok(1)[OF assms]]
    GetVestedCoins_ok(2)[OF assms] GetUnlockedVestedCoins_ok(2)[OF assms]
  unfolding GetLockedUpVestedCoins_def by (metis min.cobounded2)

lemma LockedCoins_ok:
  assumes "account_ok K va"
  obtains c where "LockedCoins K va t = Inr c" "coIsValid K c" "\<And>d. coAmountOf K c d = locked_at K va t d"
proof -
  obtain l where l: "GetLockedUpVestedCoins K va t = Inr l" "coIsValid K l"
    "\<And>d. coAmountOf K l d = vested_at K va t d - min (unlocked_at K va t d) (vested_at K va t d)"
    using GetLockedUpVestedCoins_ok[OF assms] by blast
  let ?del = "coMin K (coAdd K (DelegatedFree va) (DelegatedVesting va)) l"
  let ?b = "coAdd K (GetUnlockedVestedCoins K va t) ?del"
  have vdel: "coIsValid K ?del" using l account_okD(6,7)[OF assms] by (simp add: valid_min valid_add)
  have vb: "coIsValid K ?b" using vdel GetUnlockedVestedCoins_ok(1)[OF assms] by (simp add: valid_add)
  have ab: "coAmountOf K ?b d = min (unlocked_at K va t d) (vested_at K va t d) +
      min (coAmountOf K (DelegatedFree va) d + coAmountOf K (DelegatedVesting va) d) (coAmountOf K l d)" for d
    using l account_okD(6,7)[OF assms] vdel GetUnlockedVestedCoins_ok[OF assms]
    by (simp add: amount_add amount_min valid_add)
  have le: "coAmountOf K ?b d \<le> coAmountOf K (OriginalVesting va) d" for d
    using vested_bounds(2)[OF assms, of t d] by (simp add: ab l(3))
  have nn: "\<not> snd (coSafeSub K (OriginalVesting va) ?b)"
    using safe_sub_neg[OF account_okD(5)[OF assms] vb] le by (auto simp: not_less)
  show thesis
  proof (rule that[of "fst (coSafeSub K (OriginalVesting va) ?b)"])
    show "LockedCoins K va t = Inr (fst (coSafeSub K (OriginalVesting va) ?b))"
      using l(1) nn by (simp add: LockedCoins_def Let_def case_prod_beta)
    show "coIsValid K (fst (coSafeSub K (OriginalVesting va) ?b))"
      by (rule valid_safe_sub[OF account_okD(5)[OF assms] vb nn])
    show "coAmountOf K (fst (coSafeSub K (OriginalVesting va) ?b)) d = locked_at K va t d" for d
      using amount_safe_sub[OF account_okD(5)[OF assms] vb nn, of d]
      by (simp add: locked_at_def Let_def ab l(3))
  qed
qed

lemma locked_at_antimono:
  assumes "account_ok K va" "t \<le> t'"
  shows "locked_at K va t' d \<le> locked_at K va t d"
  using vested_mono[OF assms, of d] unlocked_mono[OF assms, of d]
  by (simp add: locked_at_def Let_def)


section \<open>Creating, clawing back and merging\<close>

lemma align_first_0: "sched_ok K s ps \<Longrightarrow> align_first 0 ps = ps"
proof (cases ps)
  case (Cons p qs)
  moreover assume "sched_ok K s ps"
  ultimately have "add64 (Length p) 0 = Length p"
    using total_length_nonneg[of "\<lambda>p. coIsValid K (Amount p)" qs]
    by (intro add64_exact[of "Length p" 0, simplified]) (auto simp: sched_ok_def time_ok_def in64_def)
  with Cons show ?thesis by (simp add: align_first_def)
qed (simp add: align_first_def)

lemma AlignSchedules_same:
  assumes "sched_ok K s lp" "sched_ok K s vp"
  shows "AlignSchedules K s s lp vp = (s, max (s + total_length lp) (s + total_length vp), lp, vp)"
  using assms add64_total_length[OF assms(1)] add64_total_length[OF assms(2)]
  by (simp add: AlignSchedules_def Let_def Min64_min Max64_max time_ok_sub64 sched_ok_start align_first_0)

lemma NewClawbackVestingAccount_ok:
  assumes "grant_ok K s lp vp c"
  shows "account_ok K (NewClawbackVestingAccount K X base funder c s lp vp code)"
  using assms by (simp add: grant_ok_def NewClawbackVestingAccount_def AlignSchedules_same account_ok_def valid_empty)

lemma vested_take:
  assumes "account_ok K va"
  shows "released K (StartTime va) (take (GetPassedPeriodCount va t) (VestingPeriods va)) t' d =
    (if t \<le> StartTime va then 0 else released K (StartTime va) (VestingPeriods va) (min t t') d)"
  unfolding GetPassedPeriodCount_def by (rule released_take[OF account_okD(2,4)[OF assms]])

lemma total_vested_take:
  assumes "account_ok K va"
  shows "total_amount K (take (GetPassedPeriodCount va t) (VestingPeriods va)) d = vested_at K va t d"
  unfolding GetPassedPeriodCount_def vested_at_def
  using ReadPastPeriodCount_take[OF account_okD(2,4)[OF assms]] by blast

lemma total_by_released:
  assumes "sched_ok K s ps" "\<And>t. s + total_length ps \<le> t \<Longrightarrow> T \<le> t \<Longrightarrow> released K s ps t d = x"
  shows "total_amount K ps d = x"
  using assms(2)[of "max T (s + total_length ps)"]
    sched_ok_released_after[OF assms(1), of "max T (s + total_length ps)" d] by simp

lemma ComputeClawback_ok:
  assumes ok: "account_ok K va"
  obtains va' c where "ComputeClawback K va t = Inr (va', c)" "account_ok K va'" "coIsValid K c"
    "\<And>d. coAmountOf K c d = coAmountOf K (OriginalVesting va) d - vested_at K va t d"
    "\<And>d. coAmountOf K (OriginalVesting va') d = vested_at K va t d"
    "\<And>t' d. vested_at K va' t' d = vested_at K va (min t t') d"
    "\<And>t' d. unlocked_at K va' t' d = min (unlocked_at K va t' d) (vested_at K va t d)"
    "va' = va\<lparr>OriginalVesting := OriginalVesting va', EndTime := EndTime va',
       LockupPeriods := LockupPeriods va', VestingPeriods := VestingPeriods va'\<rparr>"
proof -
  let ?s = "StartTime va" and ?V = "GetVestedCoins K va t"
  let ?vp = "take (GetPassedPeriodCount va t) (VestingPeriods va)"
  let ?cap = "[\<lparr>Length = 0, Amount = ?V\<rparr>]"
  note L = account_okD(1)[OF ok] and V = account_okD(2)[OF ok]
  obtain c where c: "GetVestingCoins K va t = Inr c" "coIsValid K c"
    "\<And>d. coAmountOf K c d = coAmountOf K (OriginalVesting va) d - vested_at K va t d"
    using GetVestingCoins_ok[OF ok] by blast
  have cap: "sched_ok K ?s ?cap"
    using GetVestedCoins_ok(1)[OF ok] sched_ok_start[OF L] by (simp add: sched_ok_Cons)
  obtain e ps where conj: "ConjunctPeriods K ?s ?s (LockupPeriods va) ?cap = Inr (?s, e, ps)"
    "sched_ok K ?s ps" "e = ?s + total_length ps"
    "\<And>t d. released K ?s ps t d = min (released K ?s (LockupPeriods va) t d) (released K ?s ?cap t d)"
    using ConjunctPeriods_correct[OF L cap] by (metis min.idem)
  have rel: "released K ?s ps t' d = min (released K ?s (LockupPeriods va) t' d) (vested_at K va t d)"
    if "?s \<le> t'" for t' d
    using that conj(4) GetVestedCoins_ok(2)[OF ok] by simp
  have tot: "total_amount K ps d = vested_at K va t d" for d
  proof (rule total_by_released[OF conj(2), of "?s + total_length (LockupPeriods va)"])
    fix t' assume "?s + total_length ps \<le> t'" "?s + total_length (LockupPeriods va) \<le> t'"
    moreover have "0 \<le> total_length ps"
      using conj(2) total_length_nonneg[of "\<lambda>p. coIsValid K (Amount p)" ps] by (simp add: sched_ok_def)
    ultimately show "released K ?s ps t' d = vested_at K va t d"
      using rel[of t' d] sched_ok_released_after[OF L, of t' d] account_okD(8)[OF ok, of d]
        vested_bounds(2)[OF ok, of t d] by simp
  qed
  define va' where "va' = va\<lparr>OriginalVesting := ?V, EndTime := max (?s + total_length ?vp) e,
    LockupPeriods := ps, VestingPeriods := ?vp\<rparr>"
  have vp: "sched_ok K ?s ?vp" using V by (rule sched_ok_take)
  show thesis
  proof (rule that[of va' c])
    show "ComputeClawback K va t = Inr (va', c)"
      using c(1) conj(1) add64_total_length[OF vp]
      by (simp add: ComputeClawback_def Let_def va'_def Max64_max)
    show "account_ok K va'"
      using vp conj ok GetVestedCoins_ok[OF ok] tot total_vested_take[OF ok]
      by (simp add: account_ok_def va'_def)
    show "vested_at K va' t' d = vested_at K va (min t t') d" for t' d
      using vested_take[OF ok, of t t' d] by (simp add: vested_at_def va'_def min_def)
    show "unlocked_at K va' t' d = min (unlocked_at K va t' d) (vested_at K va t d)" for t' d
      using rel[of t' d] vested_bounds(1)[OF ok, of t d] by (simp add: unlocked_at_def va'_def)
  qed (use c GetVestedCoins_ok[OF ok] in \<open>simp_all add: va'_def\<close>)
qed

lemma DisjunctPeriods_ok:
  assumes "sched_ok K sA A" "sched_ok K sB B"
  obtains ps where "DisjunctPeriods K sA sB A B = (min sA sB, min sA sB + total_length ps, ps)"
    "sched_ok K (min sA sB) ps"
    "\<And>t d. released K (min sA sB) ps t d = released K sA A t d + released K sB B t d"
    "\<And>d. total_amount K ps d = total_amount K A d + total_amount K B d"
proof -
  obtain s e ps where d: "DisjunctPeriods K sA sB A B = (s, e, ps)" by (metis prod_cases3)
  show thesis
    by (rule that[of ps]) (use d DisjunctPeriods_correct[OF assms d] DisjunctPeriods_total[OF assms d] in auto)
qed

lemma AddGrant_ok:
  assumes ok: "account_ok K va" and g: "grant_ok K gs gl gv gc"
  obtains va' where "AddGrant K va gs gl gv gc = Inr va'" "account_ok K va'"
    "\<And>d. coAmountOf K (OriginalVesting va') d = coAmountOf K (OriginalVesting va) d + coAmountOf K gc d"
    "\<And>t d. released K (StartTime va') (VestingPeriods va') t d =
       released K (StartTime va) (VestingPeriods va) t d + released K gs gv t d"
    "\<And>t d. released K (StartTime va') (LockupPeriods va') t d =
       released K (StartTime va) (LockupPeriods va) t d + released K gs gl t d"
proof -
  define va1 where "va1 = (if length (LockupPeriods va) = 0 \<and> length (VestingPeriods va) = 0
    then va\<lparr>StartTime := gs\<rparr> else va)"
  have s: "sched_ok K (StartTime va1) (LockupPeriods va)" "sched_ok K (StartTime va1) (VestingPeriods va)"
    and rel: "\<And>t d. released K (StartTime va1) (LockupPeriods va) t d = released K (StartTime va) (LockupPeriods va) t d"
      "\<And>t d. released K (StartTime va1) (VestingPeriods va) t d = released K (StartTime va) (VestingPeriods va) t d"
    and same: "LockupPeriods va1 = LockupPeriods va" "VestingPeriods va1 = VestingPeriods va"
      "OriginalVesting va1 = OriginalVesting va" "DelegatedFree va1 = DelegatedFree va"
      "DelegatedVesting va1 = DelegatedVesting va"
    using account_okD(1,2)[OF ok] g sched_ok_start by (auto simp: va1_def grant_ok_def)
  let ?s = "min (StartTime va1) gs"
  obtain lp where lp: "DisjunctPeriods K (StartTime va1) gs (LockupPeriods va) gl = (?s, ?s + total_length lp, lp)"
    "sched_ok K ?s lp"
    "\<And>t d. released K ?s lp t d = released K (StartTime va1) (LockupPeriods va) t d + released K gs gl t d"
    "\<And>d. total_amount K lp d = total_amount K (LockupPeriods va) d + total_amount K gl d"
    using DisjunctPeriods_ok[OF s(1)] g unfolding grant_ok_def by blast
  obtain vp where vp: "DisjunctPeriods K (StartTime va1) gs (VestingPeriods va) gv = (?s, ?s + total_length vp, vp)"
    "sched_ok K ?s vp"
    "\<And>t d. released K ?s vp t d = released K (StartTime va1) (VestingPeriods va) t d + released K gs gv t d"
    "\<And>d. total_amount K vp d = total_amount K (VestingPeriods va) d + total_amount K gv d"
    using DisjunctPeriods_ok[OF s(2)] g unfolding grant_ok_def by blast
  define va' where "va' = va1\<lparr>StartTime := ?s, EndTime := max (?s + total_length lp) (?s + total_length vp),
    LockupPeriods := lp, VestingPeriods := vp, OriginalVesting := coAdd K (OriginalVesting va) gc\<rparr>"
  have gc: "coIsValid K gc" using g by (simp add: grant_ok_def)
  show thesis
  proof (rule that[of va'])
    show "AddGrant K va gs gl gv gc = Inr va'"
      unfolding AddGrant_def va1_def[symmetric] Let_def same lp(1) vp(1) va'_def by (simp add: Max64_max)
    have gt: "total_amount K gl d = coAmountOf K gc d" "total_amount K gv d = coAmountOf K gc d" for d
      using g by (simp_all add: grant_ok_def)
    have tot: "total_amount K lp d = coAmountOf K (OriginalVesting va) d + coAmountOf K gc d"
      "total_amount K vp d = coAmountOf K (OriginalVesting va) d + coAmountOf K gc d" for d
      unfolding lp(4) vp(4) gt using account_okD(8,9)[OF ok, of d] by simp_all
    show "account_ok K va'"
      using lp(2) vp(2) ok gc same tot by (simp add: account_ok_def va'_def amount_add valid_add)
    show "coAmountOf K (OriginalVesting va') d = coAmountOf K (OriginalVesting va) d + coAmountOf K gc d" for d
      using account_okD(5)[OF ok] gc by (simp add: va'_def amount_add)
  qed (use lp(3) vp(3) rel in \<open>simp_all add: va'_def\<close>)
qed

section \<open>Validation and delegation tracking\<close>

lemma sum_periods_ok:
  "sched_ok K s ps \<Longrightarrow> coIsValid K c \<Longrightarrow>
   \<exists>c'. sum_periods K s c ps = (s + total_length ps, c') \<and> coIsValid K c' \<and>
     (\<forall>d. coAmountOf K c' d = coAmountOf K c d + total_amount K ps d)"
proof (induction ps arbitrary: s c)
  case (Cons p ps)
  then have ok: "sched_ok K (s + Length p) ps" and v: "coIsValid K (Amount p)" by (simp_all add: sched_ok_Cons)
  obtain c' where "sum_periods K (s + Length p) (coAdd K c (Amount p)) ps = (s + Length p + total_length ps, c')"
    "coIsValid K c'" "\<forall>d. coAmountOf K c' d = coAmountOf K (coAdd K c (Amount p)) d + total_amount K ps d"
    using Cons.IH[OF ok valid_add[OF Cons.prems(2) v]] by blast
  then show ?case
    using v Cons.prems by (simp add: sched_ok_add64[OF Cons.prems(1)] amount_add add.assoc)
qed simp

lemma CoinEq_iff:
  "coIsValid K a \<Longrightarrow> coIsValid K b \<Longrightarrow> CoinEq K a b \<longleftrightarrow> (\<forall>d. coAmountOf K a d = coAmountOf K b d)"
  by (auto simp: CoinEq_def all_lte intro: order_antisym)

lemma Validate_iff:
  assumes "sched_ok K (StartTime va) (LockupPeriods va)" "sched_ok K (StartTime va) (VestingPeriods va)"
    "coIsValid K (OriginalVesting va)" "coIsValid K (DelegatedFree va)" "coIsValid K (DelegatedVesting va)"
  shows "ClawbackVestingAccount_Validate base K va = Inr () \<longleftrightarrow>
    StartTime va < EndTime va \<and> account_ok K va \<and> base va = Inr ()"
proof -
  obtain lc where lc: "sum_periods K (StartTime va) (coEmpty K) (LockupPeriods va) =
      (StartTime va + total_length (LockupPeriods va), lc)" "coIsValid K lc"
    "\<And>d. coAmountOf K lc d = total_amount K (LockupPeriods va) d"
    using sum_periods_ok[OF assms(1) valid_empty] by (auto simp: amount_empty)
  obtain vc where vc: "sum_periods K (StartTime va) (coEmpty K) (VestingPeriods va) =
      (StartTime va + total_length (VestingPeriods va), vc)" "coIsValid K vc"
    "\<And>d. coAmountOf K vc d = total_amount K (VestingPeriods va) d"
    using sum_periods_ok[OF assms(2) valid_empty] by (auto simp: amount_empty)
  have "CoinEq K lc (OriginalVesting va) \<longleftrightarrow> (\<forall>d. coAmountOf K (OriginalVesting va) d = total_amount K (LockupPeriods va) d)"
    "CoinEq K vc (OriginalVesting va) \<longleftrightarrow> (\<forall>d. coAmountOf K (OriginalVesting va) d = total_amount K (VestingPeriods va) d)"
    using assms lc vc by (auto simp: CoinEq_iff)
  then show ?thesis
    using assms by (auto simp: ClawbackVestingAccount_Validate_def lc(1) vc(1) account_ok_def)
qed

lemma TrackDelegation_loop_ok:
  "(\<And>c. c \<in> set cs \<Longrightarrow> denom_ok (Denom c) \<and> 0 < Amt c \<and> Amt c \<le> coAmountOf K balance (Denom c)) \<Longrightarrow>
   coIsValid K (DelegatedFree va) \<Longrightarrow>
   \<exists>df. TrackDelegation_loop K balance cs va = Inr (va\<lparr>DelegatedFree := df\<rparr>) \<and> coIsValid K df \<and>
     (\<forall>d. coAmountOf K df d = coAmountOf K (DelegatedFree va) d + cl_amt cs d)"
proof (induction cs arbitrary: va)
  case (Cons c cs)
  let ?va = "va\<lparr>DelegatedFree := coAddCoin K (DelegatedFree va) c\<rparr>"
  have c: "denom_ok (Denom c)" "0 < Amt c" "Amt c \<le> coAmountOf K balance (Denom c)"
    using Cons.prems(1)[of c] by auto
  with Cons.prems(2) have v: "coIsValid K (DelegatedFree ?va)" by (simp add: valid_add_coin)
  from Cons.IH[OF _ v] Cons.prems(1) obtain df where
    "TrackDelegation_loop K balance cs ?va = Inr (?va\<lparr>DelegatedFree := df\<rparr>)" "coIsValid K df"
    "\<forall>d. coAmountOf K df d = coAmountOf K (DelegatedFree ?va) d + cl_amt cs d" by auto
  with c Cons.prems(2) show ?case by (intro exI[of _ df]) (auto simp: amount_add_coin)
next
  case Nil
  then show ?case by (intro exI[of _ "DelegatedFree va"]) simp
qed

lemma TrackDelegation_loop_panics:
  "c \<in> set cs \<Longrightarrow> coAmountOf K balance (Denom c) < Amt c \<Longrightarrow>
   TrackDelegation_loop K balance cs va = Inl (Panic ''delegation attempt with zero coins or insufficient funds'')"
  by (induction cs arbitrary: va) (auto simp: Let_def)

lemma cl_amt_distinct: "distinct (map Denom cs) \<Longrightarrow> c \<in> set cs \<Longrightarrow> cl_amt cs (Denom c) = Amt c"
proof (induction cs)
  case (Cons x cs)
  have "cl_amt cs (Denom x) = 0" using Cons.prems(1) by (intro cl_amt_notin) (simp add: cl_denoms_def)
  with Cons show ?case by (auto simp: image_iff)
qed simp

lemma cl_amt_items:
  assumes "coIsValid K a"
  shows "cl_amt (coItems K a) d = coAmountOf K a d"
proof (cases "\<exists>c \<in> set (coItems K a). Denom c = d")
  case True
  then obtain c where "c \<in> set (coItems K a)" "Denom c = d" by blast
  then show ?thesis using cl_amt_distinct[OF items_distinct[OF assms]] items[OF assms, of c] by metis
next
  case False
  then have "\<not> 0 < coAmountOf K a d"
    using items[OF assms, of "\<lparr>Denom = d, Amt = coAmountOf K a d\<rparr>"] by auto
  with False show ?thesis
    using amount_nonneg[OF assms, of d] cl_amt_notin[of d "coItems K a"]
    by (auto simp: cl_denoms_def image_iff)
qed

end

section \<open>Properties\<close>

text \<open>An account for concrete runs: 100 coins from time 1000.\<close>

definition demo_va :: "coin list clawback_account" where
  "demo_va = \<lparr>BaseAccount = \<lparr>Address = ''haqq1v'', AccountNumber = 7, Sequence = 0\<rparr>,
     OriginalVesting = islm 100, DelegatedFree = [], DelegatedVesting = [],
     EndTime = 1200, FunderAddress = ''haqq1f'', StartTime = 1000,
     LockupPeriods = [iperiod 100 40, iperiod 100 60], VestingPeriods = [iperiod 50 50, iperiod 100 50],
     CodeHash = ''0''\<rparr>"

lemma demo_grant_ok: "grant_ok stdCoins 1000 [iperiod 100 40, iperiod 100 60] [iperiod 50 50, iperiod 100 50] (islm 100)"
proof -
  have "sched_ok stdCoins 1000 [iperiod 100 40, iperiod 100 60]" "sched_ok stdCoins 1000 [iperiod 50 50, iperiod 100 50]"
    "coIsValid stdCoins (islm 100)" by code_simp+
  then show ?thesis by (simp add: grant_ok_def iperiod_def islm_def)
qed

lemma demo_va_ok: "account_ok stdCoins demo_va"
  using demo_grant_ok cl_valid_empty by (simp add: demo_va_def account_ok_def grant_ok_def) (simp add: iperiod_def)

text \<open>
  C4. Clawing back at a time \<open>t\<close> never panics on a well-formed account and splits it
  exactly: the clawed back coins are the unvested ones, the remaining original vesting is
  what was vested at \<open>t\<close>; the new account is well formed, vests nothing after \<open>t\<close> and
  otherwise as before, unlocks as before but never more than its vested total, and keeps
  its start, funder, base account, delegation counters and code hash.
\<close>

theorem ComputeClawback_splits_account:
  assumes "coins_laws K ok" "account_ok K va"
  shows "\<exists>va' clawed. ComputeClawback K va t = Inr (va', clawed) \<and> account_ok K va' \<and>
    (\<forall>d. coAmountOf K clawed d = coAmountOf K (OriginalVesting va) d - vested_at K va t d) \<and>
    (\<forall>d. coAmountOf K (OriginalVesting va') d = vested_at K va t d) \<and>
    (\<forall>t' d. vested_at K va' t' d = vested_at K va (min t t') d) \<and>
    (\<forall>t' d. unlocked_at K va' t' d = min (unlocked_at K va t' d) (vested_at K va t d)) \<and>
    va' = va\<lparr>OriginalVesting := OriginalVesting va', EndTime := EndTime va',
      LockupPeriods := LockupPeriods va', VestingPeriods := VestingPeriods va'\<rparr>"
  by (rule coins_laws.ComputeClawback_ok[OF assms, of t]) blast

theorem ComputeClawback_splits_account_witness:
  "\<exists>va' clawed. ComputeClawback stdCoins demo_va 1060 = Inr (va', clawed) \<and>
     coAmountOf stdCoins clawed ''aISLM'' = 50 \<and> unlocked_at stdCoins va' 2000 ''aISLM'' = 50"
proof -
  obtain va' clawed where "ComputeClawback stdCoins demo_va 1060 = Inr (va', clawed)"
    "coAmountOf stdCoins clawed ''aISLM'' = coAmountOf stdCoins (OriginalVesting demo_va) ''aISLM'' - vested_at stdCoins demo_va 1060 ''aISLM''"
    "unlocked_at stdCoins va' 2000 ''aISLM'' = min (unlocked_at stdCoins demo_va 2000 ''aISLM'') (vested_at stdCoins demo_va 1060 ''aISLM'')"
    using ComputeClawback_splits_account[OF std_laws demo_va_ok, of 1060] by blast
  moreover have "coAmountOf stdCoins (OriginalVesting demo_va) ''aISLM'' - vested_at stdCoins demo_va 1060 ''aISLM'' = 50"
    "min (unlocked_at stdCoins demo_va 2000 ''aISLM'') (vested_at stdCoins demo_va 1060 ''aISLM'') = 50"
    by code_simp+
  ultimately show ?thesis by auto
qed

text \<open>
  C5. Merging a well-formed grant into a well-formed account succeeds and keeps the
  account well formed: the original vesting grows by the granted coins, and both the
  vesting and the lockup step functions are the sums of the account's and the grant's.
\<close>

theorem AddGrant_adds_grant:
  assumes "coins_laws K ok" "account_ok K va" "grant_ok K grantStart grantLockup grantVesting grantCoins"
  shows "\<exists>va'. AddGrant K va grantStart grantLockup grantVesting grantCoins = Inr va' \<and> account_ok K va' \<and>
    (\<forall>d. coAmountOf K (OriginalVesting va') d =
       coAmountOf K (OriginalVesting va) d + coAmountOf K grantCoins d) \<and>
    (\<forall>t d. released K (StartTime va') (VestingPeriods va') t d =
       released K (StartTime va) (VestingPeriods va) t d + released K grantStart grantVesting t d) \<and>
    (\<forall>t d. released K (StartTime va') (LockupPeriods va') t d =
       released K (StartTime va) (LockupPeriods va) t d + released K grantStart grantLockup t d)"
  using coins_laws.AddGrant_ok[OF assms] by metis

theorem AddGrant_adds_grant_witness:
  "\<exists>va'. AddGrant stdCoins demo_va 1000 [iperiod 100 40, iperiod 100 60] [iperiod 50 50, iperiod 100 50] (islm 100) = Inr va' \<and>
     account_ok stdCoins va' \<and> coAmountOf stdCoins (OriginalVesting va') ''aISLM'' = 200"
proof -
  obtain va' where "AddGrant stdCoins demo_va 1000 [iperiod 100 40, iperiod 100 60] [iperiod 50 50, iperiod 100 50] (islm 100) = Inr va'"
    "account_ok stdCoins va'" "coAmountOf stdCoins (OriginalVesting va') ''aISLM'' =
      coAmountOf stdCoins (OriginalVesting demo_va) ''aISLM'' + coAmountOf stdCoins (islm 100) ''aISLM''"
    using AddGrant_adds_grant[OF std_laws demo_va_ok demo_grant_ok] by blast
  moreover have "coAmountOf stdCoins (OriginalVesting demo_va) ''aISLM'' + coAmountOf stdCoins (islm 100) ''aISLM'' = 200"
    by code_simp
  ultimately show ?thesis by auto
qed

text \<open>
  C6. On a well-formed account no balance method panics, and at every time the original
  vesting splits into unvested, vested but locked up, and vested and unlocked coins; the
  locked coins are the first two less what of the locked-up vested coins is delegated.
\<close>

theorem account_coins_partition:
  assumes "coins_laws K ok" "account_ok K va"
  shows "\<exists>vesting lockedVested locked.
    GetVestingCoins K va t = Inr vesting \<and> GetLockedUpVestedCoins K va t = Inr lockedVested \<and>
    LockedCoins K va t = Inr locked \<and>
    (\<forall>d. coAmountOf K (OriginalVesting va) d = coAmountOf K vesting d + coAmountOf K lockedVested d +
       coAmountOf K (GetUnlockedVestedCoins K va t) d) \<and>
    (\<forall>d. coAmountOf K locked d = coAmountOf K vesting d + coAmountOf K lockedVested d -
       min (coAmountOf K (DelegatedFree va) d + coAmountOf K (DelegatedVesting va) d)
           (coAmountOf K lockedVested d))"
proof -
  obtain v where v: "GetVestingCoins K va t = Inr v"
    "\<And>d. coAmountOf K v d = coAmountOf K (OriginalVesting va) d - vested_at K va t d"
    using coins_laws.GetVestingCoins_ok[OF assms] by metis
  obtain lv where lv: "GetLockedUpVestedCoins K va t = Inr lv"
    "\<And>d. coAmountOf K lv d = vested_at K va t d - min (unlocked_at K va t d) (vested_at K va t d)"
    using coins_laws.GetLockedUpVestedCoins_ok[OF assms] by metis
  obtain l where l: "LockedCoins K va t = Inr l" "\<And>d. coAmountOf K l d = locked_at K va t d"
    using coins_laws.LockedCoins_ok[OF assms] by metis
  show ?thesis
    using v lv l coins_laws.GetUnlockedVestedCoins_ok(2)[OF assms] by (simp add: locked_at_def Let_def)
qed

theorem account_coins_partition_witness:
  "\<exists>vesting lockedVested. GetVestingCoins stdCoins demo_va 1060 = Inr vesting \<and>
     GetLockedUpVestedCoins stdCoins demo_va 1060 = Inr lockedVested \<and>
     coAmountOf stdCoins vesting ''aISLM'' + coAmountOf stdCoins lockedVested ''aISLM'' = 100"
proof -
  obtain v lv where "GetVestingCoins stdCoins demo_va 1060 = Inr v" "GetLockedUpVestedCoins stdCoins demo_va 1060 = Inr lv"
    "coAmountOf stdCoins (OriginalVesting demo_va) ''aISLM'' = coAmountOf stdCoins v ''aISLM'' + coAmountOf stdCoins lv ''aISLM'' +
       coAmountOf stdCoins (GetUnlockedVestedCoins stdCoins demo_va 1060) ''aISLM''"
    using account_coins_partition[OF std_laws demo_va_ok, of 1060] by blast
  moreover have "coAmountOf stdCoins (OriginalVesting demo_va) ''aISLM'' = 100"
    "coAmountOf stdCoins (GetUnlockedVestedCoins stdCoins demo_va 1060) ''aISLM'' = 0" by code_simp+
  ultimately show ?thesis by auto
qed

text \<open>
  C7. The locked coins of a well-formed account never grow with time: what is spendable at
  a time stays spendable later, in every denomination.
\<close>

theorem LockedCoins_antitone:
  assumes "coins_laws K ok" "account_ok K va" "t \<le> t'"
    and "LockedCoins K va t = Inr locked" "LockedCoins K va t' = Inr locked'"
  shows "coAmountOf K locked' d \<le> coAmountOf K locked d"
proof -
  obtain l l' where "LockedCoins K va t = Inr l" "\<And>d. coAmountOf K l d = locked_at K va t d"
    "LockedCoins K va t' = Inr l'" "\<And>d. coAmountOf K l' d = locked_at K va t' d"
    using coins_laws.LockedCoins_ok[OF assms(1,2)] by metis
  then show ?thesis using coins_laws.locked_at_antimono[OF assms(1-3), of d] assms(4,5) by simp
qed

theorem LockedCoins_antitone_witness:
  "\<exists>l l'. LockedCoins stdCoins demo_va 1060 = Inr l \<and> LockedCoins stdCoins demo_va 1200 = Inr l' \<and>
     coAmountOf stdCoins l' ''aISLM'' \<le> coAmountOf stdCoins l ''aISLM''"
proof -
  obtain l where l: "LockedCoins stdCoins demo_va 1060 = Inr l" using std.LockedCoins_ok[OF demo_va_ok] by blast
  obtain l' where l': "LockedCoins stdCoins demo_va 1200 = Inr l'" using std.LockedCoins_ok[OF demo_va_ok] by blast
  show ?thesis using LockedCoins_antitone[OF std_laws demo_va_ok _ l l', of "''aISLM''"] l l' by simp
qed



text \<open>
  Tracking a delegation of valid coins covered by the balance adds exactly those coins
  to the free delegations and changes nothing else of the account; a delegation that
  exceeds the balance in some denomination panics.
\<close>

theorem TrackDelegation_adds_or_panics:
  assumes "coins_laws K ok" "coIsValid K amount" "coIsValid K (DelegatedFree va)"
  shows "((\<forall>d. coAmountOf K amount d \<le> coAmountOf K balance d) \<longrightarrow>
      (\<exists>df. TrackDelegation K va balance amount = Inr (va\<lparr>DelegatedFree := df\<rparr>) \<and>
         (\<forall>d. coAmountOf K df d = coAmountOf K (DelegatedFree va) d + coAmountOf K amount d))) \<and>
    ((\<exists>d. 0 \<le> coAmountOf K balance d \<and> coAmountOf K balance d < coAmountOf K amount d) \<longrightarrow>
      TrackDelegation K va balance amount =
        Inl (Panic ''delegation attempt with zero coins or insufficient funds''))"
proof (intro conjI impI)
  assume le: "\<forall>d. coAmountOf K amount d \<le> coAmountOf K balance d"
  have "ok (Denom c) \<and> 0 < Amt c \<and> Amt c \<le> coAmountOf K balance (Denom c)" if "c \<in> set (coItems K amount)" for c
    using that le coins_laws.items[OF assms(1,2), of c] coins_laws.items_ok[OF assms(1,2)] by auto
  with coins_laws.TrackDelegation_loop_ok[OF assms(1) _ assms(3), of "coItems K amount" balance]
  show "\<exists>df. TrackDelegation K va balance amount = Inr (va\<lparr>DelegatedFree := df\<rparr>) \<and>
     (\<forall>d. coAmountOf K df d = coAmountOf K (DelegatedFree va) d + coAmountOf K amount d)"
    using coins_laws.cl_amt_items[OF assms(1,2)] by (auto simp: TrackDelegation_def)
next
  assume "\<exists>d. 0 \<le> coAmountOf K balance d \<and> coAmountOf K balance d < coAmountOf K amount d"
  then obtain d where d: "0 \<le> coAmountOf K balance d" "coAmountOf K balance d < coAmountOf K amount d" by blast
  then have "\<lparr>Denom = d, Amt = coAmountOf K amount d\<rparr> \<in> set (coItems K amount)"
    by (simp add: coins_laws.items[OF assms(1,2)])
  from coins_laws.TrackDelegation_loop_panics[OF assms(1) this, of balance va] d
  show "TrackDelegation K va balance amount =
    Inl (Panic ''delegation attempt with zero coins or insufficient funds'')"
    by (simp add: TrackDelegation_def)
qed

theorem TrackDelegation_adds_or_panics_witness:
  "\<exists>df. TrackDelegation stdCoins demo_va (islm 80) (islm 30) = Inr (demo_va\<lparr>DelegatedFree := df\<rparr>) \<and>
     coAmountOf stdCoins df ''aISLM'' = 30"
proof -
  have v: "coIsValid stdCoins (islm 30)" "coIsValid stdCoins (DelegatedFree demo_va)" by code_simp+
  have "\<forall>d. coAmountOf stdCoins (islm 30) d \<le> coAmountOf stdCoins (islm 80) d" by (simp add: islm_def)
  with TrackDelegation_adds_or_panics[OF std_laws v, of "islm 80"] obtain df where
    "TrackDelegation stdCoins demo_va (islm 80) (islm 30) = Inr (demo_va\<lparr>DelegatedFree := df\<rparr>)"
    "coAmountOf stdCoins df ''aISLM'' = coAmountOf stdCoins (DelegatedFree demo_va) ''aISLM'' + coAmountOf stdCoins (islm 30) ''aISLM''"
    by blast
  moreover have "coAmountOf stdCoins (DelegatedFree demo_va) ''aISLM'' + coAmountOf stdCoins (islm 30) ''aISLM'' = 30"
    by code_simp
  ultimately show ?thesis by auto
qed

end
