(* ===== verification/VestingKeeper.thy ===== *)
theory VestingKeeper
  imports ClawbackAccount
begin

text \<open>
  The vesting module's keeper: \<^verbatim>\<open>x/vesting/keeper/msg_server.go\<close>, \<^verbatim>\<open>schedule.go\<close>,
  \<^verbatim>\<open>utils.go\<close> and \<^verbatim>\<open>grpc_query.go\<close>. The keepers it calls (account, bank, staking,
  distribution; \<^verbatim>\<open>x/vesting/types/interfaces.go\<close>) are SDK code and thus fields of the
  environment record, over an abstract chain state. A handler takes the state and returns
  either an error, in which case the transaction's changes are dropped, or the new state.
  Events and telemetry are not part of the state.
\<close>

section \<open>Accounts and the expected keepers\<close>

record eth_account =
  ethBaseAccount :: base_account
  ethCodeHash :: string

datatype 'c account =
    ClawbackAcc "'c clawback_account"
  | EthAcc eth_account
  | OtherAcc base_account

fun base_of :: "'c account \<Rightarrow> base_account" where
  "base_of (ClawbackAcc va) = BaseAccount va"
| "base_of (EthAcc e) = ethBaseAccount e"
| "base_of (OtherAcc b) = b"

record ('s, 'c, 'v) vest_env =
  ak_GetAccount :: "'s \<Rightarrow> acc_address \<Rightarrow> 'c account option"
  ak_SetAccount :: "'s \<Rightarrow> 'c account \<Rightarrow> 's"
  ak_NewAccount :: "'s \<Rightarrow> 'c account \<Rightarrow> 's \<times> 'c account"
  ak_GetModuleAddress :: "string \<Rightarrow> acc_address"
  ak_NewBaseAccountWithAddress :: "acc_address \<Rightarrow> base_account"
  ak_GetAddress :: "base_account \<Rightarrow> acc_address"
  bk_GetAllBalances :: "'s \<Rightarrow> acc_address \<Rightarrow> 'c"
  bk_SendCoins :: "'s \<Rightarrow> acc_address \<Rightarrow> acc_address \<Rightarrow> 'c \<Rightarrow> 's result"
  bk_BlockedAddr :: "acc_address \<Rightarrow> bool"
  sk_BondDenom :: "'s \<Rightarrow> string result"
  sk_GetDelegatorBonded :: "'s \<Rightarrow> acc_address \<Rightarrow> int result"
  sk_GetDelegatorUnbonding :: "'s \<Rightarrow> acc_address \<Rightarrow> int result"
  sk_GetValidator :: "'s \<Rightarrow> acc_address \<Rightarrow> 'v result"
  sk_Delegate :: "'s \<Rightarrow> acc_address \<Rightarrow> int \<Rightarrow> 'v \<Rightarrow> 's result"
  dk_FundCommunityPool :: "'s \<Rightarrow> 'c \<Rightarrow> acc_address \<Rightarrow> 's result"

record 'c msg_create =
  mFromAddress :: string
  mToAddress :: string
  mStartTime :: int
  mLockupPeriods :: "'c period list"
  mVestingPeriods :: "'c period list"
  mMerge :: bool

record 'c msg_convert = "'c msg_create" +
  mStake :: bool
  mValidatorAddress :: string

record msg_clawback =
  mcFunderAddress :: string
  mcAccountAddress :: string
  mcDestAddress :: string

record msg_update_funder =
  muFunderAddress :: string
  muNewFunderAddress :: string
  muVestingAddress :: string

section \<open>Helpers\<close>

definition GetClawbackVestingAccount :: "('s, 'c, 'v) vest_env \<Rightarrow> 's \<Rightarrow> acc_address \<Rightarrow>
    'c clawback_account result" where
  "GetClawbackVestingAccount E s addr =
     (case ak_GetAccount E s addr of
        None \<Rightarrow> Inl (Wrapf ErrUnknownAddress ''account at address does not exist'')
      | Some (ClawbackAcc va) \<Rightarrow> Inr va
      | Some _ \<Rightarrow> Inl (Wrapf ErrNotSubjectToClawback ''''))"

text \<open>Errors of the staking keeper are wrapped into \<^verbatim>\<open>ErrInvalidRequest\<close>.\<close>

definition wrap_req :: "string \<Rightarrow> 'a result \<Rightarrow> 'a result" where
  "wrap_req msg r = (case r of Inl (Panic p) \<Rightarrow> Inl (Panic p)
     | Inl _ \<Rightarrow> Inl (Wrapf ErrInvalidRequest msg) | Inr x \<Rightarrow> Inr x)"

text \<open>\<^verbatim>\<open>sdk.NewCoins(sdk.NewCoin(denom, amount))\<close>; \<^verbatim>\<open>NewCoin\<close> panics.\<close>

definition newCoins1 :: "'c coins_api \<Rightarrow> string \<Rightarrow> int \<Rightarrow> 'c result" where
  "newCoins1 K denom amount =
     bind_r (of_option (Panic ''invalid coin'') (coNewCoin K denom amount)) (\<lambda>c. Inr (coNewCoins K c))"

definition addGrant :: "('s, 'c, 'v) vest_env \<Rightarrow> 'c coins_api \<Rightarrow> 's \<Rightarrow> 'c clawback_account \<Rightarrow> int \<Rightarrow>
    'c period list \<Rightarrow> 'c period list \<Rightarrow> 'c \<Rightarrow> 'c clawback_account result" where
  "addGrant E K s va grantStartTime grantLockupPeriods grantVestingPeriods grantCoins =
     (let vestingAddr = ak_GetAddress E (BaseAccount va) in
      bind_r (wrap_req ''failed to get bonded amount'' (sk_GetDelegatorBonded E s vestingAddr)) (\<lambda>bondedAmt.
      bind_r (wrap_req ''failed to get unbonding amount'' (sk_GetDelegatorUnbonding E s vestingAddr)) (\<lambda>unbondingAmt.
      let delegatedAmt = bondedAmt + unbondingAmt;
          accStartTime = StartTime va;
          (newLockupStart, newLockupEnd, newLockupPeriods) =
            DisjunctPeriods K accStartTime grantStartTime (LockupPeriods va) grantLockupPeriods;
          (newVestingStart, newVestingEnd, newVestingPeriods) =
            DisjunctPeriods K accStartTime grantStartTime (VestingPeriods va) grantVestingPeriods
      in if newLockupStart \<noteq> newVestingStart
         then Inl (Wrapf ErrVestingLockup ''vesting start time calculation should match lockup start'')
         else
           bind_r (wrap_req ''failed to get bond denom'' (sk_BondDenom E s)) (\<lambda>bondDenom.
           bind_r (newCoins1 K bondDenom delegatedAmt) (\<lambda>delegatedFree.
           Inr (va\<lparr>StartTime := newLockupStart,
                   EndTime := Max64 newLockupEnd newVestingEnd,
                   LockupPeriods := newLockupPeriods,
                   VestingPeriods := newVestingPeriods,
                   OriginalVesting := coAdd K (OriginalVesting va) grantCoins,
                   DelegatedVesting := coEmpty K,
                   DelegatedFree := delegatedFree\<rparr>))))))"

text \<open>
  The default schedules of the two creating messages: an absent lockup is an instant unlock,
  an absent vesting an instant vesting. The result is the two schedules with their totals.
\<close>

definition default_schedules :: "'c coins_api \<Rightarrow> 'c period list \<Rightarrow> 'c period list \<Rightarrow>
    'c period list \<times> 'c period list \<times> 'c \<times> 'c" where
  "default_schedules K lockupPeriods vestingPeriods =
     (let vestingCoins = coTotalAmount K vestingPeriods;
          lockupCoins = coTotalAmount K lockupPeriods;
          (lockupPeriods', lockupCoins') =
            (if \<not> coIsZero K vestingCoins \<and> length lockupPeriods = 0
             then ([\<lparr>Length = 0, Amount = vestingCoins\<rparr>], vestingCoins)
             else (lockupPeriods, lockupCoins));
          (vestingPeriods', vestingCoins') =
            (if \<not> coIsZero K lockupCoins' \<and> length vestingPeriods = 0
             then ([\<lparr>Length = 0, Amount = lockupCoins'\<rparr>], lockupCoins')
             else (vestingPeriods, vestingCoins))
      in (lockupPeriods', vestingPeriods', lockupCoins', vestingCoins'))"

section \<open>The message handlers\<close>

definition CreateClawbackVestingAccount :: "('s, 'c, 'v) vest_env \<Rightarrow> 'c coins_api \<Rightarrow> addr_api \<Rightarrow> 's \<Rightarrow>
    'c msg_create \<Rightarrow> 's result" where
  "CreateClawbackVestingAccount E K X s msg =
     bind_r (mustAcc X (mFromAddress msg)) (\<lambda>funderAddress.
     bind_r (mustAcc X (mToAddress msg)) (\<lambda>vestingAddress.
     if bk_BlockedAddr E vestingAddress then Inl (Wrapf ErrUnauthorized ''not allowed to receive funds'')
     else
      (let (lockupPeriods, vestingPeriods, lockupCoins, vestingCoins) =
             default_schedules K (mLockupPeriods msg) (mVestingPeriods msg) in
       if \<not> (coIsAllLTE K vestingCoins lockupCoins \<and> coIsAllLTE K lockupCoins vestingCoins)
       then Inl (Wrapf ErrInvalidRequest ''lockup and vesting amounts must be equal'')
       else
        bind_r
         (case ak_GetAccount E s vestingAddress of
            Some acc \<Rightarrow>
             (case acc of
                ClawbackAcc vestingAcc \<Rightarrow>
                 if \<not> mMerge msg then Inl (Wrapf ErrInvalidRequest ''account already exists; consider using --merge'')
                 else if mFromAddress msg \<noteq> FunderAddress vestingAcc
                 then Inl (Wrapf ErrInvalidRequest ''account can only accept grants from its funder'')
                 else bind_r (addGrant E K s vestingAcc (mStartTime msg) lockupPeriods vestingPeriods vestingCoins)
                        (\<lambda>va. Inr (ak_SetAccount E s (ClawbackAcc va)))
              | _ \<Rightarrow>
                 if \<not> mMerge msg then Inl (Wrapf ErrInvalidRequest ''account already exists'')
                 else Inl (Wrapf ErrNotSupported ''account must be a clawback vesting account''))
          | None \<Rightarrow>
             (let baseAcc = ak_NewBaseAccountWithAddress E vestingAddress;
                  vestingAcc = NewClawbackVestingAccount K X baseAcc funderAddress vestingCoins
                    (mStartTime msg) lockupPeriods vestingPeriods (Some (emptyCodeHash X));
                  (s1, acc) = ak_NewAccount E s (ClawbackAcc vestingAcc)
              in Inr (ak_SetAccount E s1 acc)))
         (\<lambda>s2. bk_SendCoins E s2 funderAddress vestingAddress vestingCoins))))"

definition transferClawback :: "('s, 'c, 'v) vest_env \<Rightarrow> 'c coins_api \<Rightarrow> addr_api \<Rightarrow> int \<Rightarrow> 's \<Rightarrow>
    'c clawback_account \<Rightarrow> acc_address \<Rightarrow> 's result" where
  "transferClawback E K X blockTime s va dest =
     bind_r (ComputeClawback K va blockTime) (\<lambda>(updatedAcc, toClawBack).
     if coIsZero K toClawBack then Inr s
     else
      (let s1 = ak_SetAccount E s (ClawbackAcc updatedAcc);
           addr = ak_GetAddress E (BaseAccount updatedAcc)
       in if accString X dest = accString X (ak_GetModuleAddress E ''distribution'')
          then dk_FundCommunityPool E s1 toClawBack addr
          else bk_SendCoins E s1 addr dest toClawBack))"

text \<open>
  The destination defaults to the funder; \<^verbatim>\<open>AccAddressFromBech32\<close>'s error is ignored, and its
  address is then the empty one.
\<close>

definition clawback_dest :: "addr_api \<Rightarrow> msg_clawback \<Rightarrow> acc_address \<Rightarrow> acc_address" where
  "clawback_dest X msg funder = (if mcDestAddress msg = '''' then funder
     else (case accFromBech32 X (mcDestAddress msg) of None \<Rightarrow> [] | Some a \<Rightarrow> a))"

definition Clawback :: "('s, 'c, 'v) vest_env \<Rightarrow> 'c coins_api \<Rightarrow> addr_api \<Rightarrow> int \<Rightarrow> 's \<Rightarrow>
    msg_clawback \<Rightarrow> 's result" where
  "Clawback E K X blockTime s msg =
     bind_r (mustAcc X (mcAccountAddress msg)) (\<lambda>addr.
     bind_r (mustAcc X (mcFunderAddress msg)) (\<lambda>funder.
     let dest = clawback_dest X msg funder in
     if bk_BlockedAddr E dest then Inl (Wrapf ErrUnauthorized ''blocked address and not allowed to receive funds'')
     else
      bind_r (GetClawbackVestingAccount E s addr) (\<lambda>va.
      if length (VestingPeriods va) = 0 \<and> length (LockupPeriods va) = 0
      then Inl (Wrapf ErrInvalidRequest ''account has no vesting or lockup periods'')
      else if FunderAddress va \<noteq> accString X funder
      then Inl (Wrapf ErrUnauthorized ''clawback can only be requested by original funder'')
      else transferClawback E K X blockTime s va dest)))"

definition UpdateVestingFunder :: "('s, 'c, 'v) vest_env \<Rightarrow> addr_api \<Rightarrow> 's \<Rightarrow> msg_update_funder \<Rightarrow> 's result" where
  "UpdateVestingFunder E X s msg =
     bind_r (mustAcc X (muNewFunderAddress msg)) (\<lambda>newFunder.
     bind_r (mustAcc X (muVestingAddress msg)) (\<lambda>vestingAccAddr.
     if bk_BlockedAddr E newFunder
     then Inl (Wrapf ErrUnauthorized ''blocked address and not allowed to fund vesting accounts'')
     else
      bind_r (GetClawbackVestingAccount E s vestingAccAddr) (\<lambda>va.
      if FunderAddress va \<noteq> muFunderAddress msg
      then Inl (Wrapf ErrUnauthorized ''not the current funder and cannot update the funder address'')
      else Inr (ak_SetAccount E s (ClawbackAcc (va\<lparr>FunderAddress := muNewFunderAddress msg\<rparr>))))))"

definition ConvertVestingAccount :: "('s, 'c, 'v) vest_env \<Rightarrow> 'c coins_api \<Rightarrow> addr_api \<Rightarrow> int \<Rightarrow> 's \<Rightarrow>
    string \<Rightarrow> 's result" where
  "ConvertVestingAccount E K X blockTime s vestingAddress =
     bind_r (mustAcc X vestingAddress) (\<lambda>address.
     bind_r (GetClawbackVestingAccount E s address) (\<lambda>vestingAcc.
     bind_r (GetVestingCoins K vestingAcc blockTime) (\<lambda>vestingCoins.
     if \<not> coIsZero K vestingCoins then Inl (Wrapf ErrInvalidRequest ''vesting coins still left in account'')
     else
      bind_r (HasLockedCoins K vestingAcc blockTime) (\<lambda>hasLocked.
      if hasLocked then Inl (Wrapf ErrInvalidRequest ''locked up coins still left in account'')
      else Inr (ak_SetAccount E s (EthAcc
        \<lparr>ethBaseAccount = BaseAccount vestingAcc,
         ethCodeHash = hashHex X (ClawbackVestingAccount_GetCodeHash X vestingAcc)\<rparr>))))))"

definition EthAccount_Type :: "addr_api \<Rightarrow> eth_account \<Rightarrow> nat" where
  "EthAccount_Type X acc = (if emptyCodeHash X = hexToHash X (ethCodeHash acc) then 1 else 2)"

text \<open>
  \<open>ApplyVestingSchedule\<close> returns the state, the vesting account and the flags
  \<^verbatim>\<open>newAccountCreated\<close> and \<^verbatim>\<open>wasMerged\<close>. \<^verbatim>\<open>NewAccount\<close> numbers the account in place,
  so the vesting account returned is the one it hands back.
\<close>

definition ApplyVestingSchedule :: "('s, 'c, 'v) vest_env \<Rightarrow> 'c coins_api \<Rightarrow> addr_api \<Rightarrow> 's \<Rightarrow>
    acc_address \<Rightarrow> acc_address \<Rightarrow> 'c \<Rightarrow> int \<Rightarrow> 'c period list \<Rightarrow> 'c period list \<Rightarrow> bool \<Rightarrow>
    ('s \<times> 'c clawback_account \<times> bool \<times> bool) result" where
  "ApplyVestingSchedule E K X s funder funded coins startTime lockupPeriods vestingPeriods merge =
     (case ak_GetAccount E s funded of
        None \<Rightarrow>
         (let baseAcc = ak_NewBaseAccountWithAddress E funded;
              vestingAcc = NewClawbackVestingAccount K X baseAcc funder coins startTime
                lockupPeriods vestingPeriods (Some (emptyCodeHash X));
              (s1, acc) = ak_NewAccount E s (ClawbackAcc vestingAcc)
          in Inr (ak_SetAccount E s1 acc, (case acc of ClawbackAcc va \<Rightarrow> va | _ \<Rightarrow> vestingAcc), True, False))
      | Some (OtherAcc _) \<Rightarrow>
          Inl (Wrapf ErrApplyShedule ''account already exists but cannot be converted into vesting account'')
      | Some (EthAcc ethAcc) \<Rightarrow>
         (let codeHash = hexToHash X (ethCodeHash ethAcc);
              vestingAcc = NewClawbackVestingAccount K X (ethBaseAccount ethAcc) funder coins startTime
                lockupPeriods vestingPeriods (Some codeHash);
              addr = ak_GetAddress E (BaseAccount vestingAcc) in
          bind_r (wrap_req ''failed to get bonded amount'' (sk_GetDelegatorBonded E s addr)) (\<lambda>bondedAmt.
          bind_r (wrap_req ''failed to get unbonding amount'' (sk_GetDelegatorUnbonding E s addr)) (\<lambda>unbondingAmt.
          bind_r (wrap_req ''failed to get bond denom'' (sk_BondDenom E s)) (\<lambda>bondedDenom.
          bind_r (newCoins1 K bondedDenom (bondedAmt + unbondingAmt)) (\<lambda>delegatedFree.
          let vestingAcc' = vestingAcc\<lparr>DelegatedFree := delegatedFree\<rparr>
          in Inr (ak_SetAccount E s (ClawbackAcc vestingAcc'), vestingAcc', False, False))))))
      | Some (ClawbackAcc vestingAcc) \<Rightarrow>
          if \<not> merge then Inl (Wrapf ErrApplyShedule ''account already exists; consider using --merge'')
          else if accString X funder \<noteq> FunderAddress vestingAcc
          then Inl (Wrapf ErrApplyShedule ''account can only accept grants from its funder'')
          else
            bind_r (addGrant E K s vestingAcc (Min64 startTime (StartTime vestingAcc))
                      lockupPeriods vestingPeriods coins) (\<lambda>va.
            Inr (ak_SetAccount E s (ClawbackAcc va), va, False, True)))"

definition delegateVestedCoins :: "('s, 'c, 'v) vest_env \<Rightarrow> 'c coins_api \<Rightarrow> addr_api \<Rightarrow> int \<Rightarrow> 's \<Rightarrow>
    acc_address \<Rightarrow> 'c period list \<Rightarrow> 'c msg_convert \<Rightarrow> 's result" where
  "delegateVestedCoins E K X blockTime s delegator vestingPeriods msg =
     bind_r (of_option (Wrapf ErrInvalidAddress ''invalid validator address'')
               (valFromBech32 X (mValidatorAddress msg))) (\<lambda>valAddress.
     bind_r (wrap_req ''failed to get validator'' (sk_GetValidator E s valAddress)) (\<lambda>validator.
     let (newVestingStart, newVestingEnd, _) =
           DisjunctPeriods K (mStartTime msg) (mStartTime msg) vestingPeriods vestingPeriods;
         vestedCoins = ReadSchedule K newVestingStart newVestingEnd vestingPeriods
           (coTotalAmount K vestingPeriods) blockTime in
     if coIsZero K vestedCoins
     then Inl (Wrapf ErrInvalidRequest ''no vested coins to delegate immediately, check your vesting schedule'')
     else
      bind_r (wrap_req ''failed to get bond denom'' (sk_BondDenom E s)) (\<lambda>bondDenom.
      let (found, amountToDelegate) = coFind K vestedCoins bondDenom in
      if \<not> found \<or> Amt amountToDelegate = 0
      then Inl (Wrapf ErrInvalidRequest ''coin denom not match bonding denom, check your vesting schedule'')
      else sk_Delegate E s delegator (Amt amountToDelegate) validator)))"

definition ConvertIntoVestingAccount :: "('s, 'c, 'v) vest_env \<Rightarrow> 'c coins_api \<Rightarrow> addr_api \<Rightarrow> int \<Rightarrow> 's \<Rightarrow>
    'c msg_convert \<Rightarrow> 's result" where
  "ConvertIntoVestingAccount E K X blockTime s msg =
     bind_r (mustAcc X (mFromAddress msg)) (\<lambda>fromAcc.
     let toAcc = (case accFromBech32 X (mToAddress msg) of
                  Some a \<Rightarrow> a | None \<Rightarrow> hexToAddress X (mToAddress msg)) in
     if \<not> verifyAddressFormat X toAcc then Inl (Wrapf ErrInvalidAddress ''not valid address'')
     else if bk_BlockedAddr E toAcc then Inl (Wrapf ErrUnauthorized ''not allowed to be converted into vesting'')
     else if (case ak_GetAccount E s toAcc of
                Some (EthAcc ethAcc) \<Rightarrow> EthAccount_Type X ethAcc = 2 | _ \<Rightarrow> False)
     then Inl (Wrapf ErrInvalidRequest ''account is a contract account and cannot be converted in a clawback vesting account'')
     else
      (let (lockupPeriods, vestingPeriods, lockupCoins, vestingCoins) =
             default_schedules K (mLockupPeriods msg) (mVestingPeriods msg) in
       if \<not> (coIsAllLTE K vestingCoins lockupCoins \<and> coIsAllLTE K lockupCoins vestingCoins)
       then Inl (Wrapf ErrInvalidRequest ''lockup and vesting amounts must be equal'')
       else
        bind_r (wrap_req ''failed to apply schedule''
                 (ApplyVestingSchedule E K X s fromAcc toAcc vestingCoins (mStartTime msg)
                    lockupPeriods vestingPeriods (mMerge msg))) (\<lambda>(s1, _, _, _).
        bind_r (bk_SendCoins E s1 fromAcc toAcc vestingCoins) (\<lambda>s2.
        if mStake msg
        then wrap_req ''failed to delegate vested coins''
               (delegateVestedCoins E K X blockTime s2 toAcc vestingPeriods msg)
        else Inr s2))))"

text \<open>The query: locked, unvested and vested coins of an account.\<close>

definition Balances :: "('s, 'c, 'v) vest_env \<Rightarrow> 'c coins_api \<Rightarrow> addr_api \<Rightarrow> int \<Rightarrow> 's \<Rightarrow> string option \<Rightarrow>
    ('c \<times> 'c \<times> 'c) result" where
  "Balances E K X blockTime s req =
     (case req of
        None \<Rightarrow> Inl (Errorf ''InvalidArgument: empty request'')
      | Some address \<Rightarrow>
          bind_r (of_option (Errorf ''InvalidArgument'') (accFromBech32 X address)) (\<lambda>addr.
          case GetClawbackVestingAccount E s addr of
            Inl _ \<Rightarrow> Inl (Errorf ''InvalidArgument: account either does not exist or is not a vesting account'')
          | Inr va \<Rightarrow>
              bind_r (GetLockedUpCoins K va blockTime) (\<lambda>locked.
              bind_r (GetVestingCoins K va blockTime) (\<lambda>unvested.
              Inr (locked, unvested, GetVestedCoins K va blockTime)))))"

section \<open>What the expected keepers promise\<close>

text \<open>
  A bank operation keeps every existing account; it may create one for a recipient, which
  is then a default account under its own address.
\<close>

definition accounts_kept :: "('s, 'c, 'v) vest_env \<Rightarrow> 's \<Rightarrow> 's \<Rightarrow> bool" where
  "accounts_kept E s s' \<longleftrightarrow>
     (\<forall>a acc. ak_GetAccount E s a = Some acc \<longrightarrow> ak_GetAccount E s' a = Some acc) \<and>
     (\<forall>a acc. ak_GetAccount E s a = None \<longrightarrow> ak_GetAccount E s' a = Some acc \<longrightarrow>
        ak_GetAddress E (base_of acc) = a \<and> (\<forall>va. acc \<noteq> ClawbackAcc va))"

text \<open>The coins \<open>c\<close> are moved from \<open>f\<close> to \<open>t\<close> and no other balance changes.\<close>

definition moved :: "('s, 'c, 'v) vest_env \<Rightarrow> 'c coins_api \<Rightarrow> acc_address \<Rightarrow> acc_address \<Rightarrow> 'c \<Rightarrow> 's \<Rightarrow> 's \<Rightarrow> bool" where
  "moved E K f t c s s' \<longleftrightarrow>
     (\<forall>a d. coAmountOf K (bk_GetAllBalances E s' a) d = coAmountOf K (bk_GetAllBalances E s a) d
        - (if a = f then coAmountOf K c d else 0) + (if a = t then coAmountOf K c d else 0))"

locale vest_laws = coins_laws K denom_ok + addr_laws X
  for K :: "'c coins_api" and denom_ok :: "string \<Rightarrow> bool" and X :: addr_api +
  fixes E :: "('s, 'c, 'v) vest_env"
  assumes get_set: "ak_GetAccount E (ak_SetAccount E s acc) a =
      (if a = ak_GetAddress E (base_of acc) then Some acc else ak_GetAccount E s a)"
    and balances_set: "bk_GetAllBalances E (ak_SetAccount E s acc) = bk_GetAllBalances E s"
    and address_new_base: "ak_GetAddress E (ak_NewBaseAccountWithAddress E a) = a"
    and address_by_string: "Address base = Address base' \<Longrightarrow> ak_GetAddress E base = ak_GetAddress E base'"
    and new_account: "ak_NewAccount E s (ClawbackAcc va) = (s1, acc) \<Longrightarrow>
      ak_GetAccount E s1 = ak_GetAccount E s \<and> bk_GetAllBalances E s1 = bk_GetAllBalances E s \<and>
      (\<exists>n. acc = ClawbackAcc (va\<lparr>BaseAccount := (BaseAccount va)\<lparr>AccountNumber := n\<rparr>\<rparr>))"
    and send_moves: "bk_SendCoins E s f t c = Inr s' \<Longrightarrow> coIsValid K c \<Longrightarrow> moved E K f t c s s'"
    and send_accounts: "bk_SendCoins E s f t c = Inr s' \<Longrightarrow> accounts_kept E s s'"
    and fund_moves: "dk_FundCommunityPool E s c f = Inr s' \<Longrightarrow> coIsValid K c \<Longrightarrow>
      moved E K f (ak_GetModuleAddress E ''distribution'') c s s'"
    and fund_accounts: "dk_FundCommunityPool E s c f = Inr s' \<Longrightarrow> accounts_kept E s s'"
    and delegate_accounts: "sk_Delegate E s a n v = Inr s' \<Longrightarrow> ak_GetAccount E s' b = Some acc \<Longrightarrow>
      ak_GetAccount E s b = Some acc \<or>
      (\<exists>va df dv. ak_GetAccount E s b = Some (ClawbackAcc va) \<and> coIsValid K df \<and> coIsValid K dv \<and>
         acc = ClawbackAcc (va\<lparr>DelegatedFree := df, DelegatedVesting := dv\<rparr>)) \<or>
      (ak_GetAddress E (base_of acc) = b \<and> (\<forall>va. acc \<noteq> ClawbackAcc va))"

section \<open>The module's invariant\<close>

text \<open>Every account is stored under its own address, and the vesting accounts are well formed.\<close>

definition vest_inv :: "('s, 'c, 'v) vest_env \<Rightarrow> 'c coins_api \<Rightarrow> 's \<Rightarrow> bool" where
  "vest_inv E K s \<longleftrightarrow> (\<forall>a acc. ak_GetAccount E s a = Some acc \<longrightarrow>
     ak_GetAddress E (base_of acc) = a \<and> (\<forall>va. acc = ClawbackAcc va \<longrightarrow> account_ok K va))"

lemma vest_invD:
  "vest_inv E K s \<Longrightarrow> ak_GetAccount E s a = Some acc \<Longrightarrow> ak_GetAddress E (base_of acc) = a"
  "vest_inv E K s \<Longrightarrow> ak_GetAccount E s a = Some (ClawbackAcc va) \<Longrightarrow> account_ok K va"
  "vest_inv E K s \<Longrightarrow> ak_GetAccount E s a = Some (ClawbackAcc va) \<Longrightarrow> ak_GetAddress E (BaseAccount va) = a"
  unfolding vest_inv_def by fastforce+

lemma account_ok_delegated:
  "account_ok K va \<Longrightarrow> coIsValid K df \<Longrightarrow> account_ok K (va\<lparr>DelegatedFree := df\<rparr>)"
  "account_ok K va \<Longrightarrow> coIsValid K dv \<Longrightarrow> account_ok K (va\<lparr>DelegatedVesting := dv\<rparr>)"
  "account_ok K va \<Longrightarrow> account_ok K (va\<lparr>FunderAddress := f\<rparr>)"
  by (auto simp: account_ok_def)

lemma vest_inv_kept: "vest_inv E K s \<Longrightarrow> accounts_kept E s s' \<Longrightarrow> vest_inv E K s'"
  unfolding vest_inv_def accounts_kept_def by (metis not_None_eq option.inject)

lemma GetClawbackVestingAccount_Inr [simp]:
  "GetClawbackVestingAccount E s a = Inr va \<longleftrightarrow> ak_GetAccount E s a = Some (ClawbackAcc va)"
  by (auto simp: GetClawbackVestingAccount_def split: option.splits account.splits)

lemma mustAcc_Inr [simp]: "mustAcc X s = Inr a \<longleftrightarrow> accFromBech32 X s = Some a"
  by (auto simp: mustAcc_def of_option_def split: option.splits)

lemma guard_Inr [simp]: "(if b then Inl e else r) = Inr x \<longleftrightarrow> \<not> b \<and> r = Inr x"
  by simp

lemma wrap_req_Inr [simp]: "wrap_req m r = Inr x \<longleftrightarrow> r = Inr x"
  by (auto simp: wrap_req_def split: sum.splits err.splits)

text \<open>The transactions of the module, with the time bounds of their schedules, and bank transfers.\<close>

inductive vest_step :: "('s, 'c, 'v) vest_env \<Rightarrow> 'c coins_api \<Rightarrow> addr_api \<Rightarrow> 's \<Rightarrow> 's \<Rightarrow> bool"
  for E K X where
  create: "CreateClawbackVestingAccount E K X s msg = Inr s' \<Longrightarrow>
    sched_ok K (mStartTime msg) (mLockupPeriods msg) \<Longrightarrow> sched_ok K (mStartTime msg) (mVestingPeriods msg) \<Longrightarrow>
    vest_step E K X s s'"
| clawback: "Clawback E K X blockTime s cmsg = Inr s' \<Longrightarrow> vest_step E K X s s'"
| update_funder: "UpdateVestingFunder E X s umsg = Inr s' \<Longrightarrow> vest_step E K X s s'"
| convert: "ConvertVestingAccount E K X blockTime s vestingAddress = Inr s' \<Longrightarrow> vest_step E K X s s'"
| convert_into: "ConvertIntoVestingAccount E K X blockTime s imsg = Inr s' \<Longrightarrow>
    sched_ok K (mStartTime imsg) (mLockupPeriods imsg) \<Longrightarrow> sched_ok K (mStartTime imsg) (mVestingPeriods imsg) \<Longrightarrow>
    vest_step E K X s s'"
| transfer: "bk_SendCoins E s f t c = Inr s' \<Longrightarrow> vest_step E K X s s'"

context vest_laws
begin

lemma vest_inv_set:
  "vest_inv E K s \<Longrightarrow> (\<And>va. acc = ClawbackAcc va \<Longrightarrow> account_ok K va) \<Longrightarrow> vest_inv E K (ak_SetAccount E s acc)"
  unfolding vest_inv_def by (auto simp: get_set)

lemma moved_set: "moved E K f t c (ak_SetAccount E s acc) s' = moved E K f t c s s'"
  by (simp add: moved_def balances_set)

lemma sched_amounts:
  assumes "sched_ok K s ps"
  shows "coIsValid K (coTotalAmount K ps)" "coAmountOf K (coTotalAmount K ps) d = total_amount K ps d"
proof -
  have "coIsValid K (Amount p)" if "p \<in> set ps" for p
    using assms that by (simp add: sched_ok_def list_all_iff)
  then show "coIsValid K (coTotalAmount K ps)" "coAmountOf K (coTotalAmount K ps) d = total_amount K ps d"
    by (simp_all add: valid_total_amount amount_total_amount total_amount_def)
qed

lemma default_schedules_ok:
  assumes "sched_ok K s lp" "sched_ok K s vp" "default_schedules K lp vp = (lp', vp', lc, vc)"
    "coIsAllLTE K vc lc" "coIsAllLTE K lc vc"
  shows "grant_ok K s lp' vp' vc"
    "coAmountOf K vc d = max (total_amount K lp d) (total_amount K vp d)"
proof -
  note l = sched_amounts[OF assms(1)] and v = sched_amounts[OF assms(2)]
  have s: "sched_ok K s [\<lparr>Length = 0, Amount = c\<rparr>]" if "coIsValid K c" for c
    using assms(1) that by (simp add: sched_ok_def)
  have t: "total_amount K [\<lparr>Length = n, Amount = c\<rparr>] d = coAmountOf K c d" for n c d
    by simp
  have n: "0 \<le> total_amount K lp d" "0 \<le> total_amount K vp d" for d
    using amount_nonneg[OF l(1), of d] amount_nonneg[OF v(1), of d] l(2) v(2) by simp_all
  have lte: "coIsValid K vc" "coIsValid K lc" "\<And>d. coAmountOf K vc d = coAmountOf K lc d"
    using assms(3-5) l v
    by (auto simp: default_schedules_def Let_def all_lte antisym split: if_splits)
  show "grant_ok K s lp' vp' vc"
    using assms(1-3) lte s l v
    by (auto simp: grant_ok_def default_schedules_def Let_def t split: if_splits)
  show "coAmountOf K vc d = max (total_amount K lp d) (total_amount K vp d)"
    using assms(1-3) lte l v n[of d] is_zero
    by (fastforce simp: default_schedules_def Let_def split: if_splits)
qed

lemma newCoins1_ok: "newCoins1 K denom n = Inr c \<Longrightarrow> coIsValid K c"
  by (auto simp: newCoins1_def bind_r_def of_option_def new_coin valid_new_coins split: if_splits)

lemma addGrant_ok:
  assumes ok: "account_ok K va" and g: "grant_ok K gs gl gv gc" and r: "addGrant E K s va gs gl gv gc = Inr va'"
  shows "account_ok K va'"
    "coAmountOf K (OriginalVesting va') d = coAmountOf K (OriginalVesting va) d + coAmountOf K gc d"
    "released K (StartTime va') (VestingPeriods va') t d =
       released K (StartTime va) (VestingPeriods va) t d + released K gs gv t d"
    "released K (StartTime va') (LockupPeriods va') t d =
       released K (StartTime va) (LockupPeriods va) t d + released K gs gl t d"
    "BaseAccount va' = BaseAccount va" "FunderAddress va' = FunderAddress va" "CodeHash va' = CodeHash va"
    "StartTime va' = min (StartTime va) gs"
proof -
  note [simp] = account_okD[OF ok]
  have gs: "sched_ok K gs gl" "sched_ok K gs gv" and gc [simp]: "coIsValid K gc"
    and gt: "\<And>d. total_amount K gl d = coAmountOf K gc d" "\<And>d. total_amount K gv d = coAmountOf K gc d"
    using g by (simp_all add: grant_ok_def)
  obtain lp where lp: "DisjunctPeriods K (StartTime va) gs (LockupPeriods va) gl =
      (min (StartTime va) gs, min (StartTime va) gs + total_length lp, lp)"
    "sched_ok K (min (StartTime va) gs) lp"
    "\<And>t d. released K (min (StartTime va) gs) lp t d =
       released K (StartTime va) (LockupPeriods va) t d + released K gs gl t d"
    "\<And>d. total_amount K lp d = total_amount K (LockupPeriods va) d + total_amount K gl d"
    using DisjunctPeriods_ok[OF account_okD(1)[OF ok] gs(1)] by metis
  obtain vp where vp: "DisjunctPeriods K (StartTime va) gs (VestingPeriods va) gv =
      (min (StartTime va) gs, min (StartTime va) gs + total_length vp, vp)"
    "sched_ok K (min (StartTime va) gs) vp"
    "\<And>t d. released K (min (StartTime va) gs) vp t d =
       released K (StartTime va) (VestingPeriods va) t d + released K gs gv t d"
    "\<And>d. total_amount K vp d = total_amount K (VestingPeriods va) d + total_amount K gv d"
    using DisjunctPeriods_ok[OF account_okD(2)[OF ok] gs(2)] by metis
  let ?va = "\<lambda>df. va\<lparr>StartTime := min (StartTime va) gs,
      EndTime := Max64 (min (StartTime va) gs + total_length lp) (min (StartTime va) gs + total_length vp),
      LockupPeriods := lp, VestingPeriods := vp, OriginalVesting := coAdd K (OriginalVesting va) gc,
      DelegatedVesting := coEmpty K, DelegatedFree := df\<rparr>"
  have "\<exists>df denom n. newCoins1 K denom n = Inr df \<and> va' = ?va df"
    using r by (auto simp: addGrant_def Let_def lp(1) vp(1) bind_r_eq_Inr)
  then obtain df where df: "coIsValid K df" and va': "va' = ?va df" using newCoins1_ok by blast
  show "account_ok K va'"
    using lp(2,4) vp(2,4) df gt account_okD(8,9)[OF ok]
    by (simp add: account_ok_def va' Max64_def valid_add valid_empty amount_add)
  show "coAmountOf K (OriginalVesting va') d = coAmountOf K (OriginalVesting va) d + coAmountOf K gc d"
    by (simp add: va' amount_add)
  show "released K (StartTime va') (VestingPeriods va') t d =
      released K (StartTime va) (VestingPeriods va) t d + released K gs gv t d"
    "released K (StartTime va') (LockupPeriods va') t d =
      released K (StartTime va) (LockupPeriods va) t d + released K gs gl t d"
    by (simp_all add: va' lp(3) vp(3))
  show "BaseAccount va' = BaseAccount va" "FunderAddress va' = FunderAddress va" "CodeHash va' = CodeHash va"
    "StartTime va' = min (StartTime va) gs" by (simp_all add: va')
qed

lemma numbered_ok: "account_ok K (va\<lparr>BaseAccount := b\<rparr>) = account_ok K va"
  by (simp add: account_ok_def)

lemma new_account_ok:
  assumes "vest_inv E K s" "grant_ok K st lp vp c"
    "ak_NewAccount E s (ClawbackAcc (NewClawbackVestingAccount K X (ak_NewBaseAccountWithAddress E a) f c st lp vp code)) = (s1, acc)"
  obtains va where "acc = ClawbackAcc va" "account_ok K va" "vest_inv E K (ak_SetAccount E s1 acc)"
    "ak_GetAccount E (ak_SetAccount E s1 acc) a = Some acc"
    "bk_GetAllBalances E (ak_SetAccount E s1 acc) = bk_GetAllBalances E s"
    "OriginalVesting va = c" "StartTime va = st" "FunderAddress va = accString X f"
proof -
  let ?va = "NewClawbackVestingAccount K X (ak_NewBaseAccountWithAddress E a) f c st lp vp code"
  obtain n where n: "acc = ClawbackAcc (?va\<lparr>BaseAccount := (BaseAccount ?va)\<lparr>AccountNumber := n\<rparr>\<rparr>)"
    and s1: "ak_GetAccount E s1 = ak_GetAccount E s" "bk_GetAllBalances E s1 = bk_GetAllBalances E s"
    using new_account[OF assms(3)] by auto
  have base: "BaseAccount ?va = ak_NewBaseAccountWithAddress E a" "OriginalVesting ?va = c" "StartTime ?va = st"
      "FunderAddress ?va = accString X f"
    by (simp_all add: NewClawbackVestingAccount_def split: prod.splits)
  have ok: "account_ok K (?va\<lparr>BaseAccount := b\<rparr>)" for b
    unfolding numbered_ok by (rule NewClawbackVestingAccount_ok[OF assms(2)])
  have addr: "ak_GetAddress E (base_of acc) = a"
    using address_new_base[of a] address_by_string[of "ak_NewBaseAccountWithAddress E a\<lparr>AccountNumber := n\<rparr>"]
    by (simp add: n base)
  have "vest_inv E K (ak_SetAccount E s1 acc)"
    using assms(1) ok by (intro vest_inv_set) (auto simp: vest_inv_def s1 n)
  then show ?thesis
    using that[OF n] ok addr by (simp add: get_set balances_set s1 base)
qed

lemma transferClawback_ok:
  assumes inv: "vest_inv E K s" and a: "ak_GetAccount E s addr = Some (ClawbackAcc va)"
    and r: "transferClawback E K X t s va dest = Inr s'"
  obtains va' c where "ComputeClawback K va t = Inr (va', c)" "coIsValid K c"
    "coIsZero K c \<Longrightarrow> s' = s"
    "\<not> coIsZero K c \<Longrightarrow> vest_inv E K s' \<and> ak_GetAccount E s' addr = Some (ClawbackAcc va') \<and>
       moved E K addr dest c s s'"
proof -
  note ok = vest_invD(2)[OF inv a]
  obtain va' c where vc: "ComputeClawback K va t = Inr (va', c)" "account_ok K va'" "coIsValid K c"
    "va' = va\<lparr>OriginalVesting := OriginalVesting va', EndTime := EndTime va',
       LockupPeriods := LockupPeriods va', VestingPeriods := VestingPeriods va'\<rparr>"
    using ComputeClawback_ok[OF ok, of t] by metis
  have "BaseAccount va' = BaseAccount va" by (subst vc(4)) simp
  then have addr: "ak_GetAddress E (BaseAccount va') = addr" using vest_invD(3)[OF inv a] by simp
  let ?s1 = "ak_SetAccount E s (ClawbackAcc va')"
  have inv1: "vest_inv E K ?s1" and get1: "ak_GetAccount E ?s1 addr = Some (ClawbackAcc va')"
    using vest_inv_set[OF inv] vc(2) by (auto simp: get_set addr)
  have "accounts_kept E ?s1 s' \<and> moved E K addr dest c ?s1 s'" if "\<not> coIsZero K c"
    using r that vc(3)
    by (auto simp: transferClawback_def vc(1) addr Let_def split: if_splits
        intro: send_accounts send_moves fund_accounts dest!: string_inj intro: fund_moves)
  then show ?thesis
    using that[OF vc(1,3)] r vest_inv_kept[OF inv1] get1
    by (auto simp: transferClawback_def vc(1) moved_set accounts_kept_def split: if_splits)
qed

end

text \<open>The original vesting of the account at an address; none when it is not a vesting account.\<close>

definition original_at :: "('s, 'c, 'v) vest_env \<Rightarrow> 'c coins_api \<Rightarrow> 's \<Rightarrow> acc_address \<Rightarrow> string \<Rightarrow> int" where
  "original_at E K s a d = (case ak_GetAccount E s a of
     Some (ClawbackAcc va) \<Rightarrow> coAmountOf K (OriginalVesting va) d | _ \<Rightarrow> 0)"

lemma sched_ok_earlier:
  assumes "sched_ok K s ps" "time_ok s'" "s' \<le> s"
  shows "sched_ok K s' ps"
proof -
  have "0 \<le> total_length ps" using assms(1) total_length_nonneg by (auto simp: sched_ok_def)
  then show ?thesis using assms by (auto simp: sched_ok_def time_ok_def)
qed

lemma grant_ok_earlier: "grant_ok K s lp vp c \<Longrightarrow> time_ok s' \<Longrightarrow> s' \<le> s \<Longrightarrow> grant_ok K s' lp vp c"
  by (auto simp: grant_ok_def intro: sched_ok_earlier)

context vest_laws
begin

lemma ApplyVestingSchedule_ok:
  assumes inv: "vest_inv E K s" and g: "grant_ok K st lp vp c"
    and r: "ApplyVestingSchedule E K X s funder funded c st lp vp merge = Inr (s', va, created, merged)"
  shows "vest_inv E K s'" "ak_GetAccount E s' funded = Some (ClawbackAcc va)"
    "bk_GetAllBalances E s' = bk_GetAllBalances E s"
    "coAmountOf K (OriginalVesting va) d = original_at E K s funded d + coAmountOf K c d"
proof -
  have "vest_inv E K s' \<and> ak_GetAccount E s' funded = Some (ClawbackAcc va) \<and>
    bk_GetAllBalances E s' = bk_GetAllBalances E s \<and>
    coAmountOf K (OriginalVesting va) d = original_at E K s funded d + coAmountOf K c d"
  proof (cases "ak_GetAccount E s funded")
    case None
    let ?va = "NewClawbackVestingAccount K X (ak_NewBaseAccountWithAddress E funded) funder c st lp vp (Some (emptyCodeHash X))"
    obtain s1 acc where na: "ak_NewAccount E s (ClawbackAcc ?va) = (s1, acc)" by (cases "ak_NewAccount E s (ClawbackAcc ?va)")
    from new_account_ok[OF inv g na] obtain va1 where "acc = ClawbackAcc va1" "vest_inv E K (ak_SetAccount E s1 acc)"
      "ak_GetAccount E (ak_SetAccount E s1 acc) funded = Some acc"
      "bk_GetAllBalances E (ak_SetAccount E s1 acc) = bk_GetAllBalances E s" "OriginalVesting va1 = c" by metis
    then show ?thesis
      using r None na by (auto simp: ApplyVestingSchedule_def original_at_def Let_def)
  next
    case (Some acc)
    note addr = vest_invD(1)[OF inv Some]
    show ?thesis
    proof (cases acc)
      case (ClawbackAcc va0)
      have g': "grant_ok K (Min64 st (StartTime va0)) lp vp c"
        using grant_ok_earlier[OF g, of "Min64 st (StartTime va0)"] g vest_invD(2)[OF inv Some[unfolded ClawbackAcc]]
        by (auto simp: Min64_def grant_ok_def sched_ok_def account_ok_def)
      note ag = addGrant_ok[OF vest_invD(2)[OF inv Some[unfolded ClawbackAcc]] g']
      have "addGrant E K s va0 (Min64 st (StartTime va0)) lp vp c = Inr va" "s' = ak_SetAccount E s (ClawbackAcc va)"
        using r Some ClawbackAcc by (auto simp: ApplyVestingSchedule_def bind_r_eq_Inr split: if_splits)
      with ag[OF this(1)] show ?thesis
        using vest_inv_set[OF inv, of "ClawbackAcc va"] addr
        by (simp add: get_set balances_set original_at_def Some ClawbackAcc)
    next
      case (EthAcc e)
      let ?va = "NewClawbackVestingAccount K X (ethBaseAccount e) funder c st lp vp (Some (hexToHash X (ethCodeHash e)))"
      have "\<exists>df denom n. newCoins1 K denom n = Inr df \<and> va = ?va\<lparr>DelegatedFree := df\<rparr> \<and>
          s' = ak_SetAccount E s (ClawbackAcc va)"
        using r Some EthAcc by (auto simp: ApplyVestingSchedule_def Let_def bind_r_eq_Inr)
      then obtain df where "coIsValid K df" "va = ?va\<lparr>DelegatedFree := df\<rparr>" "s' = ak_SetAccount E s (ClawbackAcc va)"
        using newCoins1_ok by blast
      moreover have "BaseAccount ?va = ethBaseAccount e" "OriginalVesting ?va = c"
        by (simp_all add: NewClawbackVestingAccount_def split: prod.splits)
      moreover have "account_ok K (?va\<lparr>DelegatedFree := df\<rparr>)" if "coIsValid K df" for df
        using account_ok_delegated(1)[OF NewClawbackVestingAccount_ok[OF g] that] .
      ultimately show ?thesis
        using vest_inv_set[OF inv, of "ClawbackAcc va"] addr
        by (simp add: get_set balances_set original_at_def Some EthAcc)
    next
      case (OtherAcc b)
      then show ?thesis using r Some by (simp add: ApplyVestingSchedule_def)
    qed
  qed
  then show "vest_inv E K s'" "ak_GetAccount E s' funded = Some (ClawbackAcc va)"
    "bk_GetAllBalances E s' = bk_GetAllBalances E s"
    "coAmountOf K (OriginalVesting va) d = original_at E K s funded d + coAmountOf K c d" by blast+
qed

lemma CreateClawbackVestingAccount_ok:
  assumes inv: "vest_inv E K s" and r: "CreateClawbackVestingAccount E K X s msg = Inr s'"
    and so: "sched_ok K (mStartTime msg) (mLockupPeriods msg)" "sched_ok K (mStartTime msg) (mVestingPeriods msg)"
  obtains funder to_addr c va where
    "accFromBech32 X (mFromAddress msg) = Some funder" "accFromBech32 X (mToAddress msg) = Some to_addr"
    "vest_inv E K s'" "ak_GetAccount E s' to_addr = Some (ClawbackAcc va)"
    "\<And>d. coAmountOf K c d = max (total_amount K (mLockupPeriods msg) d) (total_amount K (mVestingPeriods msg) d)"
    "\<And>d. coAmountOf K (OriginalVesting va) d = original_at E K s to_addr d + coAmountOf K c d"
    "moved E K funder to_addr c s s'" "FunderAddress va = mFromAddress msg"
proof -
  obtain lp vp lc vc where ds: "default_schedules K (mLockupPeriods msg) (mVestingPeriods msg) = (lp, vp, lc, vc)"
    by (cases "default_schedules K (mLockupPeriods msg) (mVestingPeriods msg)")
  obtain f a where fa: "accFromBech32 X (mFromAddress msg) = Some f" "accFromBech32 X (mToAddress msg) = Some a"
    and le: "coIsAllLTE K vc lc" "coIsAllLTE K lc vc"
    using r by (auto simp: CreateClawbackVestingAccount_def bind_r_eq_Inr ds split: if_splits)
  note g = default_schedules_ok(1)[OF so ds le] and amt = default_schedules_ok(2)[OF so ds le]
  have "\<exists>s2 va. bk_SendCoins E s2 f a vc = Inr s' \<and> vest_inv E K s2 \<and>
      ak_GetAccount E s2 a = Some (ClawbackAcc va) \<and> bk_GetAllBalances E s2 = bk_GetAllBalances E s \<and>
      FunderAddress va = mFromAddress msg \<and>
      (\<forall>d. coAmountOf K (OriginalVesting va) d = original_at E K s a d + coAmountOf K vc d)"
  proof (cases "ak_GetAccount E s a")
    case None
    let ?va = "NewClawbackVestingAccount K X (ak_NewBaseAccountWithAddress E a) f vc (mStartTime msg) lp vp (Some (emptyCodeHash X))"
    obtain s1 acc where na: "ak_NewAccount E s (ClawbackAcc ?va) = (s1, acc)" by (cases "ak_NewAccount E s (ClawbackAcc ?va)")
    from new_account_ok[OF inv g na] obtain va1 where "acc = ClawbackAcc va1" "vest_inv E K (ak_SetAccount E s1 acc)"
      "ak_GetAccount E (ak_SetAccount E s1 acc) a = Some acc" "FunderAddress va1 = accString X f"
      "bk_GetAllBalances E (ak_SetAccount E s1 acc) = bk_GetAllBalances E s" "OriginalVesting va1 = vc" by metis
    then show ?thesis
      using r None na fa le bech32_string[OF fa(1)]
      by (intro exI[of _ "ak_SetAccount E s1 acc"] exI[of _ va1])
        (auto simp: CreateClawbackVestingAccount_def original_at_def Let_def ds mustAcc_def of_option_def split: if_splits)
  next
    case (Some acc)
    obtain va0 va where va: "acc = ClawbackAcc va0" "addGrant E K s va0 (mStartTime msg) lp vp vc = Inr va"
      "bk_SendCoins E (ak_SetAccount E s (ClawbackAcc va)) f a vc = Inr s'" "FunderAddress va0 = mFromAddress msg"
      using r Some fa le by (auto simp: CreateClawbackVestingAccount_def ds mustAcc_def of_option_def bind_r_eq_Inr
        split: if_splits account.splits)
    note ag = addGrant_ok[OF vest_invD(2)[OF inv Some[unfolded va(1)]] g va(2)]
    show ?thesis
      using va vest_invD(3)[OF inv Some[unfolded va(1)]] ag vest_inv_set[OF inv, of "ClawbackAcc va"]
      by (intro exI[of _ "ak_SetAccount E s (ClawbackAcc va)"] exI[of _ va])
        (simp add: get_set balances_set original_at_def Some)
  qed
  then obtain s2 va where s2: "bk_SendCoins E s2 f a vc = Inr s'" "vest_inv E K s2"
    "ak_GetAccount E s2 a = Some (ClawbackAcc va)" "bk_GetAllBalances E s2 = bk_GetAllBalances E s"
    "FunderAddress va = mFromAddress msg"
    "\<And>d. coAmountOf K (OriginalVesting va) d = original_at E K s a d + coAmountOf K vc d" by blast
  have "coIsValid K vc" using g by (simp add: grant_ok_def)
  then have "moved E K f a vc s s'" using send_moves[OF s2(1)] s2(4) by (simp add: moved_def)
  moreover have "ak_GetAccount E s' a = Some (ClawbackAcc va)"
    using send_accounts[OF s2(1)] s2(3) by (simp add: accounts_kept_def)
  ultimately show ?thesis
    using that[OF fa vest_inv_kept[OF s2(2) send_accounts[OF s2(1)]] _ amt s2(6) _ s2(5)] by blast
qed

lemma delegate_inv:
  assumes inv: "vest_inv E K s" and r: "sk_Delegate E s a n v = Inr s'"
  shows "vest_inv E K s'"
  unfolding vest_inv_def
proof (intro allI impI)
  fix b acc
  assume b: "ak_GetAccount E s' b = Some acc"
  from delegate_accounts[OF r b]
  show "ak_GetAddress E (base_of acc) = b \<and> (\<forall>va. acc = ClawbackAcc va \<longrightarrow> account_ok K va)"
  proof (elim disjE exE conjE)
    fix va df dv
    assume *: "ak_GetAccount E s b = Some (ClawbackAcc va)" "coIsValid K df" "coIsValid K dv"
      and acc: "acc = ClawbackAcc (va\<lparr>DelegatedFree := df, DelegatedVesting := dv\<rparr>)"
    show ?thesis
      using account_ok_delegated(2)[OF account_ok_delegated(1)[OF vest_invD(2)[OF inv *(1)] *(2)] *(3)]
        vest_invD(3)[OF inv *(1)] by (simp add: acc)
  qed (use inv in \<open>auto simp: vest_inv_def\<close>)
qed

lemma ConvertIntoVestingAccount_ok:
  assumes inv: "vest_inv E K s" and r: "ConvertIntoVestingAccount E K X blockTime s msg = Inr s'"
    and so: "sched_ok K (mStartTime msg) (mLockupPeriods msg)" "sched_ok K (mStartTime msg) (mVestingPeriods msg)"
  shows "vest_inv E K s'"
proof -
  obtain lp vp lc vc where ds: "default_schedules K (mLockupPeriods msg) (mVestingPeriods msg) = (lp, vp, lc, vc)"
    by (cases "default_schedules K (mLockupPeriods msg) (mVestingPeriods msg)")
  have le: "coIsAllLTE K vc lc" "coIsAllLTE K lc vc"
    using r by (auto simp: ConvertIntoVestingAccount_def bind_r_eq_Inr ds Let_def split: if_splits)
  obtain f a s1 va b1 b2 s2 where s1: "ApplyVestingSchedule E K X s f a vc (mStartTime msg) lp vp (mMerge msg) = Inr (s1, va, b1, b2)"
    and send: "bk_SendCoins E s1 f a vc = Inr s2" and s2: "s' = s2 \<or> delegateVestedCoins E K X blockTime s2 a vp msg = Inr s'"
    using r le by (auto simp: ConvertIntoVestingAccount_def bind_r_eq_Inr ds Let_def split: if_splits)
  have "vest_inv E K s2"
    by (rule vest_inv_kept[OF ApplyVestingSchedule_ok(1)[OF inv default_schedules_ok(1)[OF so ds le] s1] send_accounts[OF send]])
  with s2 show ?thesis
    by (auto simp: delegateVestedCoins_def bind_r_eq_Inr Let_def case_prod_beta intro: delegate_inv split: if_splits)
qed

lemma UpdateVestingFunder_ok:
  assumes inv: "vest_inv E K s" and r: "UpdateVestingFunder E X s msg = Inr s'"
  obtains a va where "accFromBech32 X (muVestingAddress msg) = Some a"
    "ak_GetAccount E s a = Some (ClawbackAcc va)" "FunderAddress va = muFunderAddress msg"
    "ak_GetAccount E s' a = Some (ClawbackAcc (va\<lparr>FunderAddress := muNewFunderAddress msg\<rparr>))"
    "\<And>b. b \<noteq> a \<Longrightarrow> ak_GetAccount E s' b = ak_GetAccount E s b" "vest_inv E K s'"
proof -
  obtain a va where av: "accFromBech32 X (muVestingAddress msg) = Some a"
    "ak_GetAccount E s a = Some (ClawbackAcc va)" "FunderAddress va = muFunderAddress msg"
    "s' = ak_SetAccount E s (ClawbackAcc (va\<lparr>FunderAddress := muNewFunderAddress msg\<rparr>))"
    using r by (auto simp: UpdateVestingFunder_def bind_r_eq_Inr split: if_splits)
  moreover have "account_ok K (va\<lparr>FunderAddress := muNewFunderAddress msg\<rparr>)"
    by (rule account_ok_delegated(3)[OF vest_invD(2)[OF inv av(2)]])
  then have "vest_inv E K s'" using vest_inv_set[OF inv] av(4) by blast
  ultimately show ?thesis
    using that[OF av(1-3)] vest_invD(3)[OF inv av(2)] by (simp add: get_set)
qed

lemma HasLockedCoins_ok:
  assumes "account_ok K va"
  shows "HasLockedCoins K va t = Inr (\<exists>d. unlocked_at K va t d < coAmountOf K (OriginalVesting va) d)"
proof -
  obtain c where "GetLockedUpCoins K va t = Inr c" "coIsValid K c"
    "\<And>d. coAmountOf K c d = coAmountOf K (OriginalVesting va) d - unlocked_at K va t d"
    using GetLockedUpCoins_ok[OF assms] by metis
  then show ?thesis
    using is_zero[of c] unlocked_bounds[OF assms, of t] by (simp add: HasLockedCoins_def less_le) metis
qed

lemma ConvertVestingAccount_iff:
  assumes inv: "vest_inv E K s" and a: "accFromBech32 X addr = Some a" "ak_GetAccount E s a = Some (ClawbackAcc va)"
  shows "ConvertVestingAccount E K X t s addr = Inr s' \<longleftrightarrow>
    (\<forall>d. vested_at K va t d = coAmountOf K (OriginalVesting va) d) \<and>
    (\<forall>d. unlocked_at K va t d = coAmountOf K (OriginalVesting va) d) \<and>
    s' = ak_SetAccount E s (EthAcc \<lparr>ethBaseAccount = BaseAccount va,
      ethCodeHash = hashHex X (ClawbackVestingAccount_GetCodeHash X va)\<rparr>)"
proof -
  note ok = vest_invD(2)[OF inv a(2)]
  obtain c where c: "GetVestingCoins K va t = Inr c" "coIsValid K c"
    "\<And>d. coAmountOf K c d = coAmountOf K (OriginalVesting va) d - vested_at K va t d"
    using GetVestingCoins_ok[OF ok] by metis
  have z: "coIsZero K c \<longleftrightarrow> (\<forall>d. vested_at K va t d = coAmountOf K (OriginalVesting va) d)"
    unfolding is_zero[OF c(2)] c(3) by (simp add: eq_commute[of "vested_at K va t _"])
  define h where "h = (\<exists>d. unlocked_at K va t d < coAmountOf K (OriginalVesting va) d)"
  have l: "\<not> h \<longleftrightarrow> (\<forall>d. unlocked_at K va t d = coAmountOf K (OriginalVesting va) d)"
    unfolding h_def not_ex not_less using unlocked_bounds(2)[OF ok, of t] order_antisym order_refl by metis
  have m: "GetClawbackVestingAccount E s a = Inr va" "mustAcc X addr = Inr a" using a by simp_all
  show ?thesis
    unfolding ConvertVestingAccount_def z[symmetric] l[symmetric] m bind_r_Inr c(1) HasLockedCoins_ok[OF ok] h_def[symmetric]
    by auto
qed

lemma Clawback_Inr:
  "Clawback E K X t s msg = Inr s' \<longleftrightarrow>
     (\<exists>a funder va. accFromBech32 X (mcAccountAddress msg) = Some a \<and>
        accFromBech32 X (mcFunderAddress msg) = Some funder \<and>
        \<not> bk_BlockedAddr E (clawback_dest X msg funder) \<and>
        ak_GetAccount E s a = Some (ClawbackAcc va) \<and>
        (VestingPeriods va \<noteq> [] \<or> LockupPeriods va \<noteq> []) \<and> FunderAddress va = accString X funder \<and>
        transferClawback E K X t s va (clawback_dest X msg funder) = Inr s')"
  unfolding Clawback_def Let_def bind_r_eq_Inr guard_Inr mustAcc_Inr GetClawbackVestingAccount_Inr
  by simp

lemma vest_step_inv: "vest_step E K X s s' \<Longrightarrow> vest_inv E K s \<Longrightarrow> vest_inv E K s'"
proof (induction rule: vest_step.induct)
  case (create s msg s')
  show ?case by (rule CreateClawbackVestingAccount_ok[OF create(4,1,2,3)])
next
  case (clawback t s msg s')
  obtain a va dest where a: "ak_GetAccount E s a = Some (ClawbackAcc va)"
    and tr: "transferClawback E K X t s va dest = Inr s'" using clawback(1) unfolding Clawback_Inr by blast
  show ?case by (rule transferClawback_ok[OF clawback(2) a tr]) (use clawback(2) in \<open>metis\<close>)
next
  case (update_funder s msg s')
  show ?case by (rule UpdateVestingFunder_ok[OF update_funder(2,1)])
next
  case (convert t s addr s')
  obtain a va where a: "accFromBech32 X addr = Some a" "ak_GetAccount E s a = Some (ClawbackAcc va)"
    using convert(1) by (auto simp: ConvertVestingAccount_def bind_r_eq_Inr)
  have "\<exists>e. s' = ak_SetAccount E s (EthAcc e)"
    using convert(1) ConvertVestingAccount_iff[OF convert(2) a] by auto
  then show ?case using vest_inv_set[OF convert(2)] by auto
next
  case (convert_into t s msg s')
  show ?case by (rule ConvertIntoVestingAccount_ok[OF convert_into(4,1,2,3)])
next
  case (transfer s f t c s')
  show ?case by (rule vest_inv_kept[OF transfer(2) send_accounts[OF transfer(1)]])
qed

lemma vest_steps_inv: "(vest_step E K X)\<^sup>*\<^sup>* s s' \<Longrightarrow> vest_inv E K s \<Longrightarrow> vest_inv E K s'"
  by (induction rule: rtranclp_induct) (auto intro: vest_step_inv)

end

section \<open>A reference ledger\<close>

text \<open>
  The keepers over a state of accounts and balances: an interpretation of the laws. The
  bank refuses a transfer the balance does not cover and opens a default account for a new
  recipient; delegating moves the coins to the bonded pool.
\<close>

record ledger =
  ldAccounts :: "acc_address \<Rightarrow> coin list account option"
  ldBalances :: "acc_address \<Rightarrow> coin list"

definition ld_address :: "base_account \<Rightarrow> acc_address" where
  "ld_address b = (case demo_parse (Address b) of Some a \<Rightarrow> a | None \<Rightarrow> [])"

definition ld_base :: "acc_address \<Rightarrow> base_account" where
  "ld_base a = \<lparr>Address = demo_string a, AccountNumber = 0, Sequence = 0\<rparr>"

definition ld_send :: "'z ledger_scheme \<Rightarrow> acc_address \<Rightarrow> acc_address \<Rightarrow> coin list \<Rightarrow> 'z ledger_scheme result" where
  "ld_send s f t c =
     (if \<not> (coIsValid stdCoins (ldBalances s f) \<and> coIsValid stdCoins (ldBalances s t) \<and> coIsValid stdCoins c)
      then Inl (Wrapf ErrInvalidCoins '''')
      else case coSub stdCoins (ldBalances s f) c of
        None \<Rightarrow> Inl (Wrapf ErrInsufficientFunds '''')
      | Some rest \<Rightarrow>
          (let bal = (ldBalances s)(f := rest) in
           Inr (s\<lparr>ldBalances := bal(t := coAdd stdCoins (bal t) c),
                  ldAccounts := (if ldAccounts s t = None
                    then (ldAccounts s)(t := Some (EthAcc \<lparr>ethBaseAccount = ld_base t, ethCodeHash = ''0''\<rparr>))
                    else ldAccounts s)\<rparr>)))"

definition ledgerEnv :: "('z ledger_scheme, coin list, unit) vest_env" where
  "ledgerEnv = \<lparr>
     ak_GetAccount = ldAccounts,
     ak_SetAccount = (\<lambda>s acc. s\<lparr>ldAccounts := (ldAccounts s)(ld_address (base_of acc) := Some acc)\<rparr>),
     ak_NewAccount = (\<lambda>s acc. (s, case acc of
        ClawbackAcc va \<Rightarrow> ClawbackAcc (va\<lparr>BaseAccount := (BaseAccount va)\<lparr>AccountNumber := 7\<rparr>\<rparr>) | _ \<Rightarrow> acc)),
     ak_GetModuleAddress = (\<lambda>m. [1]),
     ak_NewBaseAccountWithAddress = ld_base,
     ak_GetAddress = ld_address,
     bk_GetAllBalances = ldBalances,
     bk_SendCoins = ld_send,
     bk_BlockedAddr = (\<lambda>a. a = [2]),
     sk_BondDenom = (\<lambda>s. Inr ''aISLM''),
     sk_GetDelegatorBonded = (\<lambda>s a. Inr 0),
     sk_GetDelegatorUnbonding = (\<lambda>s a. Inr 0),
     sk_GetValidator = (\<lambda>s a. Inr ()),
     sk_Delegate = (\<lambda>s a n v. ld_send s a [2] (islm n)),
     dk_FundCommunityPool = (\<lambda>s c f. ld_send s f [1] c)\<rparr>"

lemma ledgerEnv_sel [simp]:
  "ak_GetAccount ledgerEnv = ldAccounts"
  "ak_SetAccount ledgerEnv s acc = s\<lparr>ldAccounts := (ldAccounts s)(ld_address (base_of acc) := Some acc)\<rparr>"
  "ak_NewAccount ledgerEnv s (ClawbackAcc va) =
     (s, ClawbackAcc (va\<lparr>BaseAccount := (BaseAccount va)\<lparr>AccountNumber := 7\<rparr>\<rparr>))"
  "ak_GetModuleAddress ledgerEnv m = [1]" "ak_NewBaseAccountWithAddress ledgerEnv = ld_base"
  "ak_GetAddress ledgerEnv = ld_address" "bk_GetAllBalances ledgerEnv = ldBalances"
  "bk_SendCoins ledgerEnv = ld_send" "bk_BlockedAddr ledgerEnv a = (a = [2])"
  "sk_Delegate ledgerEnv s a n v = ld_send s a [2] (islm n)" "dk_FundCommunityPool ledgerEnv s c f = ld_send s f [1] c"
  by (simp_all add: ledgerEnv_def)

lemma demo_parse_string [simp]: "demo_parse (demo_string a) = Some a"
proof -
  have "unat b < 256" for b :: "8 word" using unsigned_less[of b] by simp
  then show ?thesis by (simp add: demo_parse_def demo_string_def o_def map_idI)
qed

lemma ld_address_base [simp]: "ld_address (ld_base a) = a"
  by (simp add: ld_address_def ld_base_def)

lemma ld_send_kept: "ld_send s f t c = Inr s' \<Longrightarrow> accounts_kept ledgerEnv s s'"
  by (auto simp: ld_send_def accounts_kept_def Let_def split: if_splits option.splits)

lemma ld_send_moved:
  assumes "ld_send s f t c = Inr s'"
  shows "moved ledgerEnv stdCoins f t c s s'"
proof -
  obtain rest where v: "coIsValid stdCoins (ldBalances s f)" "coIsValid stdCoins (ldBalances s t)" "coIsValid stdCoins c"
    and rest: "coSub stdCoins (ldBalances s f) c = Some rest"
    and s': "ldBalances s' = (let bal = (ldBalances s)(f := rest) in bal(t := coAdd stdCoins (bal t) c))"
    using assms by (auto simp: ld_send_def Let_def split: if_splits option.splits)
  note r = std.valid_sub[OF v(1,3) rest] std.amount_sub[OF v(1,3) rest]
  show ?thesis
    using std.amount_add[OF r(1) v(3)] std.amount_add[OF v(2,3)] r(2)
    by (auto simp: moved_def s' Let_def)
qed

interpretation ledger: vest_laws stdCoins "\<lambda>d. d \<noteq> []" demoAddr ledgerEnv
proof unfold_locales
  fix s :: "'z ledger_scheme" and a n and v :: unit and s' b acc
  assume "sk_Delegate ledgerEnv s a n v = Inr s'" "ak_GetAccount ledgerEnv s' b = Some acc"
  then show "ak_GetAccount ledgerEnv s b = Some acc \<or>
      (\<exists>va df dv. ak_GetAccount ledgerEnv s b = Some (ClawbackAcc va) \<and> coIsValid stdCoins df \<and> coIsValid stdCoins dv \<and>
         acc = ClawbackAcc (va\<lparr>DelegatedFree := df, DelegatedVesting := dv\<rparr>)) \<or>
      (ak_GetAddress ledgerEnv (base_of acc) = b \<and> (\<forall>va. acc \<noteq> ClawbackAcc va))"
    using ld_send_kept[of s a "[2]" "islm n" s'] unfolding accounts_kept_def
    by (cases "ak_GetAccount ledgerEnv s b") auto
qed (auto simp: ld_send_kept ld_send_moved ld_address_def ld_base_def)

lemmas ledger_laws = ledger.vest_laws_axioms

text \<open>A ledger with one vesting account and its funder.\<close>

definition demo_ledger :: ledger where
  "demo_ledger = \<lparr>ldAccounts = (\<lambda>a. if a = [118] then Some (ClawbackAcc demo_va) else None),
     ldBalances = (\<lambda>a. if a = [118] then islm 100 else if a = [102] then islm 500 else [])\<rparr>"

definition demo_clawback :: msg_clawback where
  "demo_clawback = \<lparr>mcFunderAddress = ''haqq1f'', mcAccountAddress = ''haqq1v'', mcDestAddress = ''''\<rparr>"

lemma demo_ledger_inv: "vest_inv ledgerEnv stdCoins demo_ledger"
  using demo_va_ok
  by (auto simp: vest_inv_def demo_ledger_def ld_address_def demo_va_def demo_parse_def split: if_splits)

lemma demo_addresses [simp]:
  "accFromBech32 demoAddr ''haqq1v'' = Some [118]" "accFromBech32 demoAddr ''haqq1f'' = Some [102]"
  "accFromBech32 demoAddr ''haqq1g'' = Some [103]"
  "accString demoAddr [102] = ''haqq1f''" "accString demoAddr [102] \<noteq> accString demoAddr [1]"
proof -
  show s: "accString demoAddr [102] = ''haqq1f''"
    by (simp add: demoAddr_def demo_string_def) code_simp
  show "accString demoAddr [102] \<noteq> accString demoAddr [1]"
    using demo.string_inj[of "[102]" "[1]"] by auto
qed (simp_all add: demoAddr_def demo_parse_def)

lemma demo_clawback_runs:
  "\<exists>s'. Clawback ledgerEnv stdCoins demoAddr 1060 demo_ledger demo_clawback = Inr s'"
proof (rule std.ComputeClawback_ok[OF demo_va_ok, of 1060])
  fix va' c
  assume c: "ComputeClawback stdCoins demo_va 1060 = Inr (va', c)" "coIsValid stdCoins c"
    "\<And>d. coAmountOf stdCoins c d = coAmountOf stdCoins (OriginalVesting demo_va) d - vested_at stdCoins demo_va 1060 d"
    "va' = demo_va\<lparr>OriginalVesting := OriginalVesting va', EndTime := EndTime va',
       LockupPeriods := LockupPeriods va', VestingPeriods := VestingPeriods va'\<rparr>"
  have v: "coIsValid stdCoins (islm 100)" "coIsValid stdCoins (islm 500)" "coIsValid stdCoins []" by code_simp+
  have "OriginalVesting demo_va = islm 100" by (simp add: demo_va_def)
  then have "coAmountOf stdCoins c d \<le> coAmountOf stdCoins (islm 100) d" for d
    using std.vested_bounds[OF demo_va_ok, of 1060 d] c(3)[of d] by (simp del: stdCoins_sel)
  then obtain rest where rest: "coSub stdCoins (islm 100) c = Some rest"
    using std.sub_defined[OF v(1) c(2)] by metis
  have base: "BaseAccount va' = BaseAccount demo_va" by (subst c(4)) simp
  have addr: "ld_address (BaseAccount va') = [118]" by (simp add: base demo_va_def ld_address_def demo_parse_def)
  have "\<exists>s'. transferClawback ledgerEnv stdCoins demoAddr 1060 demo_ledger demo_va [102] = Inr s'"
    using rest v c(2) by (simp add: transferClawback_def c(1) addr ld_send_def demo_ledger_def Let_def del: stdCoins_sel)
  then show ?thesis
    unfolding ledger.Clawback_Inr
    by (auto simp: demo_clawback_def clawback_dest_def demo_ledger_def demo_va_def)
qed

definition demo_create :: "coin list msg_create" where
  "demo_create = \<lparr>mFromAddress = ''haqq1f'', mToAddress = ''haqq1g'', mStartTime = 1000,
     mLockupPeriods = [iperiod 100 40, iperiod 100 60], mVestingPeriods = [], mMerge = False\<rparr>"

lemma demo_create_runs:
  "\<exists>s'. CreateClawbackVestingAccount ledgerEnv stdCoins demoAddr demo_ledger demo_create = Inr s'"
proof -
  have d: "default_schedules stdCoins (mLockupPeriods demo_create) (mVestingPeriods demo_create) =
      ([iperiod 100 40, iperiod 100 60], [\<lparr>Length = 0, Amount = islm 100\<rparr>], islm 100, islm 100)" by code_simp
  have v: "coIsValid stdCoins (islm 100)" "coIsValid stdCoins (islm 500)" "coIsValid stdCoins []"
    "coIsAllLTE stdCoins (islm 100) (islm 100)" "coSub stdCoins (islm 500) (islm 100) = Some (islm 400)" by code_simp+
  have a: "mFromAddress demo_create = ''haqq1f''" "mToAddress demo_create = ''haqq1g''" by (simp_all add: demo_create_def)
  show ?thesis
    unfolding CreateClawbackVestingAccount_def d a
    by (simp add: mustAcc_def demo_ledger_def ld_send_def Let_def v del: stdCoins_sel)
qed

lemma demo_apply_runs:
  "\<exists>s' va'. ApplyVestingSchedule ledgerEnv stdCoins demoAddr demo_ledger [102] [118] (islm 100) 1500
     [iperiod 100 40, iperiod 100 60] [iperiod 50 50, iperiod 100 50] True = Inr (s', va', False, True)"
proof -
  let ?lp = "[iperiod 100 40, iperiod 100 60]" and ?vp = "[iperiod 50 50, iperiod 100 50]"
  have so: "sched_ok stdCoins 1000 ?lp" "sched_ok stdCoins 1000 ?vp" by code_simp+
  have va: "StartTime demo_va = 1000" "LockupPeriods demo_va = ?lp" "VestingPeriods demo_va = ?vp" "FunderAddress demo_va = ''haqq1f''"
    by (simp_all add: demo_va_def)
  obtain lp where lp: "DisjunctPeriods stdCoins 1000 1000 ?lp ?lp = (1000, 1000 + total_length lp, lp)"
    using std.DisjunctPeriods_ok[OF so(1) so(1)] by (metis min.idem)
  obtain vp where vp: "DisjunctPeriods stdCoins 1000 1000 ?vp ?vp = (1000, 1000 + total_length vp, vp)"
    using std.DisjunctPeriods_ok[OF so(2) so(2)] by (metis min.idem)
  have "\<exists>c. newCoins1 stdCoins ''aISLM'' 0 = Inr c" by (simp add: newCoins1_def std.new_coin del: stdCoins_sel)
  then have "\<exists>va'. addGrant ledgerEnv stdCoins demo_ledger demo_va 1000 ?lp ?vp (islm 100) = Inr va'"
    by (auto simp: addGrant_def va lp vp wrap_req_def ledgerEnv_def)
  then show ?thesis
    by (auto simp: ApplyVestingSchedule_def demo_ledger_def va Min64_def)
qed

section \<open>Properties\<close>









text \<open>
  C13. A vesting account converts back exactly when every coin is vested and unlocked at the
  block time; the result is the default account with the same base account and code hash
  under the same address, of the same type (externally owned or contract).
\<close>

theorem ConvertVestingAccount_only_when_free:
  assumes "vest_laws K ok X E" "vest_inv E K s" "accFromBech32 X addr = Some a"
    "ak_GetAccount E s a = Some (ClawbackAcc va)"
  shows "((\<exists>s'. ConvertVestingAccount E K X t s addr = Inr s') \<longleftrightarrow>
      (\<forall>d. vested_at K va t d = coAmountOf K (OriginalVesting va) d \<and>
           unlocked_at K va t d = coAmountOf K (OriginalVesting va) d)) \<and>
    (\<forall>s'. ConvertVestingAccount E K X t s addr = Inr s' \<longrightarrow>
      (\<exists>e. ak_GetAccount E s' a = Some (EthAcc e) \<and> ethBaseAccount e = BaseAccount va \<and>
        hexToHash X (ethCodeHash e) = ClawbackVestingAccount_GetCodeHash X va \<and>
        EthAccount_Type X e = ClawbackVestingAccount_Type X va))"
  unfolding vest_laws.ConvertVestingAccount_iff[OF assms]
  using vest_invD(3)[OF assms(2,4)] addr_laws.hash_roundtrip[OF vest_laws.axioms(2)[OF assms(1)]]
  by (auto simp: vest_laws.get_set[OF assms(1)] EthAccount_Type_def ClawbackVestingAccount_Type_def
      ClawbackVestingAccount_GetCodeHash_def)

theorem ConvertVestingAccount_only_when_free_witness:
  "\<forall>s'. ConvertVestingAccount ledgerEnv stdCoins demoAddr 1060 demo_ledger ''haqq1v'' \<noteq> Inr s'"
proof -
  have g: "ak_GetAccount ledgerEnv demo_ledger [118] = Some (ClawbackAcc demo_va)" by (simp add: demo_ledger_def)
  have "vested_at stdCoins demo_va 1060 ''aISLM'' \<noteq> coAmountOf stdCoins (OriginalVesting demo_va) ''aISLM''" by code_simp
  then show ?thesis
    using ConvertVestingAccount_only_when_free[OF ledger_laws demo_ledger_inv demo_addresses(1) g, of 1060] by blast
qed

lemma released_shift: "released K (s - k) ps t d = released K s ps (t + k) d"
proof (induction ps arbitrary: s)
  case (Cons p ps)
  have "released K (s - k + Length p) ps t d = released K (s + Length p) ps (t + k) d"
    using Cons[of "s + Length p"] by (simp add: algebra_simps)
  then show ?case by (simp add: algebra_simps)
qed simp

text \<open>
  C14. Applying a schedule to an existing vesting account keeps the account well formed and
  adds the granted coins. The grant's schedules are merged from the earlier of the grant's
  and the account's start: when the account started \<open>k\<close> seconds before the grant, every
  coin of the grant is released \<open>k\<close> seconds before the time its own schedule says.
\<close>

theorem ApplyVestingSchedule_merges_from_earlier_start:
  assumes "vest_laws K ok X E" "vest_inv E K s" "ak_GetAccount E s a = Some (ClawbackAcc va)"
    "grant_ok K start lockup vesting c"
    "ApplyVestingSchedule E K X s funder a c start lockup vesting merge = Inr (s', va', created, merged)"
  shows "merge \<and> merged \<and> \<not> created \<and> vest_inv E K s' \<and> ak_GetAccount E s' a = Some (ClawbackAcc va') \<and>
    (\<forall>d. coAmountOf K (OriginalVesting va') d = coAmountOf K (OriginalVesting va) d + coAmountOf K c d) \<and>
    (let k = max 0 (start - StartTime va) in
      (\<forall>t d. released K (StartTime va') (LockupPeriods va') t d =
         released K (StartTime va) (LockupPeriods va) t d + released K start lockup (t + k) d) \<and>
      (\<forall>t d. released K (StartTime va') (VestingPeriods va') t d =
         released K (StartTime va) (VestingPeriods va) t d + released K start vesting (t + k) d))"
proof -
  let ?st = "Min64 start (StartTime va)" and ?k = "max 0 (start - StartTime va)"
  have ok: "account_ok K va" by (rule vest_invD(2)[OF assms(2,3)])
  have g: "grant_ok K ?st lockup vesting c"
    using grant_ok_earlier[OF assms(4), of ?st] assms(4) ok
    by (auto simp: Min64_def grant_ok_def sched_ok_def account_ok_def)
  have m: "merge" "merged" "\<not> created" and add: "addGrant E K s va ?st lockup vesting c = Inr va'"
    using assms(3,5) by (auto simp: ApplyVestingSchedule_def bind_r_eq_Inr)
  note ag = vest_laws.addGrant_ok[OF assms(1) ok g add]
  have st: "?st = start - ?k" by (simp add: Min64_def)
  have "released K ?st ps t d = released K start ps (t + ?k) d" for ps t d
    unfolding st by (rule released_shift)
  then show ?thesis
    using m ag vest_laws.ApplyVestingSchedule_ok(1,2)[OF assms(1,2,4,5)] by (simp add: Let_def)
qed

theorem ApplyVestingSchedule_merges_from_earlier_start_witness:
  "\<exists>s' va'. ApplyVestingSchedule ledgerEnv stdCoins demoAddr demo_ledger [102] [118] (islm 100) 1500
     [iperiod 100 40, iperiod 100 60] [iperiod 50 50, iperiod 100 50] True = Inr (s', va', False, True) \<and>
     released stdCoins (StartTime va') (LockupPeriods va') 1100 ''aISLM'' = 80 \<and>
     released stdCoins 1500 [iperiod 100 40, iperiod 100 60] 1100 ''aISLM'' = 0"
proof -
  let ?lp = "[iperiod 100 40, iperiod 100 60]" and ?vp = "[iperiod 50 50, iperiod 100 50]"
  obtain s' va' where r: "ApplyVestingSchedule ledgerEnv stdCoins demoAddr demo_ledger [102] [118] (islm 100) 1500 ?lp ?vp True =
      Inr (s', va', False, True)" using demo_apply_runs by blast
  have g: "ak_GetAccount ledgerEnv demo_ledger [118] = Some (ClawbackAcc demo_va)" by (simp add: demo_ledger_def)
  have gr: "grant_ok stdCoins 1500 ?lp ?vp (islm 100)"
    using demo_grant_ok by (auto simp: grant_ok_def sched_ok_def time_ok_def) (simp_all add: iperiod_def)
  have n: "max 0 (1500 - StartTime demo_va) = 500" by (simp add: demo_va_def)
  have "released stdCoins (StartTime va') (LockupPeriods va') 1100 ''aISLM'' =
      released stdCoins (StartTime demo_va) (LockupPeriods demo_va) 1100 ''aISLM'' + released stdCoins 1500 ?lp (1100 + 500) ''aISLM''"
    using ApplyVestingSchedule_merges_from_earlier_start[OF ledger_laws demo_ledger_inv g gr r] unfolding n Let_def by blast
  moreover have "released stdCoins (StartTime demo_va) (LockupPeriods demo_va) 1100 ''aISLM'' + released stdCoins 1500 ?lp (1100 + 500) ''aISLM'' = 80"
    "released stdCoins 1500 ?lp 1100 ''aISLM'' = 0" by code_simp+
  ultimately show ?thesis using r by auto
qed

end
