(* ===== verification/VestingMsgs.thy ===== *)
theory VestingMsgs
  imports VestingKeeper
begin

text \<open>
  The stateless checks of the vesting messages, \<^verbatim>\<open>x/vesting/types/msg.go\<close>: the five
  \<^verbatim>\<open>ValidateBasic\<close> methods and the constructors. They run before the handlers of
  \<open>VestingKeeper\<close>, whose panics on malformed addresses and whose schedule conditions they
  are meant to rule out.
\<close>

section \<open>Constructors\<close>

definition NewMsgCreateClawbackVestingAccount :: "addr_api \<Rightarrow> acc_address \<Rightarrow> acc_address \<Rightarrow> int \<Rightarrow>
    'c period list \<Rightarrow> 'c period list \<Rightarrow> bool \<Rightarrow> 'c msg_create" where
  "NewMsgCreateClawbackVestingAccount X fromAddr toAddr startTime lockupPeriods vestingPeriods merge =
     \<lparr>mFromAddress = accString X fromAddr, mToAddress = accString X toAddr, mStartTime = startTime,
      mLockupPeriods = lockupPeriods, mVestingPeriods = vestingPeriods, mMerge = merge\<rparr>"

definition NewMsgClawback :: "addr_api \<Rightarrow> acc_address \<Rightarrow> acc_address \<Rightarrow> acc_address option \<Rightarrow> msg_clawback" where
  "NewMsgClawback X funder addr dest =
     \<lparr>mcFunderAddress = accString X funder, mcAccountAddress = accString X addr,
      mcDestAddress = (case dest of None \<Rightarrow> '''' | Some d \<Rightarrow> accString X d)\<rparr>"

definition NewMsgUpdateVestingFunder :: "addr_api \<Rightarrow> acc_address \<Rightarrow> acc_address \<Rightarrow> acc_address \<Rightarrow> msg_update_funder" where
  "NewMsgUpdateVestingFunder X funder newFunder vesting =
     \<lparr>muFunderAddress = accString X funder, muNewFunderAddress = accString X newFunder,
      muVestingAddress = accString X vesting\<rparr>"

definition NewMsgConvertIntoVestingAccount :: "addr_api \<Rightarrow> (acc_address \<Rightarrow> string) \<Rightarrow> acc_address \<Rightarrow> acc_address \<Rightarrow> int \<Rightarrow>
    'c period list \<Rightarrow> 'c period list \<Rightarrow> bool \<Rightarrow> bool \<Rightarrow> acc_address \<Rightarrow> 'c msg_convert" where
  "NewMsgConvertIntoVestingAccount X valString funder address startTime lockupPeriods vestingPeriods merge stake validatorAddress =
     \<lparr>mFromAddress = accString X funder, mToAddress = accString X address, mStartTime = startTime,
      mLockupPeriods = lockupPeriods, mVestingPeriods = vestingPeriods, mMerge = merge,
      mStake = stake, mValidatorAddress = valString validatorAddress\<rparr>"

section \<open>ValidateBasic\<close>

definition zero_address :: bytes where
  "zero_address = replicate 20 0"

definition checkAcc :: "addr_api \<Rightarrow> string \<Rightarrow> string \<Rightarrow> acc_address result" where
  "checkAcc X msg s = of_option (Errorf msg) (accFromBech32 X s)"

text \<open>The loop over the periods of a schedule: lengths, amounts and the running total.\<close>

fun validate_periods :: "'c coins_api \<Rightarrow> 'c period list \<Rightarrow> 'c \<Rightarrow> 'c result" where
  "validate_periods K [] coins = Inr coins"
| "validate_periods K (p # ps) coins =
     (if Length p < 1 then Inl (Wrapf ErrInvalidRequest ''invalid period length, length must be greater than 0'')
      else if \<not> coIsValid K (Amount p) then Inl (Wrapf ErrInvalidCoins '''')
      else validate_periods K ps (coAdd K coins (Amount p)))"

definition validate_schedules :: "'c coins_api \<Rightarrow> 'c period list \<Rightarrow> 'c period list \<Rightarrow> unit result" where
  "validate_schedules K lockupPeriods vestingPeriods =
     bind_r (validate_periods K lockupPeriods (coEmpty K)) (\<lambda>lockupCoins.
     bind_r (validate_periods K vestingPeriods (coEmpty K)) (\<lambda>vestingCoins.
     if coLen K lockupCoins = 0 \<and> coLen K vestingCoins = 0
     then Inl (Wrapf ErrInvalidRequest ''vesting and/or lockup schedules must be present'')
     else if 0 < length lockupPeriods \<and> 0 < length vestingPeriods \<and> \<not> CoinEq K lockupCoins vestingCoins
     then Inl (Wrapf ErrInvalidRequest ''vesting and lockup schedules must have same total coins'')
     else Inr ()))"

definition MsgCreateClawbackVestingAccount_ValidateBasic :: "'c coins_api \<Rightarrow> addr_api \<Rightarrow> 'c msg_create \<Rightarrow> unit result" where
  "MsgCreateClawbackVestingAccount_ValidateBasic K X msg =
     bind_r (checkAcc X ''invalid funder address'' (mFromAddress msg)) (\<lambda>_.
     bind_r (checkAcc X ''invalid vesting address'' (mToAddress msg)) (\<lambda>vestingAddr.
     if vestingAddr = zero_address then Inl (Wrapf ErrInvalidAddress ''vesting address cannot be the zero address'')
     else validate_schedules K (mLockupPeriods msg) (mVestingPeriods msg)))"

definition MsgClawback_ValidateBasic :: "addr_api \<Rightarrow> msg_clawback \<Rightarrow> unit result" where
  "MsgClawback_ValidateBasic X msg =
     bind_r (checkAcc X ''invalid funder address'' (mcFunderAddress msg)) (\<lambda>_.
     bind_r (checkAcc X ''invalid account address'' (mcAccountAddress msg)) (\<lambda>_.
     if mcDestAddress msg \<noteq> ''''
     then bind_r (checkAcc X ''invalid dest address'' (mcDestAddress msg)) (\<lambda>_. Inr ())
     else Inr ()))"

definition MsgUpdateVestingFunder_ValidateBasic :: "addr_api \<Rightarrow> msg_update_funder \<Rightarrow> unit result" where
  "MsgUpdateVestingFunder_ValidateBasic X msg =
     bind_r (checkAcc X ''invalid funder address'' (muFunderAddress msg)) (\<lambda>_.
     bind_r (checkAcc X ''invalid new funder address'' (muNewFunderAddress msg)) (\<lambda>newFunderAddr.
     if newFunderAddr = zero_address then Inl (Wrapf ErrInvalidAddress ''new funder address cannot be the zero address'')
     else if muFunderAddress msg = muNewFunderAddress msg
     then Inl (Wrapf ErrInvalidRequest ''new funder address is equal to current funder address'')
     else bind_r (checkAcc X ''invalid vesting account address'' (muVestingAddress msg)) (\<lambda>_. Inr ())))"

definition MsgConvertVestingAccount_ValidateBasic :: "addr_api \<Rightarrow> string \<Rightarrow> unit result" where
  "MsgConvertVestingAccount_ValidateBasic X vestingAddress =
     bind_r (checkAcc X ''invalid vesting address'' vestingAddress) (\<lambda>_. Inr ())"

definition MsgConvertIntoVestingAccount_ValidateBasic :: "'c coins_api \<Rightarrow> addr_api \<Rightarrow> 'c msg_convert \<Rightarrow> unit result" where
  "MsgConvertIntoVestingAccount_ValidateBasic K X msg =
     bind_r (checkAcc X ''invalid funder address'' (mFromAddress msg)) (\<lambda>_.
     let vestingAddr = (case accFromBech32 X (mToAddress msg) of
                          Some a \<Rightarrow> a | None \<Rightarrow> hexToAddress X (mToAddress msg)) in
     if \<not> verifyAddressFormat X vestingAddr then Inl (Errorf ''invalid vesting address'')
     else if vestingAddr = zero_address then Inl (Wrapf ErrInvalidAddress ''vesting address cannot be the zero address'')
     else validate_schedules K (mLockupPeriods msg) (mVestingPeriods msg))"

section \<open>What the checks guarantee\<close>

definition within_time :: "int \<Rightarrow> 'c period list \<Rightarrow> bool" where
  "within_time s ps \<longleftrightarrow> time_ok s \<and> time_ok (s + total_length ps)"

lemma checkAcc_Inr [simp]: "checkAcc X m s = Inr a \<longleftrightarrow> accFromBech32 X s = Some a"
  by (simp add: checkAcc_def of_option_eq_Inr)

context coins_laws
begin

lemma validate_periods_ok:
  assumes "coIsValid K c" "validate_periods K ps c = Inr c'"
  shows "list_all (\<lambda>p. 1 \<le> Length p \<and> coIsValid K (Amount p)) ps" "coIsValid K c'"
    "coAmountOf K c' d = coAmountOf K c d + total_amount K ps d"
proof -
  have "list_all (\<lambda>p. 1 \<le> Length p \<and> coIsValid K (Amount p)) ps \<and> coIsValid K c' \<and>
      coAmountOf K c' d = coAmountOf K c d + total_amount K ps d"
    using assms
  proof (induction ps arbitrary: c)
    case (Cons p ps)
    then have p: "1 \<le> Length p" "coIsValid K (Amount p)" "validate_periods K ps (coAdd K c (Amount p)) = Inr c'"
      by (auto split: if_splits)
    show ?case using Cons.IH[OF valid_add[OF Cons.prems(1) p(2)] p(3)] p Cons.prems(1) by (simp add: amount_add)
  qed simp
  then show "list_all (\<lambda>p. 1 \<le> Length p \<and> coIsValid K (Amount p)) ps" "coIsValid K c'"
    "coAmountOf K c' d = coAmountOf K c d + total_amount K ps d" by blast+
qed

lemma validated_sched_ok:
  assumes "list_all (\<lambda>p. 1 \<le> Length p \<and> coIsValid K (Amount p)) ps" "within_time s ps"
  shows "sched_ok K s ps"
  using assms by (auto simp: sched_ok_def within_time_def list_all_iff)

lemma validate_schedules_ok:
  assumes v: "validate_schedules K lp vp = Inr ()" and w: "within_time s lp" "within_time s vp"
  shows "sched_ok K s lp" "sched_ok K s vp"
    "\<exists>lp' vp' lc vc. default_schedules K lp vp = (lp', vp', lc, vc) \<and> coIsAllLTE K vc lc \<and> coIsAllLTE K lc vc \<and>
       \<not> coIsZero K vc"
proof -
  obtain lc vc where lc: "validate_periods K lp (coEmpty K) = Inr lc" and vc: "validate_periods K vp (coEmpty K) = Inr vc"
    and n: "coLen K lc \<noteq> 0 \<or> coLen K vc \<noteq> 0" and e: "lp = [] \<or> vp = [] \<or> CoinEq K lc vc"
    using v by (auto simp: validate_schedules_def bind_r_eq_Inr split: if_splits)
  note l = validate_periods_ok[OF valid_empty lc] and vv = validate_periods_ok[OF valid_empty vc]
  show so: "sched_ok K s lp" "sched_ok K s vp" using validated_sched_ok l(1) vv(1) w by blast+
  have la: "coIsValid K (coTotalAmount K lp)" "\<And>d. coAmountOf K (coTotalAmount K lp) d = total_amount K lp d"
    and va: "coIsValid K (coTotalAmount K vp)" "\<And>d. coAmountOf K (coTotalAmount K vp) d = total_amount K vp d"
    using so by (auto simp: sched_ok_def list_all_iff valid_total_amount amount_total_amount total_amount_def)
  have ll: "\<And>d. coAmountOf K lc d = total_amount K lp d" and lv: "\<And>d. coAmountOf K vc d = total_amount K vp d"
    using l(3) vv(3) by (simp_all add: amount_empty)
  have nz: "\<not> ((\<forall>d. total_amount K lp d = 0) \<and> (\<forall>d. total_amount K vp d = 0))"
    using n len_zero[OF l(2)] len_zero[OF vv(2)] ll lv by auto
  have eq: "lp \<noteq> [] \<Longrightarrow> vp \<noteq> [] \<Longrightarrow> total_amount K lp d = total_amount K vp d" for d
    using e l(2) vv(2) ll lv by (auto simp: CoinEq_def all_lte intro: antisym)
  have z: "coIsZero K (coTotalAmount K lp) \<longleftrightarrow> (\<forall>d. total_amount K lp d = 0)"
    "coIsZero K (coTotalAmount K vp) \<longleftrightarrow> (\<forall>d. total_amount K vp d = 0)"
    using is_zero[OF la(1)] is_zero[OF va(1)] la(2) va(2) by simp_all
  show "\<exists>lp' vp' lc vc. default_schedules K lp vp = (lp', vp', lc, vc) \<and> coIsAllLTE K vc lc \<and> coIsAllLTE K lc vc \<and>
       \<not> coIsZero K vc"
    using nz eq z la va by (cases "lp = []"; cases "vp = []") (auto simp: default_schedules_def Let_def all_lte)
qed

end



end
