(* ===== verification/LiquidSchedule.thy ===== *)
theory LiquidSchedule
  imports ClawbackAccount
begin

text \<open>
  Schedule arithmetic of the liquid vesting module, \<^verbatim>\<open>x/liquidvesting/types/schedule.go\<close>:
  taking an amount out of the periods of a schedule in proportion, splitting a schedule at
  a time and replacing its tail. \<^verbatim>\<open>math.Int\<close> is an integer whose products panic above 256
  bits; \<^verbatim>\<open>Quo\<close> truncates.
\<close>

section \<open>Definitions\<close>

definition Int_Mul :: "int \<Rightarrow> int \<Rightarrow> int result" where
  "Int_Mul a b = (if \<bar>a * b\<bar> < 2 ^ 256 then Inr (a * b) else Inl (Panic ''Int overflow''))"

definition Int_Quo :: "int \<Rightarrow> int \<Rightarrow> int result" where
  "Int_Quo a b = (if b = 0 then Inl (Panic ''Division by zero'') else Inr (sgn a * sgn b * (\<bar>a\<bar> div \<bar>b\<bar>)))"

definition newCoin :: "'c coins_api \<Rightarrow> string \<Rightarrow> int \<Rightarrow> coin result" where
  "newCoin K denom amount = of_option (Panic ''invalid coin'') (coNewCoin K denom amount)"

definition subCoin :: "'c coins_api \<Rightarrow> 'c \<Rightarrow> coin \<Rightarrow> 'c result" where
  "subCoin K c x = of_option (Panic ''negative coin amount'') (coSubCoin K c x)"

text \<open>The first loop: the proportional share of every period, and the running total.\<close>

fun share_loop :: "'c coins_api \<Rightarrow> string \<Rightarrow> int \<Rightarrow> int \<Rightarrow> 'c period list \<Rightarrow> int \<Rightarrow>
    (('c period \<times> 'c period) list \<times> int) result" where
  "share_loop K minuendDenom subtrahendAmount minuendTotalAmount [] totalSubtracted = Inr ([], totalSubtracted)"
| "share_loop K minuendDenom subtrahendAmount minuendTotalAmount (minuendPeriod # ps) totalSubtracted =
     (let minuendCoinAmount = coAmountOf K (Amount minuendPeriod) minuendDenom in
      bind_r (Int_Mul minuendCoinAmount subtrahendAmount) (\<lambda>product.
      bind_r (Int_Quo product minuendTotalAmount) (\<lambda>subtractedAmount.
      bind_r (newCoin K minuendDenom subtractedAmount) (\<lambda>subtrahendCoin.
      bind_r (subCoin K (Amount minuendPeriod) subtrahendCoin) (\<lambda>decreased.
      bind_r (share_loop K minuendDenom subtrahendAmount minuendTotalAmount ps (totalSubtracted + subtractedAmount))
        (\<lambda>(rest, total).
      Inr ((minuendPeriod\<lparr>Amount := decreased\<rparr>,
            \<lparr>Length = Length minuendPeriod, Amount = coNewCoins K subtrahendCoin\<rparr>) # rest, total)))))))"

text \<open>The second loop runs from the last period to the first, so its list is reversed.\<close>

fun residue_loop :: "'c coins_api \<Rightarrow> string \<Rightarrow> ('c period \<times> 'c period) list \<Rightarrow> int \<Rightarrow>
    ('c period \<times> 'c period) list result" where
  "residue_loop K minuendDenom [] residue = Inr []"
| "residue_loop K minuendDenom ((decreased, diff) # rest) residue =
     (let periodMinuendDenomAmount = coAmountOf K (Amount decreased) minuendDenom;
          n = (if periodMinuendDenomAmount < residue then periodMinuendDenomAmount else residue) in
      bind_r (newCoin K minuendDenom n) (\<lambda>x.
      bind_r (subCoin K (Amount decreased) x) (\<lambda>decreasedAmount.
      bind_r (if periodMinuendDenomAmount < residue
              then residue_loop K minuendDenom rest (residue - periodMinuendDenomAmount)
              else Inr rest) (\<lambda>rest'.
      Inr ((decreased\<lparr>Amount := decreasedAmount\<rparr>,
            diff\<lparr>Amount := coAddCoin K (Amount diff) x\<rparr>) # rest')))))"

definition SubtractAmountFromPeriods :: "'c coins_api \<Rightarrow> 'c period list \<Rightarrow> coin \<Rightarrow>
    ('c period list \<times> 'c period list) result" where
  "SubtractAmountFromPeriods K minuendPeriods subtrahend =
     (let minuendDenom = Denom subtrahend;
          minuendTotalAmount = coAmountOf K (coTotalAmount K minuendPeriods) minuendDenom;
          subtrahendAmount = Amt subtrahend in
      if minuendTotalAmount < subtrahendAmount \<or> minuendTotalAmount = 0
      then Inl (Errorf ''insufficient locked up funds'')
      else
       bind_r (share_loop K minuendDenom subtrahendAmount minuendTotalAmount minuendPeriods 0) (\<lambda>(pairs, totalSubtracted).
       bind_r (if 0 < length pairs
               then residue_loop K minuendDenom (rev pairs) (subtrahendAmount - totalSubtracted)
               else Inr []) (\<lambda>pairs'.
       Inr (map fst (rev pairs'), map snd (rev pairs')))))"

definition ExtractUpcomingPeriods :: "int \<Rightarrow> int \<Rightarrow> 'c period list \<Rightarrow> int \<Rightarrow> 'c period list" where
  "ExtractUpcomingPeriods startDate endDate periods readTime =
     drop (ReadPastPeriodCount startDate endDate periods readTime) periods"

definition ExtractPastPeriods :: "int \<Rightarrow> int \<Rightarrow> 'c period list \<Rightarrow> int \<Rightarrow> 'c period list" where
  "ExtractPastPeriods startDate endDate periods readTime =
     take (ReadPastPeriodCount startDate endDate periods readTime) periods"

definition ReplacePeriodsTail :: "'c period list \<Rightarrow> 'c period list \<Rightarrow> 'c period list" where
  "ReplacePeriodsTail periods replacement =
     (if length periods \<le> length replacement then replacement
      else take (length periods - length replacement) periods @ replacement)"

fun CurrentPeriodShift_loop :: "int \<Rightarrow> int \<Rightarrow> 'c period list \<Rightarrow> int" where
  "CurrentPeriodShift_loop elapsedTime currentTime [] = 0"
| "CurrentPeriodShift_loop elapsedTime currentTime (p # ps) =
     (if currentTime < add64 elapsedTime (Length p) then sub64 currentTime elapsedTime
      else CurrentPeriodShift_loop (add64 elapsedTime (Length p)) currentTime ps)"

definition CurrentPeriodShift :: "int \<Rightarrow> int \<Rightarrow> 'c period list \<Rightarrow> int" where
  "CurrentPeriodShift startTime currentTime periods =
     (if currentTime \<le> startTime then 0 else CurrentPeriodShift_loop startTime currentTime periods)"

section \<open>Subtracting an amount\<close>

text \<open>
  A period and its two parts: same length, amounts adding up, and nothing but the
  subtracted denomination in the second.
\<close>

definition split_of :: "'c coins_api \<Rightarrow> string \<Rightarrow> 'c period \<Rightarrow> 'c period \<times> 'c period \<Rightarrow> bool" where
  "split_of K d p xy \<longleftrightarrow> Length (fst xy) = Length p \<and> Length (snd xy) = Length p \<and>
     coIsValid K (Amount (fst xy)) \<and> coIsValid K (Amount (snd xy)) \<and>
     (\<forall>e. coAmountOf K (Amount (fst xy)) e + coAmountOf K (Amount (snd xy)) e = coAmountOf K (Amount p) e \<and>
          (e \<noteq> d \<longrightarrow> coAmountOf K (Amount (snd xy)) e = 0))"

lemma Int_Quo_nonneg: "0 \<le> a \<Longrightarrow> 0 < b \<Longrightarrow> Int_Quo a b = Inr (a div b)"
  by (cases "a = 0") (auto simp: Int_Quo_def)

lemma member_le_sum_list_int:
  fixes f :: "'a \<Rightarrow> int"
  shows "(\<And>y. y \<in> set xs \<Longrightarrow> 0 \<le> f y) \<Longrightarrow> x \<in> set xs \<Longrightarrow> f x \<le> sum_list (map f xs)"
proof (induction xs)
  case (Cons y xs)
  have "0 \<le> sum_list (map f xs)" using Cons.prems(1) by (intro sum_list_nonneg_int) auto
  then show ?case using Cons by fastforce
qed simp

lemma list_all2_map_eq: "list_all2 (\<lambda>x y. Q x y \<and> g y = f x) xs ys \<Longrightarrow> map g ys = map f xs"
  by (induction rule: list_all2_induct) auto

lemma sum_div_le:
  fixes f :: "'a \<Rightarrow> int"
  assumes "0 < T"
  shows "T * sum_list (map (\<lambda>p. f p * S div T) ps) \<le> sum_list (map f ps) * S"
proof (induction ps)
  case (Cons p ps)
  have "T * (f p * S div T) \<le> f p * S" 
    using pos_mod_sign[OF assms, of "f p * S"] by (simp add: minus_mod_eq_mult_div[symmetric])
  then show ?case using Cons by (simp add: algebra_simps)
qed simp

context coins_laws
begin

lemma newCoin_ok: "denom_ok d \<Longrightarrow> 0 \<le> n \<Longrightarrow> newCoin K d n = Inr \<lparr>Denom = d, Amt = n\<rparr>"
  by (simp add: newCoin_def new_coin)

lemma subCoin_ok:
  assumes "coIsValid K a" "denom_ok d" "0 \<le> n" "n \<le> coAmountOf K a d"
  obtains c where "subCoin K a \<lparr>Denom = d, Amt = n\<rparr> = Inr c" "coIsValid K c"
    "\<And>e. coAmountOf K c e = coAmountOf K a e - (if e = d then n else 0)"
proof -
  obtain c where "coSubCoin K a \<lparr>Denom = d, Amt = n\<rparr> = Some c"
    using sub_coin_panics[of a "\<lparr>Denom = d, Amt = n\<rparr>"] assms by fastforce
  then show ?thesis
    using that[of c] valid_sub_coin[of a "\<lparr>Denom = d, Amt = n\<rparr>"] amount_sub_coin[of a "\<lparr>Denom = d, Amt = n\<rparr>"] assms
    by (simp add: subCoin_def)
qed

lemma share_loop_ok:
  assumes "denom_ok d" "0 \<le> S" "S \<le> T" "0 < T" "T * S < 2 ^ 256"
    "\<And>p. p \<in> set ps \<Longrightarrow> coIsValid K (Amount p) \<and> coAmountOf K (Amount p) d \<le> T"
  shows "\<exists>pairs. share_loop K d S T ps tot =
      Inr (pairs, tot + sum_list (map (\<lambda>p. coAmountOf K (Amount p) d * S div T) ps)) \<and>
    list_all2 (\<lambda>p xy. split_of K d p xy \<and>
      coAmountOf K (Amount (snd xy)) d = coAmountOf K (Amount p) d * S div T) ps pairs"
  using assms(6)
proof (induction ps arbitrary: tot)
  case (Cons p ps)
  let ?a = "coAmountOf K (Amount p) d" and ?n = "coAmountOf K (Amount p) d * S div T"
  have v: "coIsValid K (Amount p)" "?a \<le> T" and a0: "0 \<le> ?a" using Cons.prems amount_nonneg by auto
  have m: "?a * S \<le> T * S" "0 \<le> ?a * S" using v(2) a0 assms(2) by (auto intro: mult_right_mono)
  have n: "0 \<le> ?n" "?n \<le> ?a"
  proof -
    show "0 \<le> ?n" using m(2) assms(4) by (simp add: pos_imp_zdiv_nonneg_iff)
    have "?a * S \<le> ?a * T" using a0 assms(3) by (rule mult_left_mono[rotated])
    then have "?n \<le> ?a * T div T" using assms(4) by (rule zdiv_mono1)
    then show "?n \<le> ?a" using assms(4) by simp
  qed
  obtain c where c: "subCoin K (Amount p) \<lparr>Denom = d, Amt = ?n\<rparr> = Inr c" "coIsValid K c"
      "\<And>e. coAmountOf K c e = coAmountOf K (Amount p) e - (if e = d then ?n else 0)"
    using subCoin_ok[OF v(1) assms(1) n] by metis
  have mul: "Int_Mul ?a S = Inr (?a * S)" "Int_Quo (?a * S) T = Inr ?n"
    using m assms(4,5) Int_Quo_nonneg by (auto simp: Int_Mul_def)
  let ?x = "\<lparr>Denom = d, Amt = ?n\<rparr>"
  have q: "coIsValid K (coNewCoins K ?x)" "\<And>e. coAmountOf K (coNewCoins K ?x) e = (if e = d then ?n else 0)"
    using valid_new_coins[of ?x] amount_new_coins[of ?x] assms(1) n(1) by simp_all
  obtain pairs where "share_loop K d S T ps (tot + ?n) =
      Inr (pairs, tot + ?n + sum_list (map (\<lambda>p. coAmountOf K (Amount p) d * S div T) ps))"
    "list_all2 (\<lambda>p xy. split_of K d p xy \<and>
      coAmountOf K (Amount (snd xy)) d = coAmountOf K (Amount p) d * S div T) ps pairs"
    using Cons.IH[of "tot + ?n"] Cons.prems by auto
  then show ?case
    by (simp add: mul newCoin_ok[OF assms(1) n(1)] c(1) split_of_def c q add.assoc)
qed simp

lemma residue_loop_ok:
  assumes "denom_ok d" "0 \<le> r" "r \<le> sum_list (map (\<lambda>xy. coAmountOf K (Amount (fst xy)) d) pairs)"
    "list_all2 (split_of K d) ps pairs"
  shows "\<exists>pairs'. residue_loop K d pairs r = Inr pairs' \<and> list_all2 (split_of K d) ps pairs' \<and>
    sum_list (map (\<lambda>xy. coAmountOf K (Amount (snd xy)) d) pairs') =
      sum_list (map (\<lambda>xy. coAmountOf K (Amount (snd xy)) d) pairs) + r \<and>
    list_all2 (\<lambda>xy xy'. coAmountOf K (Amount (snd xy)) d \<le> coAmountOf K (Amount (snd xy')) d) pairs pairs'"
  using assms(2-4)
proof (induction pairs arbitrary: r ps)
  case (Cons xy rest)
  obtain x y where xy: "xy = (x, y)" by (cases xy)
  obtain p ps' where ps: "ps = p # ps'" "split_of K d p (x, y)" "list_all2 (split_of K d) ps' rest"
    using Cons.prems(3) by (auto simp: xy list_all2_Cons2)
  let ?a = "coAmountOf K (Amount x) d"
  have v: "coIsValid K (Amount x)" "coIsValid K (Amount y)" and a0: "0 \<le> ?a"
    using ps(2) amount_nonneg by (auto simp: split_of_def)
  let ?n = "if ?a < r then ?a else r"
  have n: "0 \<le> ?n" "?n \<le> ?a" using a0 Cons.prems(1) by auto
  obtain c where c: "subCoin K (Amount x) \<lparr>Denom = d, Amt = ?n\<rparr> = Inr c" "coIsValid K c"
      "\<And>e. coAmountOf K c e = coAmountOf K (Amount x) e - (if e = d then ?n else 0)"
    using subCoin_ok[OF v(1) assms(1) n] by metis
  let ?x = "\<lparr>Denom = d, Amt = ?n\<rparr>"
  have q: "coIsValid K (coAddCoin K (Amount y) ?x)"
    "\<And>e. coAmountOf K (coAddCoin K (Amount y) ?x) e = coAmountOf K (Amount y) e + (if e = d then ?n else 0)"
    using valid_add_coin[of "Amount y" ?x] amount_add_coin[of "Amount y" ?x] v(2) assms(1) n(1) by simp_all
  have sp: "split_of K d p (x\<lparr>Amount := c\<rparr>, y\<lparr>Amount := coAddCoin K (Amount y) ?x\<rparr>)"
    using ps(2) c(2,3) q by (simp add: split_of_def)
  have nc: "newCoin K d ?n = Inr ?x" by (rule newCoin_ok[OF assms(1) n(1)])
  show ?case
  proof (cases "?a < r")
    case True
    have "0 \<le> r - ?a" "r - ?a \<le> sum_list (map (\<lambda>xy. coAmountOf K (Amount (fst xy)) d) rest)"
      using True Cons.prems(2) by (simp_all add: xy)
    from Cons.IH[OF this ps(3)] show ?thesis
      using sp nc c(1) q(2)[of d] a0 True by (auto simp: xy ps(1) Let_def)
  next
    case False
    then show ?thesis
      using sp nc c(1) q(2)[of d] Cons.prems(1) ps(3) by (auto simp: xy ps(1) Let_def list_all2_refl)
  qed
qed simp

lemma split_amounts:
  assumes "list_all2 (split_of K d) ps pairs"
  shows "total_amount K (map fst pairs) e + total_amount K (map snd pairs) e = total_amount K ps e"
    "released K s (map fst pairs) t e + released K s (map snd pairs) t e = released K s ps t e"
    "map Length (map fst pairs) = map Length ps" "map Length (map snd pairs) = map Length ps"
    "list_all (\<lambda>p. coIsValid K (Amount p)) (map fst pairs)" "list_all (\<lambda>p. coIsValid K (Amount p)) (map snd pairs)"
  using assms
proof (induction arbitrary: s rule: list_all2_induct)
  case (Cons p ps xy pairs)
  { case 1
    have "coAmountOf K (Amount (fst xy)) e + coAmountOf K (Amount (snd xy)) e = coAmountOf K (Amount p) e"
      using Cons.hyps(1) by (simp add: split_of_def)
    then show ?case using Cons.IH(1) by simp }
  { case 2
    have "coAmountOf K (Amount (fst xy)) e + coAmountOf K (Amount (snd xy)) e = coAmountOf K (Amount p) e"
      "Length (fst xy) = Length p" "Length (snd xy) = Length p" using Cons.hyps(1) by (simp_all add: split_of_def)
    then show ?case using Cons.IH(2)[of "s + Length p"] by simp }
qed (simp_all add: split_of_def)

lemma split_other:
  "list_all2 (split_of K d) ps pairs \<Longrightarrow> e \<noteq> d \<Longrightarrow> total_amount K (map snd pairs) e = 0"
  by (induction rule: list_all2_induct) (auto simp: split_of_def)

lemma SubtractAmountFromPeriods_ok:
  assumes d: "denom_ok (Denom x)" and S: "0 \<le> Amt x" "Amt x \<le> total_amount K ps (Denom x)"
    and T: "0 < total_amount K ps (Denom x)" "total_amount K ps (Denom x) * Amt x < 2 ^ 256"
    and v: "list_all (\<lambda>p. coIsValid K (Amount p)) ps"
  obtains pairs where "SubtractAmountFromPeriods K ps x = Inr (map fst pairs, map snd pairs)"
    "list_all2 (split_of K (Denom x)) ps pairs" "total_amount K (map snd pairs) (Denom x) = Amt x"
    "list_all2 (\<lambda>p xy. coAmountOf K (Amount p) (Denom x) * Amt x div total_amount K ps (Denom x) \<le>
       coAmountOf K (Amount (snd xy)) (Denom x)) ps pairs"
proof -
  let ?d = "Denom x" and ?S = "Amt x" and ?T = "total_amount K ps (Denom x)"
  let ?f = "\<lambda>p. coAmountOf K (Amount p) ?d * ?S div ?T" and ?y = "\<lambda>xy. coAmountOf K (Amount (snd xy)) ?d"
  have val: "p \<in> set ps \<Longrightarrow> coIsValid K (Amount p)" for p using v by (simp add: list_all_iff)
  have tot: "coAmountOf K (coTotalAmount K ps) ?d = ?T"
    using val by (simp add: amount_total_amount total_amount_def)
  have le: "p \<in> set ps \<Longrightarrow> coIsValid K (Amount p) \<and> coAmountOf K (Amount p) ?d \<le> ?T" for p
    unfolding total_amount_def using val amount_nonneg by (auto intro!: member_le_sum_list_int)
  from share_loop_ok[OF d S T(1) T(2) le, of ps 0] obtain pairs where
    p: "share_loop K ?d ?S ?T ps 0 = Inr (pairs, sum_list (map ?f ps))"
    and sp: "list_all2 (\<lambda>p xy. split_of K ?d p xy \<and> ?y xy = ?f p) ps pairs" by auto
  have sp': "list_all2 (split_of K ?d) ps pairs" using sp by (rule list_all2_mono) simp
  have "map ?y pairs = map ?f ps" by (rule list_all2_map_eq[OF sp])
  then have sy: "sum_list (map ?y pairs) = sum_list (map ?f ps)" by simp
  have sx: "sum_list (map (\<lambda>xy. coAmountOf K (Amount (fst xy)) ?d) pairs) = ?T - sum_list (map ?f ps)"
    using split_amounts(1)[OF sp', of ?d] sy by (simp add: total_amount_def o_def)
  have ne: "pairs \<noteq> []" using T(1) sp by auto
  have r0: "0 \<le> ?S - sum_list (map ?f ps)"
  proof -
    have "?T * sum_list (map ?f ps) \<le> ?T * ?S"
      using sum_div_le[OF T(1), of "\<lambda>p. coAmountOf K (Amount p) ?d"] by (simp add: total_amount_def)
    then show ?thesis using T(1) by simp
  qed
  have r1: "?S - sum_list (map ?f ps) \<le> sum_list (map (\<lambda>xy. coAmountOf K (Amount (fst xy)) ?d) (rev pairs))"
    using S(2) by (simp add: rev_map[symmetric] sum_list_rev sx)
  have "list_all2 (split_of K ?d) (rev ps) (rev pairs)" using sp' by (simp add: list_all2_rev)
  from residue_loop_ok[OF d r0 r1 this] obtain pairs' where
    p': "residue_loop K ?d (rev pairs) (?S - sum_list (map ?f ps)) = Inr pairs'"
    "list_all2 (split_of K ?d) (rev ps) pairs'"
    "sum_list (map ?y pairs') = sum_list (map ?y (rev pairs)) + (?S - sum_list (map ?f ps))"
    "list_all2 (\<lambda>xy xy'. ?y xy \<le> ?y xy') (rev pairs) pairs'" by blast
  show ?thesis
  proof (rule that[of "rev pairs'"])
    show "SubtractAmountFromPeriods K ps x = Inr (map fst (rev pairs'), map snd (rev pairs'))"
      using p p'(1) S(2) T(1) ne by (simp add: SubtractAmountFromPeriods_def tot rev_map)
    show "list_all2 (split_of K ?d) ps (rev pairs')" using p'(2) by (metis list_all2_rev rev_rev_ident)
    show "total_amount K (map snd (rev pairs')) ?d = ?S"
      using p'(3) sy by (simp add: total_amount_def o_def rev_map[symmetric] sum_list_rev)
    have "list_all2 (\<lambda>xy xy'. ?y xy \<le> ?y xy') pairs (rev pairs')" using p'(4) by (metis list_all2_rev rev_rev_ident)
    with sp show "list_all2 (\<lambda>p xy. ?f p \<le> ?y xy) ps (rev pairs')"
      by (rule list_all2_trans[rotated]) simp
  qed
qed

end

section \<open>Splitting a schedule at a time\<close>

lemma total_length_by_map: "map Length ps = map Length qs \<Longrightarrow> total_length ps = total_length qs"
  by (simp add: total_length_def)

lemma released_append: "released K s (ps @ qs) t d = released K s ps t d + released K (s + total_length ps) qs t d"
  by (induction ps arbitrary: s) (simp_all add: add.assoc)

lemma sched_ok_first:
  "sched_ok K s (p # ps) \<Longrightarrow> 0 \<le> Length p \<and> add64 s (Length p) = s + Length p \<and> sched_ok K (s + Length p) ps"
  using total_length_nonneg[of "\<lambda>p. coIsValid K (Amount p)" ps]
  by (auto simp: sched_ok_def time_ok_def in64_def add.assoc intro!: add64_exact)

lemma count_loop_bounds:
  assumes "sched_ok K s ps" "s \<le> t"
  shows "ReadPastPeriodCount_loop t s ps 0 \<le> length ps \<and>
    s + total_length (take (ReadPastPeriodCount_loop t s ps 0) ps) \<le> t \<and>
    (ReadPastPeriodCount_loop t s ps 0 < length ps \<longrightarrow>
      t < s + total_length (take (Suc (ReadPastPeriodCount_loop t s ps 0)) ps))"
  using assms
proof (induction ps arbitrary: s)
  case (Cons p ps)
  note p = sched_ok_first[OF Cons.prems(1)]
  then show ?case
    using Cons.IH[of "s + Length p"] ReadPastPeriodCount_loop_eq[of K "s + Length p" ps t "Suc 0"] Cons.prems(2)
    by (auto simp: add.assoc)
qed simp

lemma shift_loop_eq:
  assumes "sched_ok K s ps" "s \<le> t"
  shows "CurrentPeriodShift_loop s t ps = (let n = ReadPastPeriodCount_loop t s ps 0 in
    if n < length ps then t - (s + total_length (take n ps)) else 0)"
  using assms
proof (induction ps arbitrary: s)
  case (Cons p ps)
  note p = sched_ok_first[OF Cons.prems(1)]
  have "time_ok s" using Cons.prems(1) by (simp add: sched_ok_def)
  moreover have "time_ok (s + Length p)" using p by (simp add: sched_ok_def)
  ultimately have "t < s + Length p \<Longrightarrow> sub64 t s = t - s"
    using Cons.prems(2) by (intro sub64_exact) (auto simp: time_ok_def in64_def)
  then show ?case
    using p Cons.IH[of "s + Length p"] ReadPastPeriodCount_loop_eq[of K "s + Length p" ps t "Suc 0"]
    by (auto simp: Let_def)
qed simp

lemma loops_by_lengths:
  assumes "map Length ps = map Length qs"
  shows "CurrentPeriodShift_loop s t ps = CurrentPeriodShift_loop s t qs"
  using assms
proof (induction ps arbitrary: s qs)
  case (Cons p ps)
  then obtain q qs' where "qs = q # qs'" "Length q = Length p" "map Length ps = map Length qs'" by (cases qs) auto
  then show ?case using Cons.IH by simp
qed simp

text \<open>
  The schedule of a liquid token: the subtracted periods of the upcoming part, read from
  the current time on, with the first one shortened by what has passed of it.
\<close>

definition liquid_periods :: "int \<Rightarrow> int \<Rightarrow> 'c period list \<Rightarrow> 'c period list \<Rightarrow> 'c period list" where
  "liquid_periods startTime now lockup diff = (case diff of [] \<Rightarrow> []
     | p # ps \<Rightarrow> p\<lparr>Length := sub64 (Length p) (CurrentPeriodShift startTime now lockup)\<rparr> # ps)"

lemma past_count_bounds:
  assumes "sched_ok K s ps" "s < now" "s + total_length ps \<le> e" "k = ReadPastPeriodCount s e ps now" "k < length ps"
  shows "s + total_length (take k ps) \<le> now" "now < s + total_length (take k ps) + Length (ps ! k)"
    "CurrentPeriodShift s now ps = now - (s + total_length (take k ps))"
proof -
  have k: "k = ReadPastPeriodCount_loop now s ps 0" using assms(2,4,5) by (auto simp: ReadPastPeriodCount_def split: if_splits)
  note b = count_loop_bounds[OF assms(1), of now, folded k]
  show "s + total_length (take k ps) \<le> now" "now < s + total_length (take k ps) + Length (ps ! k)"
    using b assms(2,5) by (simp_all add: take_Suc_conv_app_nth)
  show "CurrentPeriodShift s now ps = now - (s + total_length (take k ps))"
    using shift_loop_eq[OF assms(1), of now, folded k] assms(2,5) by (simp add: CurrentPeriodShift_def Let_def)
qed

lemma sched_ok_by_lengths:
  assumes "sched_ok K s ps" "map Length qs = map Length ps" "list_all (\<lambda>p. coIsValid K (Amount p)) qs"
  shows "sched_ok K s qs"
proof -
  have "\<And>q. q \<in> set qs \<Longrightarrow> Length q \<in> set (map Length ps)" using assms(2) by (metis imageI list.set_map)
  then show ?thesis
    using assms total_length_by_map[OF assms(2)] by (fastforce simp: sched_ok_def list_all_iff)
qed

lemma sched_ok_drop:
  assumes "sched_ok K s ps"
  shows "sched_ok K (s + total_length (take k ps)) (drop k ps)"
  using assms
proof (induction ps arbitrary: s k)
  case (Cons p ps)
  show ?case
  proof (cases k)
    case (Suc n)
    then show ?thesis using Cons.IH[of "s + Length p" n] sched_ok_first[OF Cons.prems] by (simp add: add.assoc)
  qed (use Cons.prems in simp)
qed (simp add: sched_ok_def)

text \<open>Starting a schedule later within its first period, the first period shortened by as much.\<close>

lemma shortened_first:
  assumes "sched_ok K s (p # ps)" "s \<le> now" "now < s + Length p"
  shows "sched_ok K now (p\<lparr>Length := sub64 (Length p) (now - s)\<rparr> # ps)"
    "released K now (p\<lparr>Length := sub64 (Length p) (now - s)\<rparr> # ps) t d = released K s (p # ps) t d"
    "total_amount K (p\<lparr>Length := sub64 (Length p) (now - s)\<rparr> # ps) d = total_amount K (p # ps) d"
proof -
  note p = sched_ok_first[OF assms(1)]
  have t: "time_ok s" "time_ok (s + Length p)" using assms(1) p by (simp_all add: sched_ok_def)
  then have l: "sub64 (Length p) (now - s) = Length p - (now - s)"
    using assms(2,3) by (intro sub64_exact) (auto simp: time_ok_def in64_def)
  have e: "now + (Length p - (now - s)) = s + Length p" by simp
  show "sched_ok K now (p\<lparr>Length := sub64 (Length p) (now - s)\<rparr> # ps)"
    using assms p t unfolding l by (auto simp: sched_ok_def time_ok_def)
  show "released K now (p\<lparr>Length := sub64 (Length p) (now - s)\<rparr> # ps) t d = released K s (p # ps) t d"
    unfolding l by (simp add: e)
  show "total_amount K (p\<lparr>Length := sub64 (Length p) (now - s)\<rparr> # ps) d = total_amount K (p # ps) d" by simp
qed

context coins_laws
begin

lemma liquidation_split:
  assumes so: "sched_ok K s ps" "s < now" "s + total_length ps \<le> e"
    and up: "up = ExtractUpcomingPeriods s e ps now"
    and d: "denom_ok (Denom x)" and S: "0 \<le> Amt x" "Amt x \<le> total_amount K up (Denom x)"
    and T: "0 < total_amount K up (Denom x)" "total_amount K up (Denom x) * Amt x < 2 ^ 256"
  obtains dec diff where "SubtractAmountFromPeriods K up x = Inr (dec, diff)" "diff \<noteq> []"
    "map Length (ReplacePeriodsTail ps dec) = map Length ps" "sched_ok K s (ReplacePeriodsTail ps dec)"
    "sched_ok K now (liquid_periods s now (ReplacePeriodsTail ps dec) diff)"
    "\<And>t a. released K s (ReplacePeriodsTail ps dec) t a +
       released K now (liquid_periods s now (ReplacePeriodsTail ps dec) diff) t a = released K s ps t a"
    "total_amount K (liquid_periods s now (ReplacePeriodsTail ps dec) diff) (Denom x) = Amt x"
    "\<And>a. total_amount K (ReplacePeriodsTail ps dec) a +
       total_amount K (liquid_periods s now (ReplacePeriodsTail ps dec) diff) a = total_amount K ps a"
    "\<And>a. a \<noteq> Denom x \<Longrightarrow> total_amount K (liquid_periods s now (ReplacePeriodsTail ps dec) diff) a = 0"
proof -
  define k where "k = ReadPastPeriodCount s e ps now"
  have up': "up = drop k ps" by (simp add: up ExtractUpcomingPeriods_def k_def)
  have k: "k < length ps" using T(1) by (auto simp: up' not_less[symmetric] intro: ccontr)
  note b = past_count_bounds[OF so k_def k]
  let ?s = "s + total_length (take k ps)"
  have su: "sched_ok K ?s up" unfolding up' by (rule sched_ok_drop[OF so(1)])
  then have "list_all (\<lambda>p. coIsValid K (Amount p)) up" by (auto simp: sched_ok_def list_all_iff)
  from SubtractAmountFromPeriods_ok[OF d S T this] obtain pairs where
    sub: "SubtractAmountFromPeriods K up x = Inr (map fst pairs, map snd pairs)"
    and sp: "list_all2 (split_of K (Denom x)) up pairs" and tot: "total_amount K (map snd pairs) (Denom x) = Amt x" by metis
  let ?dec = "map fst pairs" and ?diff = "map snd pairs"
  note am = split_amounts[OF sp]
  have len: "length pairs = length ps - k" using list_all2_lengthD[OF sp] by (simp add: up')
  have rep: "ReplacePeriodsTail ps ?dec = take k ps @ ?dec"
    using k by (auto simp: ReplacePeriodsTail_def len)
  have lens: "map Length (take k ps @ ?dec) = map Length ps"
    using am(3) by (simp add: up') (metis append_take_drop_id map_append)
  have vt: "list_all (\<lambda>p. coIsValid K (Amount p)) (take k ps @ ?dec)"
    using so(1) am(5) by (auto simp: sched_ok_def list_all_iff dest: in_set_takeD)
  have sr: "sched_ok K s (take k ps @ ?dec)" by (rule sched_ok_by_lengths[OF so(1) lens vt])
  have sd: "sched_ok K ?s ?diff" by (rule sched_ok_by_lengths[OF su am(4) am(6)])
  have shift: "CurrentPeriodShift s now (take k ps @ ?dec) = now - ?s"
    using b(3) loops_by_lengths[OF lens] so(2) by (simp add: CurrentPeriodShift_def)
  obtain p0 ps0 where diff: "?diff = p0 # ps0" using len k by (cases ?diff) auto
  have "Length p0 = Length (ps ! k)"
    using am(4) k unfolding diff up' by (metis Cons_nth_drop_Suc list.inject list.simps(9))
  then have p0: "now < ?s + Length p0" using b(2) by simp
  have liq: "liquid_periods s now (take k ps @ ?dec) ?diff = p0\<lparr>Length := sub64 (Length p0) (now - ?s)\<rparr> # ps0"
    by (simp add: liquid_periods_def diff shift)
  note sh = shortened_first[OF sd[unfolded diff] b(1) p0]
  have ps: "ps = take k ps @ up" by (simp add: up')
  show ?thesis
  proof (rule that[OF sub], unfold rep liq)
    show "?diff \<noteq> []" by (simp add: diff)
    show "released K s (take k ps @ ?dec) t a +
        released K now (p0\<lparr>Length := sub64 (Length p0) (now - ?s)\<rparr> # ps0) t a = released K s ps t a" for t a
      unfolding sh(2) diff[symmetric] using am(2)[of ?s t a]
      by (subst (2) ps) (simp add: released_append)
    show "total_amount K (take k ps @ ?dec) a +
        total_amount K (p0\<lparr>Length := sub64 (Length p0) (now - ?s)\<rparr> # ps0) a = total_amount K ps a" for a
      unfolding sh(3) diff[symmetric] using am(1)[of a] by (subst (2) ps) simp
    show "total_amount K (p0\<lparr>Length := sub64 (Length p0) (now - ?s)\<rparr> # ps0) a = 0" if "a \<noteq> Denom x" for a
      unfolding sh(3) diff[symmetric] by (rule split_other[OF sp that])
  qed (use lens sr sh(1) sh(3) tot diff in auto)
qed

end

section \<open>Property\<close>

text \<open>
  C16. Subtracting an amount covered by the periods never fails (while the product with the
  total fits 256 bits) and splits every period in two of the same length: the two parts
  add up to the period, the subtracted part contains nothing but the subtracted
  denomination and at least the proportional share rounded down, and over all periods
  exactly the amount is subtracted.
\<close>

theorem SubtractAmountFromPeriods_splits_proportionally:
  assumes "coins_laws K ok" "ok (Denom x)" "0 \<le> Amt x" "Amt x \<le> total_amount K ps (Denom x)"
    "0 < total_amount K ps (Denom x)" "total_amount K ps (Denom x) * Amt x < 2 ^ 256"
    "list_all (\<lambda>p. coIsValid K (Amount p)) ps"
  shows "\<exists>dec diff. SubtractAmountFromPeriods K ps x = Inr (dec, diff) \<and>
    length dec = length ps \<and> length diff = length ps \<and> total_amount K diff (Denom x) = Amt x \<and>
    (\<forall>i<length ps. Length (dec ! i) = Length (ps ! i) \<and> Length (diff ! i) = Length (ps ! i) \<and>
      (\<forall>e. coAmountOf K (Amount (dec ! i)) e + coAmountOf K (Amount (diff ! i)) e = coAmountOf K (Amount (ps ! i)) e) \<and>
      (\<forall>e. e \<noteq> Denom x \<longrightarrow> coAmountOf K (Amount (diff ! i)) e = 0) \<and>
      coAmountOf K (Amount (ps ! i)) (Denom x) * Amt x div total_amount K ps (Denom x) \<le>
        coAmountOf K (Amount (diff ! i)) (Denom x))"
proof (rule coins_laws.SubtractAmountFromPeriods_ok[OF assms])
  fix pairs
  assume p: "SubtractAmountFromPeriods K ps x = Inr (map fst pairs, map snd pairs)"
    "list_all2 (split_of K (Denom x)) ps pairs" "total_amount K (map snd pairs) (Denom x) = Amt x"
    "list_all2 (\<lambda>p xy. coAmountOf K (Amount p) (Denom x) * Amt x div total_amount K ps (Denom x) \<le>
       coAmountOf K (Amount (snd xy)) (Denom x)) ps pairs"
  then show ?thesis
    by (intro exI[of _ "map fst pairs"] exI[of _ "map snd pairs"])
      (auto simp: list_all2_conv_all_nth split_of_def)
qed

theorem SubtractAmountFromPeriods_splits_proportionally_witness:
  "SubtractAmountFromPeriods stdCoins [iperiod 5 10, iperiod 5 20, iperiod 5 30] \<lparr>Denom = ''aISLM'', Amt = 20\<rparr> =
     Inr ([iperiod 5 7, iperiod 5 14, iperiod 5 19], [iperiod 5 3, iperiod 5 6, iperiod 5 11]) \<and>
   total_amount stdCoins [iperiod 5 3, iperiod 5 6, iperiod 5 11] ''aISLM'' = 20"
proof -
  let ?ps = "[iperiod 5 10, iperiod 5 20, iperiod 5 30]" and ?x = "\<lparr>Denom = ''aISLM'', Amt = 20\<rparr>"
  have r: "SubtractAmountFromPeriods stdCoins ?ps ?x =
     Inr ([iperiod 5 7, iperiod 5 14, iperiod 5 19], [iperiod 5 3, iperiod 5 6, iperiod 5 11])" by code_simp
  have "Denom ?x \<noteq> []" "0 \<le> Amt ?x" "Amt ?x \<le> total_amount stdCoins ?ps (Denom ?x)"
    "0 < total_amount stdCoins ?ps (Denom ?x)" "total_amount stdCoins ?ps (Denom ?x) * Amt ?x < 2 ^ 256"
    "list_all (\<lambda>p. coIsValid stdCoins (Amount p)) ?ps" by code_simp+
  from SubtractAmountFromPeriods_splits_proportionally[OF std_laws this] r show ?thesis by auto
qed

end
