(* ===== verification/LiquidDenom.thy ===== *)
theory LiquidDenom
  imports LiquidSchedule
begin

text \<open>
  Liquid denominations, parameters and genesis of the liquid vesting module:
  \<^verbatim>\<open>x/liquidvesting/types/denom.go\<close>, \<^verbatim>\<open>params.go\<close>, \<^verbatim>\<open>genesis.go\<close> and \<^verbatim>\<open>msg.go\<close>, with Go's
  \<^verbatim>\<open>fmt.Sprintf("%d")\<close>, \<^verbatim>\<open>strings.TrimPrefix\<close> and \<^verbatim>\<open>strconv.Atoi\<close>.
\<close>

section \<open>Go's decimal numbers\<close>

fun decimal :: "nat \<Rightarrow> string" where
  "decimal n = (if n < 10 then [char_of (48 + n)] else decimal (n div 10) @ [char_of (48 + n mod 10)])"

declare decimal.simps [simp del]

definition TrimPrefix :: "string \<Rightarrow> string \<Rightarrow> string" where
  "TrimPrefix s prefix = (if take (length prefix) s = prefix then drop (length prefix) s else s)"

definition is_digit :: "char \<Rightarrow> bool" where
  "is_digit c \<longleftrightarrow> 48 \<le> (of_char c :: nat) \<and> (of_char c :: nat) \<le> 57"

definition digits_value :: "string \<Rightarrow> nat" where
  "digits_value cs = foldl (\<lambda>n c. 10 * n + (of_char c - 48)) 0 cs"

text \<open>\<^verbatim>\<open>strconv.Atoi\<close>: an optional sign, digits, and a value in the range of a 64-bit int.\<close>

definition Atoi :: "string \<Rightarrow> int result" where
  "Atoi s =
     (let neg = (s \<noteq> [] \<and> hd s = CHR ''-'');
          ds = (if s \<noteq> [] \<and> (hd s = CHR ''-'' \<or> hd s = CHR ''+'') then tl s else s);
          n = (if neg then - int (digits_value ds) else int (digits_value ds)) in
      if ds = [] \<or> \<not> list_all is_digit ds then Inl (Errorf ''invalid syntax'')
      else if \<not> in64 n then Inl (Errorf ''value out of range'')
      else Inr n)"

section \<open>Denomination names\<close>

definition DenomBaseNameFromID :: "nat \<Rightarrow> string" where
  "DenomBaseNameFromID i = ''aLIQUID'' @ decimal i"

definition DenomDisplayNameFromID :: "nat \<Rightarrow> string" where
  "DenomDisplayNameFromID i = ''LIQUID'' @ decimal i"

definition DenomIDFromBaseName :: "string \<Rightarrow> nat result" where
  "DenomIDFromBaseName baseName =
     (case Atoi (TrimPrefix baseName ''aLIQUID'') of
        Inl e \<Rightarrow> Inl e
      | Inr n \<Rightarrow> if n < 0 then Inl (Errorf ''denom id out of range'') else Inr (nat n))"

section \<open>Denominations, parameters, genesis\<close>

record 'c denom =
  BaseDenom :: string
  DisplayDenom :: string
  OriginalDenom :: string
  dnStartTime :: int
  dnEndTime :: int
  dnLockupPeriods :: "'c period list"

record lv_params =
  MinimumLiquidationAmount :: int
  EnableLiquidVesting :: bool

definition DefaultParams :: lv_params where
  "DefaultParams = \<lparr>MinimumLiquidationAmount = 1000 * 10 ^ 18, EnableLiquidVesting = True\<rparr>"

definition validateMathIntPositive :: "int \<Rightarrow> unit result" where
  "validateMathIntPositive n = guard_r (0 < n) (Errorf ''parameter value must be positive'')"

definition Params_Validate :: "lv_params \<Rightarrow> unit result" where
  "Params_Validate p = validateMathIntPositive (MinimumLiquidationAmount p)"

record 'c lv_genesis =
  gsParams :: lv_params
  gsDenomCounter :: nat
  gsDenoms :: "'c denom list"

definition DefaultGenesisState :: "'c lv_genesis" where
  "DefaultGenesisState = \<lparr>gsParams = DefaultParams, gsDenomCounter = 0, gsDenoms = []\<rparr>"

fun validateDenoms_loop :: "'c coins_api \<Rightarrow> nat \<Rightarrow> string list \<Rightarrow> 'c denom list \<Rightarrow> unit result" where
  "validateDenoms_loop K counter denomBaseNameMap [] = Inr ()"
| "validateDenoms_loop K counter denomBaseNameMap (elem # rest) =
     (if dnEndTime elem < dnStartTime elem then Inl (Errorf ''denom start time cannot be after end time'')
      else if list_ex (\<lambda>period. list_ex (\<lambda>x. Amt x < 0) (coItems K (Amount period))) (dnLockupPeriods elem)
      then Inl (Errorf ''denom periods cannot contain negative amount'')
      else if BaseDenom elem \<in> set denomBaseNameMap
      then Inl (Errorf ''duplicated denom base name for liquid denom'')
      else case DenomIDFromBaseName (BaseDenom elem) of
        Inl _ \<Rightarrow> Inl (Errorf ''invalid denom base name'')
      | Inr denomID \<Rightarrow>
          if counter \<le> denomID then Inl (Errorf ''denom id should be lower or equal than the last id'')
          else validateDenoms_loop K counter (BaseDenom elem # denomBaseNameMap) rest)"

definition validateDenoms :: "'c coins_api \<Rightarrow> 'c lv_genesis \<Rightarrow> unit result" where
  "validateDenoms K gs = validateDenoms_loop K (gsDenomCounter gs) [] (gsDenoms gs)"

definition GenesisState_Validate :: "'c coins_api \<Rightarrow> 'c lv_genesis \<Rightarrow> unit result" where
  "GenesisState_Validate K gs = bind_r (Params_Validate (gsParams gs)) (\<lambda>_. validateDenoms K gs)"

section \<open>Messages\<close>

text \<open>\<^verbatim>\<open>MsgLiquidate\<close> and \<^verbatim>\<open>MsgRedeem\<close> have the same fields: sender, recipient and amount.\<close>

record msg_liquid =
  mlFrom :: string
  mlTo :: string
  mlAmount :: coin

definition MsgLiquidate_ValidateBasic :: "addr_api \<Rightarrow> msg_liquid \<Rightarrow> unit result" where
  "MsgLiquidate_ValidateBasic X msg =
     (if \<not> 0 < Amt (mlAmount msg) then Inl (Wrapf ErrInvalidCoins ''cannot liquidate non-positive amount'')
      else bind_r (of_option (Errorf ''invalid account address liquidateFrom'') (accFromBech32 X (mlFrom msg))) (\<lambda>_.
           bind_r (of_option (Errorf ''invalid account address liquidateTo'') (accFromBech32 X (mlTo msg))) (\<lambda>_. Inr ())))"

definition MsgRedeem_ValidateBasic :: "addr_api \<Rightarrow> msg_liquid \<Rightarrow> unit result" where
  "MsgRedeem_ValidateBasic X msg =
     (if \<not> 0 < Amt (mlAmount msg) then Inl (Wrapf ErrInvalidCoins ''cannot liquidate non-positive amount'')
      else bind_r (of_option (Errorf ''invalid account address redeemFrom'') (accFromBech32 X (mlFrom msg))) (\<lambda>_.
           bind_r (of_option (Errorf ''invalid account address redeemTo'') (accFromBech32 X (mlTo msg))) (\<lambda>_. Inr ())))"

section \<open>Names and numbers round trip\<close>

lemma of_char_digit: "n < 10 \<Longrightarrow> (of_char (char_of (48 + n)) :: nat) = 48 + n"
  by simp

lemma digits_value_snoc: "digits_value (cs @ [c]) = 10 * digits_value cs + (of_char c - 48)"
  by (simp add: digits_value_def)

lemma decimal_ok: "decimal n \<noteq> [] \<and> list_all is_digit (decimal n) \<and> digits_value (decimal n) = n"
proof (induction n rule: decimal.induct)
  case (1 n)
  show ?case
  proof (cases "n < 10")
    case True
    then show ?thesis by (simp add: decimal.simps[of n] is_digit_def digits_value_def of_char_digit)
  next
    case False
    have m: "n mod 10 < 10" by simp
    show ?thesis
      using 1[OF False] False of_char_digit[OF m]
      by (simp add: decimal.simps[of n] digits_value_snoc is_digit_def)
  qed
qed

lemma decimal_not_signed: "hd (decimal n) \<noteq> CHR ''-'' \<and> hd (decimal n) \<noteq> CHR ''+''"
proof -
  have "is_digit (hd (decimal n))" using decimal_ok[of n] by (cases "decimal n") auto
  then show ?thesis by (auto simp: is_digit_def)
qed

lemma Atoi_decimal: "Atoi (decimal n) = (if int n < 2 ^ 63 then Inr (int n) else Inl (Errorf ''value out of range''))"
  using decimal_ok[of n] decimal_not_signed[of n] by (simp add: Atoi_def Let_def in64_def)

lemma DenomID_of_name:
  "DenomIDFromBaseName (DenomBaseNameFromID i) =
     (if i < 2 ^ 63 then Inr i else Inl (Errorf ''value out of range''))"
proof -
  have "TrimPrefix (DenomBaseNameFromID i) ''aLIQUID'' = decimal i"
    by (simp add: TrimPrefix_def DenomBaseNameFromID_def)
  moreover have "int i < 2 ^ 63 \<longleftrightarrow> i < 2 ^ 63" by simp
  ultimately show ?thesis by (simp add: DenomIDFromBaseName_def Atoi_decimal)
qed

text \<open>
  C17. The name of a liquid token determines its id and back: every id below \<open>2^63\<close> is read
  back from its base name, and different ids have different base and display names. From
  \<open>2^63\<close> on, ids of the 64-bit counter have names that no longer parse.
\<close>

theorem denom_names_round_trip:
  "DenomIDFromBaseName (DenomBaseNameFromID i) =
     (if i < 2 ^ 63 then Inr i else Inl (Errorf ''value out of range'')) \<and>
   (DenomBaseNameFromID i = DenomBaseNameFromID j \<longleftrightarrow> i = j) \<and>
   (DenomDisplayNameFromID i = DenomDisplayNameFromID j \<longleftrightarrow> i = j)"
proof -
  have "decimal i = decimal j \<Longrightarrow> i = j" using decimal_ok[of i] decimal_ok[of j] by metis
  then show ?thesis
    unfolding DenomID_of_name by (auto simp: DenomBaseNameFromID_def DenomDisplayNameFromID_def)
qed

text \<open>What genesis validation guarantees of the denominations.\<close>

lemma validateDenoms_loop_ok:
  "validateDenoms_loop K counter seen ds = Inr () \<Longrightarrow>
     distinct (map BaseDenom ds) \<and> set (map BaseDenom ds) \<inter> set seen = {} \<and>
     (\<forall>x\<in>set ds. dnStartTime x \<le> dnEndTime x \<and> (\<exists>i<counter. DenomIDFromBaseName (BaseDenom x) = Inr i))"
  by (induction K counter seen ds rule: validateDenoms_loop.induct)
    (auto split: if_splits sum.splits)

end
