(* ===== verification/LiquidKeeper.thy ===== *)
theory LiquidKeeper
  imports LiquidDenom VestingKeeper
begin

text \<open>
  The liquid vesting keeper: \<^verbatim>\<open>x/liquidvesting/keeper/keeper.go\<close> (\<^verbatim>\<open>Liquidate\<close>, \<^verbatim>\<open>Redeem\<close>),
  \<^verbatim>\<open>denom.go\<close>, \<^verbatim>\<open>params.go\<close>, \<^verbatim>\<open>msg_server.go\<close>, \<^verbatim>\<open>grpc_query.go\<close> and \<^verbatim>\<open>x/liquidvesting/genesis.go\<close>.
  The store, the bank and the ERC20 keeper of \<^verbatim>\<open>types/interfaces.go\<close> are fields of the
  environment; the vesting keeper is the one of \<open>VestingKeeper\<close>.
\<close>

section \<open>Environment\<close>

record token_pair =
  Erc20Address :: string
  tpDenom :: string
  tpEnabled :: bool
  tpContractOwner :: nat

record metadata =
  mdDescription :: string
  mdDenomUnits :: "(string \<times> nat) list"
  mdBase :: string
  mdDisplay :: string
  mdName :: string
  mdSymbol :: string

record ('s, 'c, 'v) lv_env =
  lvVest :: "('s, 'c, 'v) vest_env"
  lvGetParamSet :: "'s \<Rightarrow> lv_params"
  lvSetParamSet :: "'s \<Rightarrow> lv_params \<Rightarrow> 's"
  dsGet :: "'s \<Rightarrow> string \<Rightarrow> 'c denom option"
  dsSet :: "'s \<Rightarrow> string \<Rightarrow> 'c denom \<Rightarrow> 's"
  dsDelete :: "'s \<Rightarrow> string \<Rightarrow> 's"
  dsValues :: "'s \<Rightarrow> 'c denom list"
  ctrGet :: "'s \<Rightarrow> nat option"
  ctrSet :: "'s \<Rightarrow> nat \<Rightarrow> 's"
  bk_GetBalance :: "'s \<Rightarrow> acc_address \<Rightarrow> string \<Rightarrow> coin"
  bk_SendCoinsFromAccountToModule :: "'s \<Rightarrow> acc_address \<Rightarrow> string \<Rightarrow> 'c \<Rightarrow> 's result"
  bk_SendCoinsFromModuleToAccount :: "'s \<Rightarrow> string \<Rightarrow> acc_address \<Rightarrow> 'c \<Rightarrow> 's result"
  bk_MintCoins :: "'s \<Rightarrow> string \<Rightarrow> 'c \<Rightarrow> 's result"
  bk_BurnCoins :: "'s \<Rightarrow> string \<Rightarrow> 'c \<Rightarrow> 's result"
  bk_SetDenomMetaData :: "'s \<Rightarrow> metadata \<Rightarrow> 's"
  ek_ComputeIBCDenom :: "string \<Rightarrow> string \<Rightarrow> string \<Rightarrow> string"
  ek_NewTokenPairSTRv2 :: "string \<Rightarrow> token_pair result"
  ek_GetID :: "token_pair \<Rightarrow> bytes"
  ek_GetTokenPairID :: "'s \<Rightarrow> string \<Rightarrow> bytes"
  ek_GetTokenPair :: "'s \<Rightarrow> bytes \<Rightarrow> token_pair option"
  ek_SetTokenPair :: "'s \<Rightarrow> token_pair \<Rightarrow> 's"
  ek_SetDenomMap :: "'s \<Rightarrow> string \<Rightarrow> bytes \<Rightarrow> 's"
  ek_SetERC20Map :: "'s \<Rightarrow> string \<Rightarrow> bytes \<Rightarrow> 's"
  ek_EnableDynamicPrecompiles :: "'s \<Rightarrow> string \<Rightarrow> 's result"
  ek_ToggleConversion :: "'s \<Rightarrow> string \<Rightarrow> string \<Rightarrow> 's result"

section \<open>Parameters\<close>

definition SetParams :: "('s, 'c, 'v) lv_env \<Rightarrow> 's \<Rightarrow> lv_params \<Rightarrow> 's result" where
  "SetParams E s params = bind_r (Params_Validate params) (\<lambda>_. Inr (lvSetParamSet E s params))"

definition IsLiquidVestingEnabled :: "('s, 'c, 'v) lv_env \<Rightarrow> 's \<Rightarrow> bool" where
  "IsLiquidVestingEnabled E s = EnableLiquidVesting (lvGetParamSet E s)"

definition panic_on_error :: "'a result \<Rightarrow> 'a result" where
  "panic_on_error r = (case r of Inl (Panic p) \<Rightarrow> Inl (Panic p) | Inl _ \<Rightarrow> Inl (Panic ''error'') | Inr x \<Rightarrow> Inr x)"

definition SetLiquidVestingEnabled :: "('s, 'c, 'v) lv_env \<Rightarrow> 's \<Rightarrow> bool \<Rightarrow> 's result" where
  "SetLiquidVestingEnabled E s enable =
     panic_on_error (SetParams E s ((lvGetParamSet E s)\<lparr>EnableLiquidVesting := enable\<rparr>))"

definition ResetParamsToDefault :: "('s, 'c, 'v) lv_env \<Rightarrow> 's \<Rightarrow> 's result" where
  "ResetParamsToDefault E s = panic_on_error (SetParams E s DefaultParams)"

section \<open>The denomination store\<close>

definition GetDenom :: "('s, 'c, 'v) lv_env \<Rightarrow> 's \<Rightarrow> string \<Rightarrow> 'c denom option" where
  "GetDenom E s baseDenom = dsGet E s baseDenom"

definition SetDenom :: "('s, 'c, 'v) lv_env \<Rightarrow> 's \<Rightarrow> 'c denom \<Rightarrow> 's" where
  "SetDenom E s denom = dsSet E s (BaseDenom denom) denom"

definition DeleteDenom :: "('s, 'c, 'v) lv_env \<Rightarrow> 's \<Rightarrow> string \<Rightarrow> 's" where
  "DeleteDenom E s baseDenom = dsDelete E s baseDenom"

definition GetDenomCounter :: "('s, 'c, 'v) lv_env \<Rightarrow> 's \<Rightarrow> nat" where
  "GetDenomCounter E s = (case ctrGet E s of None \<Rightarrow> 0 | Some n \<Rightarrow> n)"

definition SetDenomCounter :: "('s, 'c, 'v) lv_env \<Rightarrow> 's \<Rightarrow> nat \<Rightarrow> 's" where
  "SetDenomCounter E s counter = ctrSet E s counter"

definition CreateDenom :: "('s, 'c, 'v) lv_env \<Rightarrow> 'c coins_api \<Rightarrow> 's \<Rightarrow> string \<Rightarrow> int \<Rightarrow> 'c period list \<Rightarrow>
    's \<times> 'c denom" where
  "CreateDenom E K s originalDenom startTime periods =
     (let counter = GetDenomCounter E s;
          denom = \<lparr>BaseDenom = DenomBaseNameFromID counter, DisplayDenom = DenomDisplayNameFromID counter,
                   OriginalDenom = originalDenom, dnStartTime = startTime,
                   dnEndTime = add64 startTime (coTotalLength K periods), dnLockupPeriods = periods\<rparr>;
          s1 = dsSet E s (BaseDenom denom) denom;
          s2 = SetDenomCounter E s1 ((counter + 1) mod 2 ^ 64)
      in (s2, denom))"

definition UpdateDenomPeriods :: "('s, 'c, 'v) lv_env \<Rightarrow> 's \<Rightarrow> string \<Rightarrow> 'c period list \<Rightarrow> 's result" where
  "UpdateDenomPeriods E s baseDenom newPeriods =
     (case GetDenom E s baseDenom of
        None \<Rightarrow> Inl (Wrapf ErrDenomNotFound '''')
      | Some d \<Rightarrow> Inr (SetDenom E s (d\<lparr>dnLockupPeriods := newPeriods\<rparr>)))"

text \<open>\<^verbatim>\<open>GetAllDenoms\<close>: the loop over the prefix iterator.\<close>

definition GetAllDenoms :: "('s, 'c, 'v) lv_env \<Rightarrow> 's \<Rightarrow> 'c denom list" where
  "GetAllDenoms E s = foldl (\<lambda>denoms d. denoms @ [d]) [] (dsValues E s)"

definition Denom_query :: "('s, 'c, 'v) lv_env \<Rightarrow> 's \<Rightarrow> string option \<Rightarrow> 'c denom result" where
  "Denom_query E s req =
     (case req of
        None \<Rightarrow> Inl (Errorf ''InvalidArgument: invalid request'')
      | Some d \<Rightarrow> of_option (Errorf ''NotFound: not found'') (GetDenom E s d))"

definition InitGenesis :: "('s, 'c, 'v) lv_env \<Rightarrow> 's \<Rightarrow> 'c lv_genesis \<Rightarrow> 's result" where
  "InitGenesis E s data =
     bind_r (panic_on_error (SetParams E s (gsParams data))) (\<lambda>s1.
     Inr (foldl (SetDenom E) (SetDenomCounter E s1 (gsDenomCounter data)) (gsDenoms data)))"

definition ExportGenesis :: "('s, 'c, 'v) lv_env \<Rightarrow> 's \<Rightarrow> 'c lv_genesis" where
  "ExportGenesis E s = \<lparr>gsParams = lvGetParamSet E s, gsDenomCounter = GetDenomCounter E s, gsDenoms = GetAllDenoms E s\<rparr>"

section \<open>Liquidate and redeem\<close>

definition wrap_err :: "sdk_error \<Rightarrow> string \<Rightarrow> 'a result \<Rightarrow> 'a result" where
  "wrap_err code msg r = (case r of Inl (Panic p) \<Rightarrow> Inl (Panic p)
     | Inl _ \<Rightarrow> Inl (Wrapf code msg) | Inr x \<Rightarrow> Inr x)"

lemma wrap_err_of_Inr [simp]: "wrap_err c m (Inr x) = Inr x"
  by (simp add: wrap_err_def)

lemma wrap_err_Inr [simp]: "wrap_err c m r = Inr x \<longleftrightarrow> r = Inr x"
  by (auto simp: wrap_err_def split: sum.splits err.splits)

text \<open>\<^verbatim>\<open>Coin.IsLT\<close> panics on different denominations.\<close>

definition Coin_IsLT :: "coin \<Rightarrow> coin \<Rightarrow> bool result" where
  "Coin_IsLT a b = (if Denom a \<noteq> Denom b then Inl (Panic ''invalid coin denominations'') else Inr (Amt a < Amt b))"

definition ModuleName :: string where
  "ModuleName = ''liquidvesting''"

definition liquid_metadata :: "'c denom \<Rightarrow> metadata" where
  "liquid_metadata liquidDenom = \<lparr>mdDescription = ''Liquid vesting token'',
     mdDenomUnits = [(BaseDenom liquidDenom, 0), (DisplayDenom liquidDenom, 18)],
     mdBase = BaseDenom liquidDenom, mdDisplay = DisplayDenom liquidDenom,
     mdName = DisplayDenom liquidDenom, mdSymbol = DisplayDenom liquidDenom\<rparr>"

text \<open>The account with the amount taken out of its schedules, and the subtracted lockup periods.\<close>

definition liquidate_account :: "'c coins_api \<Rightarrow> int \<Rightarrow> 'c clawback_account \<Rightarrow> coin \<Rightarrow>
    ('c clawback_account \<times> 'c period list) result" where
  "liquidate_account K blockTime va amount =
     (let upcomingPeriods = ExtractUpcomingPeriods (StartTime va) (EndTime va) (LockupPeriods va) blockTime in
      bind_r (wrap_err ErrLiquidationFailed ''failed to calculate new schedule''
               (SubtractAmountFromPeriods K upcomingPeriods amount)) (\<lambda>(decreasedPeriods, diffPeriods).
      bind_r (subCoin K (OriginalVesting va) amount) (\<lambda>originalVesting.
      bind_r (wrap_err ErrLiquidationFailed ''failed to calculate new schedule''
               (SubtractAmountFromPeriods K (VestingPeriods va) amount)) (\<lambda>(decreasedVestingPeriods, _).
      Inr (va\<lparr>LockupPeriods := ReplacePeriodsTail (LockupPeriods va) decreasedPeriods,
              OriginalVesting := originalVesting,
              VestingPeriods := ReplacePeriodsTail (VestingPeriods va) decreasedVestingPeriods\<rparr>, diffPeriods)))))"

text \<open>Binding the new denomination to an ERC20 precompile.\<close>

definition bind_erc20 :: "('s, 'c, 'v) lv_env \<Rightarrow> 's \<Rightarrow> string \<Rightarrow> string \<Rightarrow> ('s \<times> string) result" where
  "bind_erc20 E s base originalDenom =
     (let fakeIBCDenom = ek_ComputeIBCDenom E ModuleName base originalDenom in
      bind_r (wrap_err ErrLiquidationFailed ''failed to create erc20 token pair'' (ek_NewTokenPairSTRv2 E fakeIBCDenom)) (\<lambda>pair.
      let tokenPair = pair\<lparr>tpDenom := base\<rparr>;
          s1 = ek_SetTokenPair E s tokenPair;
          s2 = ek_SetDenomMap E s1 (tpDenom tokenPair) (ek_GetID E tokenPair);
          s3 = ek_SetERC20Map E s2 (Erc20Address tokenPair) (ek_GetID E tokenPair) in
      bind_r (ek_EnableDynamicPrecompiles E s3 (Erc20Address tokenPair)) (\<lambda>s4.
      Inr (s4, Erc20Address tokenPair))))"

definition Liquidate :: "('s, 'c, 'v) lv_env \<Rightarrow> 'c coins_api \<Rightarrow> int \<Rightarrow> 's \<Rightarrow> acc_address \<Rightarrow> acc_address \<Rightarrow> coin \<Rightarrow>
    ('s \<times> coin \<times> string) result" where
  "Liquidate E K blockTime s liquidateFromAddress liquidateToAddress amount =
     (let V = lvVest E in
      if \<not> IsLiquidVestingEnabled E s then Inl (Wrapf ErrModuleIsDisabled ''liquid vesting module is disabled'')
      else if Denom amount \<noteq> ''aISLM'' then Inl (Wrapf ErrInvalidRequest ''unable to liquidate any other coin except aISLM'')
      else
       bind_r (newCoin K ''aISLM'' (MinimumLiquidationAmount (lvGetParamSet E s))) (\<lambda>minLiquidation.
       bind_r (Coin_IsLT amount minLiquidation) (\<lambda>tooSmall.
       if tooSmall then Inl (Wrapf ErrInvalidRequest ''unable to liquidate amount lesser than the minimum'')
       else case ak_GetAccount V s liquidateFromAddress of
         None \<Rightarrow> Inl (Wrapf ErrNotFound ''account does not exist'')
       | Some (EthAcc _) \<Rightarrow> Inl (Wrapf ErrInvalidRequest ''account is regular nothing to liquidate'')
       | Some (OtherAcc _) \<Rightarrow> Inl (Wrapf ErrInvalidRequest ''account is regular nothing to liquidate'')
       | Some (ClawbackAcc va) \<Rightarrow>
           bind_r (GetVestingCoins K va blockTime) (\<lambda>vestingCoins.
           if \<not> coIsZero K vestingCoins
           then Inl (Wrapf ErrInvalidRequest ''account has vesting ongoing periods, unable to liquidate unvested coins'')
           else
            bind_r (GetLockedUpCoins K va blockTime) (\<lambda>lockedUp.
            let (hasTargetDenom, lockedBalance) = coFind K lockedUp (Denom amount) in
            if \<not> hasTargetDenom
            then Inl (Wrapf ErrInvalidRequest ''account does not contain coin specified as liquidation target'')
            else
             bind_r (Coin_IsLT lockedBalance amount) (\<lambda>insufficient.
             if insufficient
             then Inl (Wrapf ErrInvalidRequest ''account does not have sufficient amount of target coin for liquidation'')
             else
              bind_r (liquidate_account K blockTime va amount) (\<lambda>(va', diffPeriods).
              let s1 = ak_SetAccount V s (ClawbackAcc va') in
              bind_r (wrap_err ErrLiquidationFailed ''failed to transfer liquidated locked coins from account to module''
                       (bk_SendCoinsFromAccountToModule E s1 liquidateFromAddress ModuleName (coNewCoins K amount))) (\<lambda>s2.
              if diffPeriods = [] then Inl (Panic ''index out of range'')
              else
               (let (s3, liquidDenom) = CreateDenom E K s2 (Denom amount) blockTime
                      (liquid_periods (StartTime va') blockTime (LockupPeriods va') diffPeriods) in
                bind_r (newCoin K (BaseDenom liquidDenom) (Amt amount)) (\<lambda>liquidTokenCoin.
                let liquidTokenCoins = coNewCoins K liquidTokenCoin in
                bind_r (wrap_err ErrLiquidationFailed ''failed to mint liquid token''
                         (bk_MintCoins E s3 ModuleName liquidTokenCoins)) (\<lambda>s4.
                let s5 = bk_SetDenomMetaData E s4 (liquid_metadata liquidDenom) in
                bind_r (wrap_err ErrLiquidationFailed ''failed to transfer liquid tokens to account''
                         (bk_SendCoinsFromModuleToAccount E s5 ModuleName liquidateToAddress liquidTokenCoins)) (\<lambda>s6.
                bind_r (bind_erc20 E s6 (BaseDenom liquidDenom) (Denom amount)) (\<lambda>(s7, contract).
                Inr (s7, liquidTokenCoin, contract))))))))))))))"

definition msgServer_Liquidate :: "('s, 'c, 'v) lv_env \<Rightarrow> 'c coins_api \<Rightarrow> addr_api \<Rightarrow> int \<Rightarrow> 's \<Rightarrow> msg_liquid \<Rightarrow>
    ('s \<times> coin \<times> string) result" where
  "msgServer_Liquidate E K X blockTime s msg =
     bind_r (MsgLiquidate_ValidateBasic X msg) (\<lambda>_.
     bind_r (mustAcc X (mlFrom msg)) (\<lambda>liquidateFromAddress.
     bind_r (if mlTo msg \<noteq> mlFrom msg then mustAcc X (mlTo msg) else Inr liquidateFromAddress) (\<lambda>liquidateToAddress.
     Liquidate E K blockTime s liquidateFromAddress liquidateToAddress (mlAmount msg))))"

definition Redeem :: "('s, 'c, 'v) lv_env \<Rightarrow> 'c coins_api \<Rightarrow> addr_api \<Rightarrow> int \<Rightarrow> 's \<Rightarrow> acc_address \<Rightarrow> acc_address \<Rightarrow> coin \<Rightarrow>
    's result" where
  "Redeem E K X blockTime s fromAddress toAddress amount =
     (let V = lvVest E in
      if \<not> IsLiquidVestingEnabled E s then Inl (Wrapf ErrModuleIsDisabled ''liquid vesting module is disabled'')
      else if ak_GetAccount V s fromAddress = None then Inl (Wrapf ErrNotFound ''account does not exist'')
      else case GetDenom E s (Denom amount) of
        None \<Rightarrow> Inl (Wrapf ErrNotFound ''liquidDenom does not exist'')
      | Some liquidDenom \<Rightarrow>
          (let tokenPairID = ek_GetTokenPairID E s (Denom amount) in
           if length tokenPairID = 0 then Inl (Wrapf ErrNotFound ''token pair for denom not found'')
           else case ek_GetTokenPair E s tokenPairID of
             None \<Rightarrow> Inl (Wrapf ErrNotFound ''token pair for denom not found'')
           | Some tokenPair \<Rightarrow>
               if \<not> tpEnabled tokenPair then Inl (Wrapf ErrNotFound ''token pair for denom not found'')
               else
                bind_r (Coin_IsLT (bk_GetBalance E s fromAddress (Denom amount)) amount) (\<lambda>insufficient.
                if insufficient then Inl (Wrapf ErrRedeemFailed ''from account has insufficient balance'')
                else
                 bind_r (wrap_err ErrRedeemFailed ''failed to transfer liquid token to module''
                          (bk_SendCoinsFromAccountToModule E s fromAddress ModuleName (coNewCoins K amount))) (\<lambda>s1.
                 bind_r (wrap_err ErrRedeemFailed ''failed to burn liquid tokens''
                          (bk_BurnCoins E s1 ModuleName (coNewCoins K amount))) (\<lambda>s2.
                 bind_r (newCoin K (OriginalDenom liquidDenom) (Amt amount)) (\<lambda>originalDenomCoin.
                 bind_r (wrap_err ErrRedeemFailed ''failed to calculate new liquid denom schedule''
                          (SubtractAmountFromPeriods K (dnLockupPeriods liquidDenom) originalDenomCoin)) (\<lambda>(decreasedPeriods, diffPeriods).
                 bind_r (if coIsZero K (coTotalAmount K decreasedPeriods)
                         then (let s3 = DeleteDenom E s2 (BaseDenom liquidDenom) in
                               if tpEnabled tokenPair
                               then wrap_err ErrRedeemFailed ''failed to disable conversion''
                                      (ek_ToggleConversion E s3 (accString X (ak_GetModuleAddress V ''gov'')) (Denom amount))
                               else Inr s3)
                         else wrap_err ErrRedeemFailed ''failed to update liquid denom schedule''
                                (UpdateDenomPeriods E s2 (BaseDenom liquidDenom) decreasedPeriods)) (\<lambda>s4.
                 bind_r (wrap_err ErrRedeemFailed ''failed to transfer original denom to target account''
                          (bk_SendCoinsFromModuleToAccount E s4 ModuleName toAddress (coNewCoins K originalDenomCoin))) (\<lambda>s5.
                 let upcomingPeriods = ExtractUpcomingPeriods (dnStartTime liquidDenom) (dnEndTime liquidDenom)
                       diffPeriods blockTime in
                 if 0 < length upcomingPeriods
                 then
                  (let moduleFunder = ak_GetModuleAddress V ModuleName in
                   if moduleFunder = [] then Inl (Wrapf ErrRedeemFailed ''failed to get funder address'')
                   else case ak_GetAccount V s5 toAddress of
                     None \<Rightarrow> Inl (Wrapf ErrNotFound ''account does not exist'')
                   | Some toAccount \<Rightarrow>
                       bind_r (case toAccount of
                                 ClawbackAcc toVestingAcc \<Rightarrow> mustAcc X (FunderAddress toVestingAcc)
                               | _ \<Rightarrow> Inr moduleFunder) (\<lambda>funder.
                       bind_r (wrap_err ErrRedeemFailed ''failed to apply vesting schedule to account''
                                (ApplyVestingSchedule V K X s5 funder toAddress (coNewCoins K originalDenomCoin)
                                   (dnStartTime liquidDenom) diffPeriods
                                   [\<lparr>Length = 0, Amount = coNewCoins K originalDenomCoin\<rparr>] True)) (\<lambda>(s6, _, _, _).
                       Inr s6)))
                 else Inr s5)))))))))"

definition msgServer_Redeem :: "('s, 'c, 'v) lv_env \<Rightarrow> 'c coins_api \<Rightarrow> addr_api \<Rightarrow> int \<Rightarrow> 's \<Rightarrow> msg_liquid \<Rightarrow> 's result" where
  "msgServer_Redeem E K X blockTime s msg =
     bind_r (MsgRedeem_ValidateBasic X msg) (\<lambda>_.
     bind_r (mustAcc X (mlFrom msg)) (\<lambda>fromAddress.
     bind_r (mustAcc X (mlTo msg)) (\<lambda>toAddress.
     Redeem E K X blockTime s fromAddress toAddress (mlAmount msg))))"

section \<open>Taking an amount out of an account\<close>

context coins_laws
begin

lemma liquidate_account_ok:
  assumes ok: "account_ok K va" and vested: "\<And>d. vested_at K va t d = coAmountOf K (OriginalVesting va) d"
    and amt: "denom_ok (Denom x)" "0 < Amt x"
    and le: "Amt x \<le> coAmountOf K (OriginalVesting va) (Denom x) - unlocked_at K va t (Denom x)"
    and bound: "coAmountOf K (OriginalVesting va) (Denom x) * Amt x < 2 ^ 256"
  obtains va' diff where "liquidate_account K t va x = Inr (va', diff)" "diff \<noteq> []" "account_ok K va'"
    "va' = va\<lparr>LockupPeriods := LockupPeriods va', OriginalVesting := OriginalVesting va', VestingPeriods := VestingPeriods va'\<rparr>"
    "sched_ok K t (liquid_periods (StartTime va) t (LockupPeriods va') diff)"
    "\<And>t' a. released K (StartTime va) (LockupPeriods va') t' a +
       released K t (liquid_periods (StartTime va) t (LockupPeriods va') diff) t' a =
       released K (StartTime va) (LockupPeriods va) t' a"
    "total_amount K (liquid_periods (StartTime va) t (LockupPeriods va') diff) (Denom x) = Amt x"
    "\<And>a. coAmountOf K (OriginalVesting va') a =
       coAmountOf K (OriginalVesting va) a - (if a = Denom x then Amt x else 0)"
    "\<And>d. vested_at K va' t d = coAmountOf K (OriginalVesting va') d"
proof -
  let ?s = "StartTime va" and ?ps = "LockupPeriods va" and ?d = "Denom x" and ?O = "coAmountOf K (OriginalVesting va)"
  let ?up = "ExtractUpcomingPeriods ?s (EndTime va) ?ps t"
  note a = account_okD[OF ok]
  have st: "?s < t" using vested le amt(2) unlocked_bounds(1)[OF ok, of t ?d] by (cases "t \<le> ?s") (auto simp: vested_at_def)
  have tup: "total_amount K ?up ?d = ?O ?d - unlocked_at K va t ?d"
  proof -
    have "total_amount K ?ps ?d = total_amount K (take (ReadPastPeriodCount ?s (EndTime va) ?ps t) ?ps) ?d + total_amount K ?up ?d"
      unfolding ExtractUpcomingPeriods_def total_amount_simps(3)[symmetric] by simp
    then show ?thesis using ReadPastPeriodCount_take[OF a(1) a(3), of t ?d] a(8)[of ?d] st by (simp add: unlocked_at_def)
  qed
  have bu: "total_amount K ?up ?d * Amt x < 2 ^ 256"
  proof -
    have "total_amount K ?up ?d * Amt x \<le> ?O ?d * Amt x"
      unfolding tup using unlocked_bounds(1)[OF ok, of t ?d] amt(2) by (intro mult_right_mono) auto
    then show ?thesis using bound by (rule order_le_less_trans)
  qed
  have up: "0 \<le> Amt x" "Amt x \<le> total_amount K ?up ?d" "0 < total_amount K ?up ?d" using amt(2) le tup by linarith+
  obtain dec diff where lk: "SubtractAmountFromPeriods K ?up x = Inr (dec, diff)" "diff \<noteq> []"
    "map Length (ReplacePeriodsTail ?ps dec) = map Length ?ps" "sched_ok K ?s (ReplacePeriodsTail ?ps dec)"
    "sched_ok K t (liquid_periods ?s t (ReplacePeriodsTail ?ps dec) diff)"
    "\<And>t' a. released K ?s (ReplacePeriodsTail ?ps dec) t' a +
       released K t (liquid_periods ?s t (ReplacePeriodsTail ?ps dec) diff) t' a = released K ?s ?ps t' a"
    "total_amount K (liquid_periods ?s t (ReplacePeriodsTail ?ps dec) diff) ?d = Amt x"
    "\<And>a. total_amount K (ReplacePeriodsTail ?ps dec) a +
       total_amount K (liquid_periods ?s t (ReplacePeriodsTail ?ps dec) diff) a = total_amount K ?ps a"
    "\<And>a. a \<noteq> ?d \<Longrightarrow> total_amount K (liquid_periods ?s t (ReplacePeriodsTail ?ps dec) diff) a = 0"
    by (fact liquidation_split[OF a(1) st a(3) refl amt(1) up bu])
  have vp: "list_all (\<lambda>p. coIsValid K (Amount p)) (VestingPeriods va)" using a(2) by (auto simp: sched_ok_def list_all_iff)
  have Ole: "Amt x \<le> ?O ?d" using le unlocked_bounds(1)[OF ok, of t ?d] by simp
  have vO: "Amt x \<le> total_amount K (VestingPeriods va) ?d" "0 < total_amount K (VestingPeriods va) ?d"
    "total_amount K (VestingPeriods va) ?d * Amt x < 2 ^ 256" using Ole amt(2) bound
    unfolding a(9)[of ?d, symmetric] by linarith+
  obtain pairs where vs: "SubtractAmountFromPeriods K (VestingPeriods va) x = Inr (map fst pairs, map snd pairs)"
    "list_all2 (split_of K ?d) (VestingPeriods va) pairs" "total_amount K (map snd pairs) ?d = Amt x"
    using SubtractAmountFromPeriods_ok[OF amt(1) up(1) vO vp] by metis
  note am = split_amounts[OF vs(2)]
  have rep: "ReplacePeriodsTail (VestingPeriods va) (map fst pairs) = map fst pairs"
    using list_all2_lengthD[OF vs(2)] by (simp add: ReplacePeriodsTail_def)
  obtain ov where ov: "subCoin K (OriginalVesting va) x = Inr ov" "coIsValid K ov"
    "\<And>e. coAmountOf K ov e = ?O e - (if e = ?d then Amt x else 0)"
    using subCoin_ok[OF a(5) amt(1) up(1) Ole] by (metis coin.surjective old.unit.exhaust)
  let ?va = "va\<lparr>LockupPeriods := ReplacePeriodsTail ?ps dec, OriginalVesting := ov, VestingPeriods := map fst pairs\<rparr>"
  have sv: "sched_ok K ?s (map fst pairs)" by (rule sched_ok_by_lengths[OF a(2) am(3) am(5)])
  have tl: "total_amount K (ReplacePeriodsTail ?ps dec) e = coAmountOf K ov e" for e
    using lk(7) lk(8)[of e] lk(9)[of e] a(8)[of e] ov(3)[of e] by (cases "e = ?d") auto
  have tv: "total_amount K (map fst pairs) e = coAmountOf K ov e" for e
    using am(1)[of e] vs(3) split_other[OF vs(2), of e] a(9)[of e] ov(3)[of e] by (cases "e = ?d") auto
  have ok': "account_ok K ?va"
    using a lk(4) sv ov(2) tl tv total_length_by_map[OF lk(3)] total_length_by_map[OF am(3)]
    by (simp add: account_ok_def)
  have sdiff: "sched_ok K ?s (map snd pairs)" by (rule sched_ok_by_lengths[OF a(2) am(4) am(6)])
  have "vested_at K ?va t e = coAmountOf K ov e" for e
  proof -
    have "released K ?s (map fst pairs) t e + released K ?s (map snd pairs) t e =
        total_amount K (map fst pairs) e + total_amount K (map snd pairs) e"
      using vested[of e] st am(1)[of e] am(2)[of ?s t e] a(9)[of e] by (simp add: vested_at_def)
    then have "released K ?s (map fst pairs) t e = total_amount K (map fst pairs) e"
      using released_le_total[OF sv, of t e] released_le_total[OF sdiff, of t e] by linarith
    then show ?thesis using tv st by (simp add: vested_at_def)
  qed
  then show ?thesis
    using that[of ?va diff] lk ok' ov rep vs(1) by (simp add: liquidate_account_def Let_def)
qed

end

section \<open>What the keepers promise\<close>

definition same_store :: "('s, 'c, 'v) lv_env \<Rightarrow> 's \<Rightarrow> 's \<Rightarrow> bool" where
  "same_store E s s' \<longleftrightarrow> dsGet E s' = dsGet E s \<and> ctrGet E s' = ctrGet E s"

definition same_bank :: "('s, 'c, 'v) lv_env \<Rightarrow> 's \<Rightarrow> 's \<Rightarrow> bool" where
  "same_bank E s s' \<longleftrightarrow> ak_GetAccount (lvVest E) s' = ak_GetAccount (lvVest E) s \<and>
     bk_GetAllBalances (lvVest E) s' = bk_GetAllBalances (lvVest E) s"

text \<open>Minting (\<open>sg = 1\<close>) and burning (\<open>sg = -1\<close>) at one address.\<close>

definition changed_at :: "('s, 'c, 'v) lv_env \<Rightarrow> 'c coins_api \<Rightarrow> int \<Rightarrow> acc_address \<Rightarrow> 'c \<Rightarrow> 's \<Rightarrow> 's \<Rightarrow> bool" where
  "changed_at E K sg a c s s' \<longleftrightarrow>
     (\<forall>b d. coAmountOf K (bk_GetAllBalances (lvVest E) s' b) d = coAmountOf K (bk_GetAllBalances (lvVest E) s b) d
        + (if b = a then sg * coAmountOf K c d else 0))"

text \<open>
  Registering a contract address sets the code hash of the account there and touches no
  other field of a vesting account.
\<close>

definition accounts_kept_code :: "('s, 'c, 'v) lv_env \<Rightarrow> 's \<Rightarrow> 's \<Rightarrow> bool" where
  "accounts_kept_code E s s' \<longleftrightarrow>
     (\<forall>a va. ak_GetAccount (lvVest E) s a = Some (ClawbackAcc va) \<longrightarrow>
        (\<exists>h. ak_GetAccount (lvVest E) s' a = Some (ClawbackAcc (va\<lparr>CodeHash := h\<rparr>)))) \<and>
     (\<forall>a acc. ak_GetAccount (lvVest E) s' a = Some acc \<longrightarrow> ak_GetAccount (lvVest E) s a = Some acc \<or>
        (\<exists>va h. ak_GetAccount (lvVest E) s a = Some (ClawbackAcc va) \<and> acc = ClawbackAcc (va\<lparr>CodeHash := h\<rparr>)) \<or>
        ak_GetAddress (lvVest E) (base_of acc) = a \<and> (\<forall>va. acc \<noteq> ClawbackAcc va))"

locale lv_laws = vest_laws K denom_ok X "lvVest E"
  for K :: "'c coins_api" and denom_ok :: "string \<Rightarrow> bool" and X :: addr_api and E :: "('s, 'c, 'v) lv_env" +
  assumes ds_set: "dsGet E (dsSet E s d x) = (dsGet E s)(d \<mapsto> x) \<and> ctrGet E (dsSet E s d x) = ctrGet E s \<and>
      same_bank E s (dsSet E s d x)"
    and ds_delete: "dsGet E (dsDelete E s d) = (dsGet E s)(d := None) \<and> ctrGet E (dsDelete E s d) = ctrGet E s \<and>
      same_bank E s (dsDelete E s d)"
    and ctr_set: "ctrGet E (ctrSet E s n) = Some n \<and> dsGet E (ctrSet E s n) = dsGet E s \<and> same_bank E s (ctrSet E s n)"
    and params_set: "same_store E s (lvSetParamSet E s p) \<and> same_bank E s (lvSetParamSet E s p)"
    and account_store: "same_store E s (ak_SetAccount (lvVest E) s acc)"
    and new_account_store: "same_store E s (fst (ak_NewAccount (lvVest E) s acc))"
    and to_module: "bk_SendCoinsFromAccountToModule E s a m c = Inr s' \<Longrightarrow> same_store E s s' \<and>
      accounts_kept (lvVest E) s s' \<and> (coIsValid K c \<longrightarrow> moved (lvVest E) K a (ak_GetModuleAddress (lvVest E) m) c s s')"
    and from_module: "bk_SendCoinsFromModuleToAccount E s m a c = Inr s' \<Longrightarrow> same_store E s s' \<and>
      accounts_kept (lvVest E) s s' \<and> (coIsValid K c \<longrightarrow> moved (lvVest E) K (ak_GetModuleAddress (lvVest E) m) a c s s')"
    and mint: "bk_MintCoins E s m c = Inr s' \<Longrightarrow> same_store E s s' \<and> accounts_kept (lvVest E) s s' \<and>
      (coIsValid K c \<longrightarrow> changed_at E K 1 (ak_GetModuleAddress (lvVest E) m) c s s')"
    and burn: "bk_BurnCoins E s m c = Inr s' \<Longrightarrow> same_store E s s' \<and> accounts_kept (lvVest E) s s' \<and>
      (coIsValid K c \<longrightarrow> changed_at E K (- 1) (ak_GetModuleAddress (lvVest E) m) c s s')"
    and metadata_keeps: "same_store E s (bk_SetDenomMetaData E s md) \<and> same_bank E s (bk_SetDenomMetaData E s md)"
    and pair_keeps: "same_store E s (ek_SetTokenPair E s tp) \<and> same_bank E s (ek_SetTokenPair E s tp)"
    and denom_map_keeps: "same_store E s (ek_SetDenomMap E s d bs) \<and> same_bank E s (ek_SetDenomMap E s d bs)"
    and erc20_map_keeps: "same_store E s (ek_SetERC20Map E s d bs) \<and> same_bank E s (ek_SetERC20Map E s d bs)"
    and enable_keeps: "ek_EnableDynamicPrecompiles E s d = Inr s' \<Longrightarrow> same_store E s s' \<and> accounts_kept_code E s s' \<and>
      bk_GetAllBalances (lvVest E) s' = bk_GetAllBalances (lvVest E) s"
    and toggle_keeps: "ek_ToggleConversion E s auth d = Inr s' \<Longrightarrow> same_store E s s' \<and> same_bank E s s'"
begin

lemma same_trans:
  "same_store E s s1 \<Longrightarrow> same_store E s1 s2 \<Longrightarrow> same_store E s s2"
  "same_bank E s s1 \<Longrightarrow> same_bank E s1 s2 \<Longrightarrow> same_bank E s s2"
  by (simp_all add: same_store_def same_bank_def)

lemma same_bank_inv: "same_bank E s s' \<Longrightarrow> vest_inv (lvVest E) K s \<Longrightarrow> vest_inv (lvVest E) K s'"
  by (simp add: same_bank_def vest_inv_def)

lemma kept_code_inv: "accounts_kept_code E s s' \<Longrightarrow> vest_inv (lvVest E) K s \<Longrightarrow> vest_inv (lvVest E) K s'"
  unfolding vest_inv_def accounts_kept_code_def
proof (intro allI impI)
  fix a acc
  assume k: "(\<forall>a va. ak_GetAccount (lvVest E) s a = Some (ClawbackAcc va) \<longrightarrow>
        (\<exists>h. ak_GetAccount (lvVest E) s' a = Some (ClawbackAcc (va\<lparr>CodeHash := h\<rparr>)))) \<and>
     (\<forall>a acc. ak_GetAccount (lvVest E) s' a = Some acc \<longrightarrow> ak_GetAccount (lvVest E) s a = Some acc \<or>
        (\<exists>va h. ak_GetAccount (lvVest E) s a = Some (ClawbackAcc va) \<and> acc = ClawbackAcc (va\<lparr>CodeHash := h\<rparr>)) \<or>
        ak_GetAddress (lvVest E) (base_of acc) = a \<and> (\<forall>va. acc \<noteq> ClawbackAcc va))"
    and inv: "\<forall>a acc. ak_GetAccount (lvVest E) s a = Some acc \<longrightarrow> ak_GetAddress (lvVest E) (base_of acc) = a \<and>
      (\<forall>va. acc = ClawbackAcc va \<longrightarrow> account_ok K va)" and acc: "ak_GetAccount (lvVest E) s' a = Some acc"
  have code: "account_ok K va \<Longrightarrow> account_ok K (va\<lparr>CodeHash := h\<rparr>)" for va h by (auto simp: account_ok_def)
  from k acc consider "ak_GetAccount (lvVest E) s a = Some acc" | va h where "ak_GetAccount (lvVest E) s a = Some (ClawbackAcc va)" "acc = ClawbackAcc (va\<lparr>CodeHash := h\<rparr>)"
    | "ak_GetAddress (lvVest E) (base_of acc) = a" "\<forall>va. acc \<noteq> ClawbackAcc va" by blast
  then show "ak_GetAddress (lvVest E) (base_of acc) = a \<and> (\<forall>va. acc = ClawbackAcc va \<longrightarrow> account_ok K va)"
  proof cases
    case 1
    then show ?thesis using inv by blast
  next
    case 2
    then show ?thesis using inv code by fastforce
  qed auto
qed

lemma kept_trans:
  assumes k1: "accounts_kept (lvVest E) s s1" and k2: "accounts_kept (lvVest E) s1 s2"
  shows "accounts_kept (lvVest E) s s2"
proof -
  let ?G = "ak_GetAccount (lvVest E)"
  have "ak_GetAddress (lvVest E) (base_of acc) = a \<and> (\<forall>va. acc \<noteq> ClawbackAcc va)"
    if n: "?G s a = None" and s2: "?G s2 a = Some acc" for a acc
  proof (cases "?G s1 a")
    case None
    then show ?thesis using k2 s2 unfolding accounts_kept_def by blast
  next
    case (Some acc1)
    then have "acc1 = acc" using k2 s2 unfolding accounts_kept_def by (metis option.inject)
    then show ?thesis using k1 n Some unfolding accounts_kept_def by blast
  qed
  moreover have "?G s a = Some acc \<Longrightarrow> ?G s2 a = Some acc" for a acc
    using k1 k2 unfolding accounts_kept_def by blast
  ultimately show ?thesis unfolding accounts_kept_def by blast
qed

lemma same_bank_kept: "same_bank E s s' \<Longrightarrow> accounts_kept (lvVest E) s s'"
  by (simp add: same_bank_def accounts_kept_def)

lemma bind_erc20_ok:
  assumes "bind_erc20 E s base d = Inr (s', contract)"
  shows "same_store E s s'" "accounts_kept_code E s s'"
    "bk_GetAllBalances (lvVest E) s' = bk_GetAllBalances (lvVest E) s"
proof -
  obtain p where "ek_EnableDynamicPrecompiles E
      (ek_SetERC20Map E (ek_SetDenomMap E (ek_SetTokenPair E s (p\<lparr>tpDenom := base\<rparr>)) base (ek_GetID E (p\<lparr>tpDenom := base\<rparr>)))
        (Erc20Address p) (ek_GetID E (p\<lparr>tpDenom := base\<rparr>))) (Erc20Address p) = Inr s'"
    using assms by (auto simp: bind_erc20_def Let_def bind_r_eq_Inr)
  then obtain pair s3 where s3: "s3 = ek_SetERC20Map E (ek_SetDenomMap E (ek_SetTokenPair E s pair) (tpDenom pair) (ek_GetID E pair))
      (Erc20Address pair) (ek_GetID E pair)" and en: "ek_EnableDynamicPrecompiles E s3 (Erc20Address pair) = Inr s'"
    by (metis token_pair.select_convs(1,2) token_pair.surjective token_pair.update_convs(2))
  have "same_store E s s3 \<and> same_bank E s s3"
    unfolding s3 using pair_keeps denom_map_keeps erc20_map_keeps by (simp add: same_store_def same_bank_def)
  then show "same_store E s s'" "accounts_kept_code E s s'"
    "bk_GetAllBalances (lvVest E) s' = bk_GetAllBalances (lvVest E) s"
    using enable_keeps[OF en] same_trans(1) by (auto simp: same_bank_def accounts_kept_code_def)
qed

lemma CreateDenom_ok:
  assumes "CreateDenom E K s d st ps = (s', dn)"
  shows "dsGet E s' = (dsGet E s)(BaseDenom dn \<mapsto> dn)" "ctrGet E s' = Some ((GetDenomCounter E s + 1) mod 2 ^ 64)"
    "same_bank E s s'" "BaseDenom dn = DenomBaseNameFromID (GetDenomCounter E s)"
    "OriginalDenom dn = d" "dnStartTime dn = st" "dnLockupPeriods dn = ps" "dnEndTime dn = add64 st (coTotalLength K ps)"
proof -
  have s': "s' = ctrSet E (dsSet E s (BaseDenom dn) dn) ((GetDenomCounter E s + 1) mod 2 ^ 64)"
    and dn: "BaseDenom dn = DenomBaseNameFromID (GetDenomCounter E s)" "OriginalDenom dn = d" "dnStartTime dn = st"
      "dnLockupPeriods dn = ps" "dnEndTime dn = add64 st (coTotalLength K ps)"
    using assms by (auto simp: CreateDenom_def Let_def SetDenomCounter_def)
  show "same_bank E s s'" unfolding s' using ds_set ctr_set same_trans(2) by blast
  show "dsGet E s' = (dsGet E s)(BaseDenom dn \<mapsto> dn)" "ctrGet E s' = Some ((GetDenomCounter E s + 1) mod 2 ^ 64)"
    unfolding s' using ds_set ctr_set by auto
qed (use assms in \<open>auto simp: CreateDenom_def Let_def\<close>)

lemma Coin_IsLT_Inr [simp]: "Coin_IsLT a b = Inr r \<longleftrightarrow> Denom a = Denom b \<and> r = (Amt a < Amt b)"
  by (auto simp: Coin_IsLT_def)

lemma newCoin_Inr [simp]: "newCoin K d n = Inr c \<longleftrightarrow> denom_ok d \<and> 0 \<le> n \<and> c = \<lparr>Denom = d, Amt = n\<rparr>"
  by (auto simp: newCoin_def new_coin)

text \<open>The successful path of \<open>Liquidate\<close>, step by step.\<close>

lemma Liquidate_steps:
  assumes "Liquidate E K t s a b x = Inr (s', minted, contract)"
  obtains va vc lc bal va' diff s2 s3 dn s4 s6 where
    "Denom x = ''aISLM''" "denom_ok ''aISLM''" "0 \<le> MinimumLiquidationAmount (lvGetParamSet E s)"
    "MinimumLiquidationAmount (lvGetParamSet E s) \<le> Amt x"
    "ak_GetAccount (lvVest E) s a = Some (ClawbackAcc va)" "GetVestingCoins K va t = Inr vc" "coIsZero K vc"
    "GetLockedUpCoins K va t = Inr lc" "coFind K lc (Denom x) = (True, bal)" "Amt x \<le> Amt bal"
    "liquidate_account K t va x = Inr (va', diff)"
    "bk_SendCoinsFromAccountToModule E (ak_SetAccount (lvVest E) s (ClawbackAcc va')) a ModuleName (coNewCoins K x) = Inr s2"
    "CreateDenom E K s2 (Denom x) t (liquid_periods (StartTime va') t (LockupPeriods va') diff) = (s3, dn)"
    "denom_ok (BaseDenom dn)" "minted = \<lparr>Denom = BaseDenom dn, Amt = Amt x\<rparr>"
    "bk_MintCoins E s3 ModuleName (coNewCoins K minted) = Inr s4"
    "bk_SendCoinsFromModuleToAccount E (bk_SetDenomMetaData E s4 (liquid_metadata dn)) ModuleName b (coNewCoins K minted) = Inr s6"
    "bind_erc20 E s6 (BaseDenom dn) (Denom x) = Inr (s', contract)"
proof -
  obtain va where x: "Denom x = ''aISLM''" and acc: "ak_GetAccount (lvVest E) s a = Some (ClawbackAcc va)"
    using assms unfolding Liquidate_def Let_def
    by (auto simp: bind_r_eq_Inr split: if_splits option.splits account.splits)
  show ?thesis
    using assms unfolding Liquidate_def Let_def acc option.case account.case
    apply (clarsimp simp: x bind_r_eq_Inr case_prod_beta not_less)
    subgoal for vc lc va' diff s2 s4 s6
      by (rule that[of va vc lc "snd (coFind K lc ''aISLM'')" va' diff s2
          "fst (CreateDenom E K s2 ''aISLM'' t (liquid_periods (StartTime va') t (LockupPeriods va') diff))"
          "snd (CreateDenom E K s2 ''aISLM'' t (liquid_periods (StartTime va') t (LockupPeriods va') diff))" s4 s6])
        (auto simp: x acc prod_eq_iff)
    done
qed

lemma coins_of_coin:
  assumes "denom_ok (Denom x)" "0 \<le> Amt x"
  shows "coIsValid K (coNewCoins K x)" "coAmountOf K (coNewCoins K x) d = (if d = Denom x then Amt x else 0)"
  using valid_new_coins[OF assms] amount_new_coins[OF assms] by auto

lemma Liquidate_ok:
  assumes inv: "vest_inv (lvVest E) K s" and r: "Liquidate E K t s a b x = Inr (s', minted, contract)"
    and acc: "ak_GetAccount (lvVest E) s a = Some (ClawbackAcc va)"
    and pos: "0 < Amt x" and bound: "coAmountOf K (OriginalVesting va) (Denom x) * Amt x < 2 ^ 256"
  obtains va' dn h where "ak_GetAccount (lvVest E) s' a = Some (ClawbackAcc (va'\<lparr>CodeHash := h\<rparr>))" "account_ok K va'"
    "vest_inv (lvVest E) K s'" "minted = \<lparr>Denom = DenomBaseNameFromID (GetDenomCounter E s), Amt = Amt x\<rparr>"
    "GetDenom E s' (Denom minted) = Some dn" "OriginalDenom dn = Denom x" "dnStartTime dn = t" "sched_ok K t (dnLockupPeriods dn)"
    "\<And>t' d. released K (StartTime va') (LockupPeriods va') t' d + released K t (dnLockupPeriods dn) t' d =
       released K (StartTime va) (LockupPeriods va) t' d"
    "total_amount K (dnLockupPeriods dn) (Denom x) = Amt x"
    "\<And>d. coAmountOf K (OriginalVesting va') d = coAmountOf K (OriginalVesting va) d - (if d = Denom x then Amt x else 0)"
    "\<And>c d. coAmountOf K (bk_GetAllBalances (lvVest E) s' c) d = coAmountOf K (bk_GetAllBalances (lvVest E) s c) d
       + (if d = Denom x then (if c = ak_GetModuleAddress (lvVest E) ModuleName then Amt x else 0) - (if c = a then Amt x else 0) else 0)
       + (if d = Denom minted \<and> c = b then Amt x else 0)"
    "ctrGet E s' = Some ((GetDenomCounter E s + 1) mod 2 ^ 64)" "dsGet E s' = (dsGet E s)(Denom minted \<mapsto> dn)"
    "BaseDenom dn = Denom minted" "dnEndTime dn = t + total_length (dnLockupPeriods dn)"
proof -
  obtain va0 vc lc bal va' diff s2 s3 dn s4 s6 where
    h: "Denom x = ''aISLM''" "denom_ok ''aISLM''" "0 \<le> MinimumLiquidationAmount (lvGetParamSet E s)"
      "MinimumLiquidationAmount (lvGetParamSet E s) \<le> Amt x"
      "ak_GetAccount (lvVest E) s a = Some (ClawbackAcc va0)" "GetVestingCoins K va0 t = Inr vc" "coIsZero K vc"
      "GetLockedUpCoins K va0 t = Inr lc" "coFind K lc (Denom x) = (True, bal)" "Amt x \<le> Amt bal"
      "liquidate_account K t va0 x = Inr (va', diff)"
    and snd: "bk_SendCoinsFromAccountToModule E (ak_SetAccount (lvVest E) s (ClawbackAcc va')) a ModuleName (coNewCoins K x) = Inr s2"
    and cd: "CreateDenom E K s2 (Denom x) t (liquid_periods (StartTime va') t (LockupPeriods va') diff) = (s3, dn)"
    and mt: "denom_ok (BaseDenom dn)" "minted = \<lparr>Denom = BaseDenom dn, Amt = Amt x\<rparr>"
      "bk_MintCoins E s3 ModuleName (coNewCoins K minted) = Inr s4"
    and sb: "bk_SendCoinsFromModuleToAccount E (bk_SetDenomMetaData E s4 (liquid_metadata dn)) ModuleName b (coNewCoins K minted) = Inr s6"
    and er: "bind_erc20 E s6 (BaseDenom dn) (Denom x) = Inr (s', contract)"
    by (fact Liquidate_steps[OF r])
  have va0: "va0 = va" using h(5) acc by simp
  note ok = vest_invD(2)[OF inv acc]
  obtain vc' where vc': "GetVestingCoins K va t = Inr vc'" "coIsValid K vc'"
    "\<And>d. coAmountOf K vc' d = coAmountOf K (OriginalVesting va) d - vested_at K va t d" using GetVestingCoins_ok[OF ok] by metis
  obtain lc' where lc': "GetLockedUpCoins K va t = Inr lc'" "coIsValid K lc'"
    "\<And>d. coAmountOf K lc' d = coAmountOf K (OriginalVesting va) d - unlocked_at K va t d" using GetLockedUpCoins_ok[OF ok] by metis
  have vested: "vested_at K va t d = coAmountOf K (OriginalVesting va) d" for d
    using h(6,7) vc' is_zero[OF vc'(2)] by (simp add: va0)
  have x: "denom_ok (Denom x)" using h(1,2) by simp
  have le: "Amt x \<le> coAmountOf K (OriginalVesting va) (Denom x) - unlocked_at K va t (Denom x)"
    using h(8-10) lc' find_coin[OF lc'(2) x] by (auto simp: va0 split: if_splits)
  obtain va1 diff1 where la: "liquidate_account K t va x = Inr (va1, diff1)" "diff1 \<noteq> []" "account_ok K va1"
    "va1 = va\<lparr>LockupPeriods := LockupPeriods va1, OriginalVesting := OriginalVesting va1, VestingPeriods := VestingPeriods va1\<rparr>"
    "sched_ok K t (liquid_periods (StartTime va) t (LockupPeriods va1) diff1)"
    "\<And>t' a. released K (StartTime va) (LockupPeriods va1) t' a +
       released K t (liquid_periods (StartTime va) t (LockupPeriods va1) diff1) t' a =
       released K (StartTime va) (LockupPeriods va) t' a"
    "total_amount K (liquid_periods (StartTime va) t (LockupPeriods va1) diff1) (Denom x) = Amt x"
    "\<And>a. coAmountOf K (OriginalVesting va1) a =
       coAmountOf K (OriginalVesting va) a - (if a = Denom x then Amt x else 0)"
    "\<And>d. vested_at K va1 t d = coAmountOf K (OriginalVesting va1) d"
    by (fact liquidate_account_ok[OF ok vested x pos le bound])
  have eq: "va' = va1" "diff = diff1" using h(11) la(1) by (simp_all add: va0)
  have st: "StartTime va1 = StartTime va" "BaseAccount va1 = BaseAccount va" by (subst la(4), simp)+
  let ?s1 = "ak_SetAccount (lvVest E) s (ClawbackAcc va1)" and ?m = "ak_GetModuleAddress (lvVest E) ModuleName"
  have i1: "vest_inv (lvVest E) K ?s1" "ak_GetAccount (lvVest E) ?s1 a = Some (ClawbackAcc va1)"
    using vest_inv_set[OF inv, of "ClawbackAcc va1"] la(3) vest_invD(3)[OF inv acc] st(2) by (auto simp: get_set)
  note cx = coins_of_coin[OF x less_imp_le[OF pos]]
  have m: "denom_ok (Denom minted)" "0 \<le> Amt minted" "Amt minted = Amt x" using mt pos by simp_all
  note cm = coins_of_coin[OF m(1,2)]
  note t1 = to_module[OF snd[unfolded eq]] and cd' = CreateDenom_ok[OF cd[unfolded eq]] and t3 = mint[OF mt(3)] and t5 = from_module[OF sb]
    and t6 = bind_erc20_ok[OF er] and md = metadata_keeps[of s4 "liquid_metadata dn"]
  have k: "accounts_kept (lvVest E) ?s1 s6"
    by (rule kept_trans[OF kept_trans[OF kept_trans[OF kept_trans[OF conjunct1[OF conjunct2[OF t1]]
      same_bank_kept[OF cd'(3)]] conjunct1[OF conjunct2[OF t3]]] same_bank_kept[OF conjunct2[OF md]]]
      conjunct1[OF conjunct2[OF t5]]])
  have st5: "same_store E s3 s'" using t3 md t5 t6(1) same_trans(1) by blast
  have st1: "same_store E s s2" using account_store t1 same_trans(1) by blast
  have ctr: "GetDenomCounter E s2 = GetDenomCounter E s" using st1 by (simp add: same_store_def GetDenomCounter_def)
  have ds: "dsGet E s' = (dsGet E s)(BaseDenom dn \<mapsto> dn)" "ctrGet E s' = Some ((GetDenomCounter E s + 1) mod 2 ^ 64)"
    using st5 st1 cd'(1,2) ctr by (simp_all add: same_store_def)
  have vi: "vest_inv (lvVest E) K s'" by (rule kept_code_inv[OF t6(2) vest_inv_kept[OF i1(1) k]])
  obtain hh where acc': "ak_GetAccount (lvVest E) s' a = Some (ClawbackAcc (va1\<lparr>CodeHash := hh\<rparr>))"
  proof -
    have "ak_GetAccount (lvVest E) s6 a = Some (ClawbackAcc va1)" using k i1(2) by (simp add: accounts_kept_def)
    then show thesis using that t6(2) unfolding accounts_kept_code_def by blast
  qed
  have bal: "coAmountOf K (bk_GetAllBalances (lvVest E) s' c) d = coAmountOf K (bk_GetAllBalances (lvVest E) s c) d
       + (if d = Denom x then (if c = ?m then Amt x else 0) - (if c = a then Amt x else 0) else 0)
       + (if d = Denom minted \<and> c = b then Amt x else 0)" for c d
  proof -
    let ?B = "\<lambda>s. coAmountOf K (bk_GetAllBalances (lvVest E) s c) d"
    have "?B s2 = ?B s - (if c = a then coAmountOf K (coNewCoins K x) d else 0) + (if c = ?m then coAmountOf K (coNewCoins K x) d else 0)"
      using t1 cx(1) by (simp add: moved_def balances_set)
    moreover have "?B s3 = ?B s2" using cd'(3) by (simp add: same_bank_def)
    moreover have "?B s4 = ?B s3 + (if c = ?m then coAmountOf K (coNewCoins K minted) d else 0)"
      using t3 cm(1) by (simp add: changed_at_def)
    moreover have "?B s6 = ?B s4 - (if c = ?m then coAmountOf K (coNewCoins K minted) d else 0) +
        (if c = b then coAmountOf K (coNewCoins K minted) d else 0)"
      using t5 md cm(1) by (simp add: moved_def same_bank_def)
    moreover have "?B s' = ?B s6" using t6(3) by simp
    ultimately show ?thesis using cx(2)[of d] cm(2)[of d] m(3) by auto
  qed
  have mn: "minted = \<lparr>Denom = DenomBaseNameFromID (GetDenomCounter E s), Amt = Amt x\<rparr>" "BaseDenom dn = Denom minted"
    using mt(2) cd'(4) ctr by simp_all
  have dn: "dnLockupPeriods dn = liquid_periods (StartTime va) t (LockupPeriods va1) diff1"
    using cd'(7) by (simp add: st(1))
  have en: "dnEndTime dn = t + total_length (dnLockupPeriods dn)"
    using cd'(8) add64_total_length[OF la(5)] by (simp add: dn st(1))
  have rel: "released K (StartTime va1) (LockupPeriods va1) t' d + released K t (dnLockupPeriods dn) t' d =
      released K (StartTime va) (LockupPeriods va) t' d" for t' d using la(6) by (simp add: st(1) dn)
  show thesis
    by (rule that[OF acc' la(3) vi mn(1) _ cd'(5) cd'(6) la(5)[folded dn] rel la(7)[folded dn] la(8) bal ds(2) _ mn(2) en])
      (simp_all add: GetDenom_def ds(1) mn(2))
qed

end

end
