(* ===== verification/LiquidRedeem.thy ===== *)
theory LiquidRedeem
  imports LiquidKeeper "HOL-Library.AList"
begin

text \<open>
  What \<open>Redeem\<close> of x/liquidvesting/keeper/keeper.go does to the liquid denomination, the
  balances and the receiver's lockup, the escrow invariant that \<open>Liquidate\<close> and \<open>Redeem\<close>
  maintain, and a ledger that implements the keepers' contract.
\<close>

section \<open>The schedule handed to the receiver\<close>

text \<open>What the lockup of an account has released; an account without a schedule has none.\<close>

definition lockup_at :: "('s, 'c, 'v) vest_env \<Rightarrow> 'c coins_api \<Rightarrow> 's \<Rightarrow> acc_address \<Rightarrow> int \<Rightarrow> string \<Rightarrow> int" where
  "lockup_at E K s a t d = (case ak_GetAccount E s a of
     Some (ClawbackAcc va) \<Rightarrow> released K (StartTime va) (LockupPeriods va) t d | _ \<Rightarrow> 0)"

text \<open>How much earlier than its own start a schedule is read when it is merged into an account.\<close>

definition merge_shift :: "('s, 'c, 'v) vest_env \<Rightarrow> 's \<Rightarrow> acc_address \<Rightarrow> int \<Rightarrow> int" where
  "merge_shift E s a start = (case ak_GetAccount E s a of
     Some (ClawbackAcc va) \<Rightarrow> max 0 (start - StartTime va) | _ \<Rightarrow> 0)"

lemma accounts_kept_lockup:
  "accounts_kept E s s' \<Longrightarrow> lockup_at E K s' a t d = lockup_at E K s a t d \<and> merge_shift E s' a st = merge_shift E s a st"
  unfolding accounts_kept_def lockup_at_def merge_shift_def
  by (cases "ak_GetAccount E s a"; cases "ak_GetAccount E s' a") (auto split: account.splits)

context vest_laws
begin

lemma new_account_schedule:
  assumes "grant_ok K st lp vp c"
  shows "StartTime (NewClawbackVestingAccount K X b f c st lp vp code) = st"
    "LockupPeriods (NewClawbackVestingAccount K X b f c st lp vp code) = lp"
  using assms by (simp_all add: grant_ok_def NewClawbackVestingAccount_def AlignSchedules_same)

lemma ApplyVestingSchedule_lockup:
  assumes inv: "vest_inv E K s" and g: "grant_ok K st lp vp c"
    and r: "ApplyVestingSchedule E K X s funder a c st lp vp merge = Inr (s', va, created, merged)"
  shows "lockup_at E K s' a t d = lockup_at E K s a t d + released K st lp (t + merge_shift E s a st) d"
proof -
  have get: "ak_GetAccount E s' a = Some (ClawbackAcc va)" by (rule ApplyVestingSchedule_ok(2)[OF inv g r])
  have "released K (StartTime va) (LockupPeriods va) t d =
      lockup_at E K s a t d + released K st lp (t + merge_shift E s a st) d"
  proof (cases "ak_GetAccount E s a")
    case None
    let ?va = "NewClawbackVestingAccount K X (ak_NewBaseAccountWithAddress E a) funder c st lp vp (Some (emptyCodeHash X))"
    obtain s1 acc where na: "ak_NewAccount E s (ClawbackAcc ?va) = (s1, acc)" by (cases "ak_NewAccount E s (ClawbackAcc ?va)")
    obtain n where "acc = ClawbackAcc (?va\<lparr>BaseAccount := (BaseAccount ?va)\<lparr>AccountNumber := n\<rparr>\<rparr>)"
      using new_account[OF na] by auto
    then show ?thesis
      using r None na new_account_schedule[OF g] by (auto simp: ApplyVestingSchedule_def Let_def lockup_at_def merge_shift_def)
  next
    case (Some acc)
    show ?thesis
    proof (cases acc)
      case (ClawbackAcc va0)
      let ?st = "Min64 st (StartTime va0)"
      note ok = vest_invD(2)[OF inv Some[unfolded ClawbackAcc]]
      have g': "grant_ok K ?st lp vp c"
        using grant_ok_earlier[OF g, of ?st] g ok by (auto simp: Min64_def grant_ok_def sched_ok_def account_ok_def)
      have "addGrant E K s va0 ?st lp vp c = Inr va"
        using r Some ClawbackAcc by (auto simp: ApplyVestingSchedule_def bind_r_eq_Inr split: if_splits)
      moreover have "?st = st - max 0 (st - StartTime va0)" by (simp add: Min64_def)
      ultimately show ?thesis
        using addGrant_ok(4)[OF ok g', of s va t d] released_shift[of K st "max 0 (st - StartTime va0)" lp t d]
        by (simp add: lockup_at_def merge_shift_def Some ClawbackAcc)
    next
      case (EthAcc e)
      then show ?thesis
        using r Some new_account_schedule[OF g]
        by (auto simp: ApplyVestingSchedule_def Let_def bind_r_eq_Inr lockup_at_def merge_shift_def)
    qed (use r Some in \<open>simp add: ApplyVestingSchedule_def\<close>)
  qed
  then show ?thesis by (simp add: lockup_at_def[of E K s'] get)
qed

end

section \<open>The effect of redeeming\<close>

text \<open>
  A stored denomination: filed under its own base name, named by an identifier the counter
  has already passed, for the staking coin only, with a schedule whose end is the stored one.
\<close>

definition liquid_ok :: "('s, 'c, 'v) lv_env \<Rightarrow> 'c coins_api \<Rightarrow> 's \<Rightarrow> string \<Rightarrow> 'c denom \<Rightarrow> bool" where
  "liquid_ok E K s k dn \<longleftrightarrow> BaseDenom dn = k \<and> (\<exists>i<GetDenomCounter E s. k = DenomBaseNameFromID i) \<and>
     OriginalDenom dn = ''aISLM'' \<and> sched_ok K (dnStartTime dn) (dnLockupPeriods dn) \<and>
     dnEndTime dn = dnStartTime dn + total_length (dnLockupPeriods dn)"

text \<open>The balances after a redemption: the liquid coins are burned, the original ones leave the module.\<close>

definition redeemed :: "('s, 'c, 'v) lv_env \<Rightarrow> 'c coins_api \<Rightarrow> acc_address \<Rightarrow> acc_address \<Rightarrow> coin \<Rightarrow> string \<Rightarrow> 's \<Rightarrow> 's \<Rightarrow> bool" where
  "redeemed E K a b x orig s s' \<longleftrightarrow>
     (\<forall>c d. coAmountOf K (bk_GetAllBalances (lvVest E) s' c) d = coAmountOf K (bk_GetAllBalances (lvVest E) s c) d
        - (if d = Denom x \<and> c = a then Amt x else 0)
        + (if d = orig then (if c = b then Amt x else 0) -
             (if c = ak_GetModuleAddress (lvVest E) ModuleName then Amt x else 0) else 0))"

context lv_laws
begin

lemma ApplyVestingSchedule_store:
  assumes "ApplyVestingSchedule (lvVest E) K X s f a c st lp vp m = Inr (s', va, created, merged)"
  shows "same_store E s s'"
proof -
  have "\<exists>acc acc'. s' = ak_SetAccount (lvVest E) s acc \<or>
      s' = ak_SetAccount (lvVest E) (fst (ak_NewAccount (lvVest E) s acc')) acc"
    using assms by (auto simp: ApplyVestingSchedule_def Let_def bind_r_eq_Inr case_prod_beta
      split: option.splits account.splits if_splits)
  then show ?thesis using account_store new_account_store same_trans(1) by blast
qed

lemma Redeem_steps:
  assumes "Redeem E K X t s a b x = Inr s'"
  obtains dn s1 s2 dec diff s4 s5 where
    "GetDenom E s (Denom x) = Some dn" "0 \<le> Amt x"
    "bk_SendCoinsFromAccountToModule E s a ModuleName (coNewCoins K x) = Inr s1"
    "bk_BurnCoins E s1 ModuleName (coNewCoins K x) = Inr s2" "denom_ok (OriginalDenom dn)"
    "SubtractAmountFromPeriods K (dnLockupPeriods dn) \<lparr>Denom = OriginalDenom dn, Amt = Amt x\<rparr> = Inr (dec, diff)"
    "if coIsZero K (coTotalAmount K dec)
     then s4 = DeleteDenom E s2 (BaseDenom dn) \<or>
       (\<exists>auth. ek_ToggleConversion E (DeleteDenom E s2 (BaseDenom dn)) auth (Denom x) = Inr s4)
     else UpdateDenomPeriods E s2 (BaseDenom dn) dec = Inr s4"
    "bk_SendCoinsFromModuleToAccount E s4 ModuleName b (coNewCoins K \<lparr>Denom = OriginalDenom dn, Amt = Amt x\<rparr>) = Inr s5"
    "if ExtractUpcomingPeriods (dnStartTime dn) (dnEndTime dn) diff t = [] then s' = s5
     else (\<exists>f va c m. ApplyVestingSchedule (lvVest E) K X s5 f b (coNewCoins K \<lparr>Denom = OriginalDenom dn, Amt = Amt x\<rparr>)
       (dnStartTime dn) diff [\<lparr>Length = 0, Amount = coNewCoins K \<lparr>Denom = OriginalDenom dn, Amt = Amt x\<rparr>\<rparr>] True = Inr (s', va, c, m))"
proof -
  obtain dn pair where dn: "GetDenom E s (Denom x) = Some dn"
    and pair: "ek_GetTokenPair E s (ek_GetTokenPairID E s (Denom x)) = Some pair"
    using assms unfolding Redeem_def Let_def by (auto split: if_splits option.splits)
  show ?thesis
    using assms unfolding Redeem_def Let_def dn pair option.case
    apply (clarsimp simp: bind_r_eq_Inr)
    subgoal for acc s1 s2 dec diff s4 s5
      apply (rule that[of dn s1 s2 dec diff s4 s5])
              apply (simp_all add: dn)
      subgoal by (auto split: if_splits)
      subgoal by (auto simp: bind_r_eq_Inr split: if_splits option.splits)
      done
    done
qed


lemma redeem_split:
  assumes sub: "SubtractAmountFromPeriods K ps x = Inr (dec, diff)" and so: "sched_ok K st ps"
    and x: "denom_ok (Denom x)" "0 < Amt x" and bound: "total_amount K ps (Denom x) * Amt x < 2 ^ 256"
  shows "sched_ok K st dec" "sched_ok K st diff" "diff \<noteq> []" "total_length dec = total_length ps" "total_length diff = total_length ps"
    "released K st dec t d + released K st diff t d = released K st ps t d"
    "total_amount K dec d + total_amount K diff d = total_amount K ps d"
    "total_amount K diff d = (if d = Denom x then Amt x else 0)"
proof -
  have v: "list_all (\<lambda>p. coIsValid K (Amount p)) ps" using so by (auto simp: sched_ok_def list_all_iff)
  have "coAmountOf K (coTotalAmount K ps) (Denom x) = total_amount K ps (Denom x)"
    using v by (simp add: amount_total_amount total_amount_def list_all_iff)
  then have le: "Amt x \<le> total_amount K ps (Denom x)" using sub by (auto simp: SubtractAmountFromPeriods_def Let_def split: if_splits)
  then have pos: "0 < total_amount K ps (Denom x)" using x(2) by simp
  obtain pairs where p: "SubtractAmountFromPeriods K ps x = Inr (map fst pairs, map snd pairs)"
    "list_all2 (split_of K (Denom x)) ps pairs" "total_amount K (map snd pairs) (Denom x) = Amt x"
    using SubtractAmountFromPeriods_ok[OF x(1) less_imp_le[OF x(2)] le pos bound v] by metis
  have eq: "dec = map fst pairs" "diff = map snd pairs" using p(1) sub by simp_all
  note am = split_amounts[OF p(2), folded eq]
  show "sched_ok K st dec" "sched_ok K st diff" using sched_ok_by_lengths[OF so] am(3-6) by simp_all
  show "total_length dec = total_length ps" "total_length diff = total_length ps" using total_length_by_map am(3,4) by blast+
  show "diff \<noteq> []" using p(3) x(2) unfolding eq by auto
  show "released K st dec t d + released K st diff t d = released K st ps t d"
    "total_amount K dec d + total_amount K diff d = total_amount K ps d" using am(1,2) by simp_all
  show "total_amount K diff d = (if d = Denom x then Amt x else 0)" using p(3) split_other[OF p(2), of d] unfolding eq by simp
qed

lemma upcoming_empty:
  assumes "sched_ok K st ps" "ps \<noteq> []"
  shows "ExtractUpcomingPeriods st (st + total_length ps) ps t = [] \<longleftrightarrow> st < t \<and> st + total_length ps \<le> t"
proof (cases "st < t \<and> t < st + total_length ps")
  case True
  have "ReadPastPeriodCount_loop t st ps 0 < length ps"
    using count_loop_bounds[OF assms(1), of t] True by (cases "ReadPastPeriodCount_loop t st ps 0 < length ps") auto
  then show ?thesis using True by (simp add: ExtractUpcomingPeriods_def ReadPastPeriodCount_def)
qed (use assms(2) in \<open>auto simp: ExtractUpcomingPeriods_def ReadPastPeriodCount_def\<close>)

text \<open>The two ways the store is updated: a spent denomination is deleted, another keeps the rest of its schedule.\<close>

lemma redeem_store:
  assumes "if coIsZero K (coTotalAmount K dec)
     then s4 = DeleteDenom E s2 k \<or> (\<exists>auth. ek_ToggleConversion E (DeleteDenom E s2 k) auth d = Inr s4)
     else UpdateDenomPeriods E s2 k dec = Inr s4" "dsGet E s2 k = Some dn" "BaseDenom dn = k"
  shows "same_bank E s2 s4" "ctrGet E s4 = ctrGet E s2"
    "dsGet E s4 = (dsGet E s2)(k := if coIsZero K (coTotalAmount K dec) then None else Some (dn\<lparr>dnLockupPeriods := dec\<rparr>))"
proof -
  let ?del = "DeleteDenom E s2 k"
  have del: "dsGet E ?del = (dsGet E s2)(k := None) \<and> ctrGet E ?del = ctrGet E s2 \<and> same_bank E s2 ?del"
    unfolding DeleteDenom_def by (rule ds_delete)
  have "same_bank E s2 s4 \<and> ctrGet E s4 = ctrGet E s2 \<and>
    dsGet E s4 = (dsGet E s2)(k := if coIsZero K (coTotalAmount K dec) then None else Some (dn\<lparr>dnLockupPeriods := dec\<rparr>))"
  proof (cases "coIsZero K (coTotalAmount K dec)")
    case True
    then have "s4 = ?del \<or> (same_store E ?del s4 \<and> same_bank E ?del s4)" using assms(1) toggle_keeps by auto
    then show ?thesis using del True same_trans(2) by (auto simp: same_store_def)
  next
    case False
    then have "s4 = dsSet E s2 k (dn\<lparr>dnLockupPeriods := dec\<rparr>)"
      using assms by (simp add: UpdateDenomPeriods_def GetDenom_def SetDenom_def)
    then show ?thesis using ds_set False by simp
  qed
  then show "same_bank E s2 s4" "ctrGet E s4 = ctrGet E s2"
    "dsGet E s4 = (dsGet E s2)(k := if coIsZero K (coTotalAmount K dec) then None else Some (dn\<lparr>dnLockupPeriods := dec\<rparr>))"
    by blast+
qed

lemma Redeem_ok:
  assumes inv: "vest_inv (lvVest E) K s" and r: "Redeem E K X t s a b x = Inr s'"
    and dn: "GetDenom E s (Denom x) = Some dn" "liquid_ok E K s (Denom x) dn" and d: "denom_ok (Denom x)"
    and pos: "0 < Amt x" and bound: "total_amount K (dnLockupPeriods dn) ''aISLM'' * Amt x < 2 ^ 256"
  obtains dec diff where "vest_inv (lvVest E) K s'" "ctrGet E s' = ctrGet E s" "redeemed E K a b x ''aISLM'' s s'"
    "dsGet E s' = (dsGet E s)(Denom x := if \<forall>d. total_amount K dec d = 0 then None else Some (dn\<lparr>dnLockupPeriods := dec\<rparr>))"
    "sched_ok K (dnStartTime dn) dec" "total_length dec = total_length (dnLockupPeriods dn)"
    "sched_ok K (dnStartTime dn) diff" "total_length diff = total_length (dnLockupPeriods dn)"
    "\<And>t d. released K (dnStartTime dn) dec t d + released K (dnStartTime dn) diff t d = released K (dnStartTime dn) (dnLockupPeriods dn) t d"
    "\<And>d. total_amount K dec d + total_amount K diff d = total_amount K (dnLockupPeriods dn) d"
    "\<And>d. total_amount K diff d = (if d = ''aISLM'' then Amt x else 0)"
    "\<And>t' d. lockup_at (lvVest E) K s' b t' d = lockup_at (lvVest E) K s b t' d +
       (if dnStartTime dn < t \<and> dnEndTime dn \<le> t then 0
        else released K (dnStartTime dn) diff (t' + merge_shift (lvVest E) s b (dnStartTime dn)) d)"
proof -
  let ?V = "lvVest E" and ?o = "\<lparr>Denom = ''aISLM'', Amt = Amt x\<rparr>" and ?st = "dnStartTime dn" and ?m = "ak_GetModuleAddress (lvVest E) ModuleName"
  have o: "OriginalDenom dn = ''aISLM''" and so: "sched_ok K ?st (dnLockupPeriods dn)" and b: "BaseDenom dn = Denom x"
    and e: "dnEndTime dn = ?st + total_length (dnLockupPeriods dn)" using dn(2) by (simp_all add: liquid_ok_def)
  obtain dn0 s1 s2 dec diff s4 s5 where h:
    "GetDenom E s (Denom x) = Some dn0" "0 \<le> Amt x"
    "bk_SendCoinsFromAccountToModule E s a ModuleName (coNewCoins K x) = Inr s1"
    "bk_BurnCoins E s1 ModuleName (coNewCoins K x) = Inr s2" "denom_ok (OriginalDenom dn0)"
    "SubtractAmountFromPeriods K (dnLockupPeriods dn0) \<lparr>Denom = OriginalDenom dn0, Amt = Amt x\<rparr> = Inr (dec, diff)"
    "if coIsZero K (coTotalAmount K dec)
     then s4 = DeleteDenom E s2 (BaseDenom dn0) \<or>
       (\<exists>auth. ek_ToggleConversion E (DeleteDenom E s2 (BaseDenom dn0)) auth (Denom x) = Inr s4)
     else UpdateDenomPeriods E s2 (BaseDenom dn0) dec = Inr s4"
    "bk_SendCoinsFromModuleToAccount E s4 ModuleName b (coNewCoins K \<lparr>Denom = OriginalDenom dn0, Amt = Amt x\<rparr>) = Inr s5"
    "if ExtractUpcomingPeriods (dnStartTime dn0) (dnEndTime dn0) diff t = [] then s' = s5
     else (\<exists>f va c m. ApplyVestingSchedule (lvVest E) K X s5 f b (coNewCoins K \<lparr>Denom = OriginalDenom dn0, Amt = Amt x\<rparr>)
       (dnStartTime dn0) diff [\<lparr>Length = 0, Amount = coNewCoins K \<lparr>Denom = OriginalDenom dn0, Amt = Amt x\<rparr>\<rparr>] True = Inr (s', va, c, m))"
    by (fact Redeem_steps[OF r])
  have "dn0 = dn" using h(1) dn(1) by simp
  note h = h[unfolded this o b]
  note sp = redeem_split[OF h(6) so, unfolded coin.select_convs, OF h(5) pos bound] and t1 = to_module[OF h(3)] and t2 = burn[OF h(4)] and t5 = from_module[OF h(8)]
  note cx = coins_of_coin[OF d h(2)] and co = coins_of_coin[of ?o, unfolded coin.select_convs, OF h(5) h(2)]
  have ds2: "dsGet E s2 = dsGet E s" "ctrGet E s2 = ctrGet E s" using t1 t2 by (simp_all add: same_store_def)
  have ds4: "same_bank E s2 s4" "ctrGet E s4 = ctrGet E s"
    "dsGet E s4 = (dsGet E s)(Denom x := if coIsZero K (coTotalAmount K dec) then None else Some (dn\<lparr>dnLockupPeriods := dec\<rparr>))"
    using redeem_store[OF h(7) _ b] dn(1) by (simp_all add: ds2 GetDenom_def)
  have k: "accounts_kept ?V s s5"
    by (rule kept_trans[OF kept_trans[OF kept_trans[OF conjunct1[OF conjunct2[OF t1]] conjunct1[OF conjunct2[OF t2]]]
      same_bank_kept[OF ds4(1)]] conjunct1[OF conjunct2[OF t5]]])
  note lk = accounts_kept_lockup[OF k] and inv5 = vest_inv_kept[OF inv k]
  have g: "grant_ok K ?st diff [\<lparr>Length = 0, Amount = coNewCoins K ?o\<rparr>] (coNewCoins K ?o)"
    using sp(2) so co by (simp add: grant_ok_def sp(8)) (simp add: sched_ok_def)
  have up: "ExtractUpcomingPeriods ?st (dnEndTime dn) diff t = [] \<longleftrightarrow> ?st < t \<and> dnEndTime dn \<le> t"
    using upcoming_empty[OF sp(2,3), of t] by (simp add: e sp(5))
  have fin: "vest_inv ?V K s' \<and> same_store E s5 s' \<and> bk_GetAllBalances ?V s' = bk_GetAllBalances ?V s5 \<and>
      lockup_at ?V K s' b t' d = lockup_at ?V K s b t' d + (if ?st < t \<and> dnEndTime dn \<le> t then 0
        else released K ?st diff (t' + merge_shift ?V s b ?st) d)" for t' d
  proof (cases "?st < t \<and> dnEndTime dn \<le> t")
    case True
    then show ?thesis using h(9) up inv5 lk by (simp add: same_store_def)
  next
    case False
    then obtain f va c m where av: "ApplyVestingSchedule ?V K X s5 f b (coNewCoins K ?o) ?st diff
        [\<lparr>Length = 0, Amount = coNewCoins K ?o\<rparr>] True = Inr (s', va, c, m)" using h(9) unfolding up if_not_P[OF False] by blast
    show ?thesis
      using ApplyVestingSchedule_ok(1,3)[OF inv5 g av] ApplyVestingSchedule_store[OF av] ApplyVestingSchedule_lockup[OF inv5 g av, of t' d] lk False
      by auto
  qed
  have bal: "redeemed E K a b x ''aISLM'' s s'"
    unfolding redeemed_def
  proof (intro allI)
    fix c d
    let ?B = "\<lambda>s. coAmountOf K (bk_GetAllBalances ?V s c) d"
    have "?B s1 = ?B s - (if c = a then coAmountOf K (coNewCoins K x) d else 0) + (if c = ?m then coAmountOf K (coNewCoins K x) d else 0)"
      "?B s2 = ?B s1 - (if c = ?m then coAmountOf K (coNewCoins K x) d else 0)"
      using t1 t2 cx(1) by (simp_all add: moved_def changed_at_def)
    moreover have "?B s5 = ?B s2 - (if c = ?m then coAmountOf K (coNewCoins K ?o) d else 0) + (if c = b then coAmountOf K (coNewCoins K ?o) d else 0)"
      using t5 ds4(1) co(1) by (simp add: moved_def same_bank_def)
    moreover have "?B s' = ?B s5" using fin by simp
    ultimately show "?B s' = ?B s - (if d = Denom x \<and> c = a then Amt x else 0) +
        (if d = ''aISLM'' then (if c = b then Amt x else 0) - (if c = ?m then Amt x else 0) else 0)"
      using cx(2)[of d] co(2)[of d] by auto
  qed
  have z: "coIsZero K (coTotalAmount K dec) \<longleftrightarrow> (\<forall>d. total_amount K dec d = 0)"
    using sp(1) is_zero[of "coTotalAmount K dec"] valid_total_amount[of dec] amount_total_amount[of dec]
    by (simp add: sched_ok_def list_all_iff total_amount_def)
  have st: "ctrGet E s' = ctrGet E s" "dsGet E s' = dsGet E s4" using fin t5 ds4(2) by (simp_all add: same_store_def)
  show thesis
    by (rule that[of dec diff]) (use fin bal st ds4(3) z sp in auto)
qed

end

section \<open>The escrow invariant\<close>

text \<open>The original coins the stored schedules still promise.\<close>

definition escrowed :: "'c coins_api \<Rightarrow> (string \<rightharpoonup> 'c denom) \<Rightarrow> int" where
  "escrowed K m = (\<Sum>k\<in>dom m. total_amount K (dnLockupPeriods (the (m k))) ''aISLM'')"

definition lv_inv :: "('s, 'c, 'v) lv_env \<Rightarrow> 'c coins_api \<Rightarrow> 's \<Rightarrow> bool" where
  "lv_inv E K s \<longleftrightarrow> vest_inv (lvVest E) K s \<and> finite (dom (dsGet E s)) \<and>
     (\<forall>k dn. dsGet E s k = Some dn \<longrightarrow> liquid_ok E K s k dn) \<and>
     escrowed K (dsGet E s) \<le>
       coAmountOf K (bk_GetAllBalances (lvVest E) s (ak_GetModuleAddress (lvVest E) ModuleName)) ''aISLM''"

text \<open>
  The two transactions. The side conditions are the range of the code's arithmetic: a
  positive amount, products that fit 256 bits, a counter that does not wrap, a valid name.
  The module account itself is not a vesting account, so it never liquidates.
\<close>

inductive lv_step :: "('s, 'c, 'v) lv_env \<Rightarrow> 'c coins_api \<Rightarrow> addr_api \<Rightarrow> 's \<Rightarrow> 's \<Rightarrow> bool" for E K X where
  liquidate: "Liquidate E K t s a b x = Inr (s', minted, contract) \<Longrightarrow> 0 < Amt x \<Longrightarrow>
    ak_GetAccount (lvVest E) s a = Some (ClawbackAcc va) \<Longrightarrow> a \<noteq> ak_GetModuleAddress (lvVest E) ModuleName \<Longrightarrow>
    coAmountOf K (OriginalVesting va) (Denom x) * Amt x < 2 ^ 256 \<Longrightarrow> GetDenomCounter E s + 1 < 2 ^ 64 \<Longrightarrow>
    lv_step E K X s s'"
| redeem: "Redeem E K X t s a b x = Inr s' \<Longrightarrow> 0 < Amt x \<Longrightarrow> coNewCoin K (Denom x) (Amt x) = Some x \<Longrightarrow>
    GetDenom E s (Denom x) = Some dn \<Longrightarrow> total_amount K (dnLockupPeriods dn) ''aISLM'' * Amt x < 2 ^ 256 \<Longrightarrow>
    lv_step E K X s s'"

inductive_cases lv_stepE: "lv_step E K X s s'"

lemma escrowed_upd:
  assumes "finite (dom m)"
  shows "escrowed K (m(k \<mapsto> v)) = total_amount K (dnLockupPeriods v) ''aISLM'' + escrowed K (m(k := None))"
  using assms sum.cong[of "dom m - {k}" "dom m - {k}" "\<lambda>i. total_amount K (dnLockupPeriods (the ((m(k \<mapsto> v)) i))) ''aISLM''"
    "\<lambda>i. total_amount K (dnLockupPeriods (the ((m(k := None)) i))) ''aISLM''"]
  by (simp add: escrowed_def sum.insert_remove)

lemma escrowed_remove:
  assumes "finite (dom m)" "m k = Some v"
  shows "escrowed K m = total_amount K (dnLockupPeriods v) ''aISLM'' + escrowed K (m(k := None))"
  using escrowed_upd[OF assms(1), of K k v] assms(2) by (simp add: map_upd_triv)

lemma DenomBaseNameFromID_inj: "DenomBaseNameFromID i = DenomBaseNameFromID j \<Longrightarrow> i = j"
  using decimal_ok[of i] decimal_ok[of j] by (metis DenomBaseNameFromID_def same_append_eq)

lemma DenomBaseNameFromID_not_staking: "DenomBaseNameFromID i \<noteq> ''aISLM''"
  by (simp add: DenomBaseNameFromID_def)

context lv_laws
begin

lemma Liquidate_inv:
  assumes inv: "lv_inv E K s" and r: "Liquidate E K t s a b x = Inr (s', minted, contract)" and pos: "0 < Amt x"
    and acc: "ak_GetAccount (lvVest E) s a = Some (ClawbackAcc va)" and a: "a \<noteq> ak_GetModuleAddress (lvVest E) ModuleName"
    and bound: "coAmountOf K (OriginalVesting va) (Denom x) * Amt x < 2 ^ 256" and ctr: "GetDenomCounter E s + 1 < 2 ^ 64"
  shows "lv_inv E K s'"
proof -
  let ?m = "ak_GetModuleAddress (lvVest E) ModuleName"
  have vi: "vest_inv (lvVest E) K s" and fin: "finite (dom (dsGet E s))"
    and lq: "\<And>k dn. dsGet E s k = Some dn \<Longrightarrow> liquid_ok E K s k dn"
    and esc: "escrowed K (dsGet E s) \<le> coAmountOf K (bk_GetAllBalances (lvVest E) s ?m) ''aISLM''" using inv by (auto simp: lv_inv_def)
  have x: "Denom x = ''aISLM''" using r by (auto simp: Liquidate_def Let_def split: if_splits)
  show ?thesis
  proof (rule Liquidate_ok[OF vi r acc pos bound])
    fix va' dn h
    assume vi': "vest_inv (lvVest E) K s'" and mn: "minted = \<lparr>Denom = DenomBaseNameFromID (GetDenomCounter E s), Amt = Amt x\<rparr>"
      and dn: "GetDenom E s' (Denom minted) = Some dn" "OriginalDenom dn = Denom x" "dnStartTime dn = t" "sched_ok K t (dnLockupPeriods dn)"
      and tot: "total_amount K (dnLockupPeriods dn) (Denom x) = Amt x"
      and bal: "\<And>c d. coAmountOf K (bk_GetAllBalances (lvVest E) s' c) d = coAmountOf K (bk_GetAllBalances (lvVest E) s c) d
         + (if d = Denom x then (if c = ak_GetModuleAddress (lvVest E) ModuleName then Amt x else 0) - (if c = a then Amt x else 0) else 0)
         + (if d = Denom minted \<and> c = b then Amt x else 0)"
      and ds: "ctrGet E s' = Some ((GetDenomCounter E s + 1) mod 2 ^ 64)" "dsGet E s' = (dsGet E s)(Denom minted \<mapsto> dn)"
      and be: "BaseDenom dn = Denom minted" "dnEndTime dn = t + total_length (dnLockupPeriods dn)"
    have c': "GetDenomCounter E s' = GetDenomCounter E s + 1" using ds(1) ctr by (simp add: GetDenomCounter_def)
    have fresh: "dsGet E s (Denom minted) = None"
    proof (cases "dsGet E s (Denom minted)")
      case (Some w)
      then show ?thesis using lq[OF Some] DenomBaseNameFromID_inj by (auto simp: liquid_ok_def mn)
    qed simp
    then have e: "escrowed K (dsGet E s') = Amt x + escrowed K (dsGet E s)"
      using escrowed_upd[OF fin, of K "Denom minted" dn] tot by (simp add: ds(2) x fun_upd_idem)
    have "liquid_ok E K s' k w" if "dsGet E s' k = Some w" for k w
    proof (cases "k = Denom minted")
      case True
      then show ?thesis using that dn be c' by (auto simp: liquid_ok_def ds(2) x mn)
    next
      case False
      then have "liquid_ok E K s k w" using that lq ds(2) by simp
      then show ?thesis by (auto simp: liquid_ok_def c' less_Suc_eq)
    qed
    moreover have "escrowed K (dsGet E s') \<le> coAmountOf K (bk_GetAllBalances (lvVest E) s' ?m) ''aISLM''"
      using e esc bal[of ?m "''aISLM''"] x a pos DenomBaseNameFromID_not_staking[of "GetDenomCounter E s", symmetric] by (simp add: mn)
    ultimately show ?thesis using vi' fin by (simp add: lv_inv_def ds(2))
  qed
qed

lemma Redeem_inv:
  assumes inv: "lv_inv E K s" and r: "Redeem E K X t s a b x = Inr s'" and pos: "0 < Amt x" and d: "denom_ok (Denom x)"
    and dn: "GetDenom E s (Denom x) = Some dn" and bound: "total_amount K (dnLockupPeriods dn) ''aISLM'' * Amt x < 2 ^ 256"
  shows "lv_inv E K s'"
proof -
  let ?m = "ak_GetModuleAddress (lvVest E) ModuleName" and ?D = "dsGet E s"
  have vi: "vest_inv (lvVest E) K s" and fin: "finite (dom (dsGet E s))" and get: "?D (Denom x) = Some dn"
    and lq: "\<And>k dn. dsGet E s k = Some dn \<Longrightarrow> liquid_ok E K s k dn"
    and esc: "escrowed K (dsGet E s) \<le> coAmountOf K (bk_GetAllBalances (lvVest E) s ?m) ''aISLM''"
    using inv dn by (auto simp: lv_inv_def GetDenom_def)
  show ?thesis
  proof (rule Redeem_ok[OF vi r dn lq[OF get] d pos bound])
    fix dec diff
    assume vi': "vest_inv (lvVest E) K s'" and c: "ctrGet E s' = ctrGet E s" and bal: "redeemed E K a b x ''aISLM'' s s'"
      and ds: "dsGet E s' = (dsGet E s)(Denom x := if \<forall>d. total_amount K dec d = 0 then None else Some (dn\<lparr>dnLockupPeriods := dec\<rparr>))"
      and so: "sched_ok K (dnStartTime dn) dec" "total_length dec = total_length (dnLockupPeriods dn)"
      and tot: "\<And>d. total_amount K dec d + total_amount K diff d = total_amount K (dnLockupPeriods dn) d"
        "\<And>d. total_amount K diff d = (if d = ''aISLM'' then Amt x else 0)"
    have c': "GetDenomCounter E s' = GetDenomCounter E s" by (simp add: GetDenomCounter_def c)
    have ok': "liquid_ok E K s' k w" if "dsGet E s' k = Some w" for k w
      using that lq[OF get] lq[of k w] so by (auto simp: liquid_ok_def ds c' split: if_splits)
    have x: "Denom x \<noteq> ''aISLM''" using lq[OF get] DenomBaseNameFromID_not_staking by (metis liquid_ok_def)
    have "escrowed K (dsGet E s') = escrowed K ?D - Amt x"
      using escrowed_remove[OF fin get, of K] escrowed_upd[OF fin, of K "Denom x" "dn\<lparr>dnLockupPeriods := dec\<rparr>"]
        tot(1)[of "''aISLM''"] tot(2)[of "''aISLM''"] by (auto simp: ds)
    moreover have "coAmountOf K (bk_GetAllBalances (lvVest E) s ?m) ''aISLM'' - Amt x \<le>
        coAmountOf K (bk_GetAllBalances (lvVest E) s' ?m) ''aISLM''"
      using bal[unfolded redeemed_def, rule_format, of ?m "''aISLM''"] pos x by simp
    ultimately show ?thesis using vi' fin ok' esc by (auto simp: lv_inv_def ds)
  qed
qed

lemma lv_step_inv: "lv_step E K X s s' \<Longrightarrow> lv_inv E K s \<Longrightarrow> lv_inv E K s'"
  by (elim lv_stepE) (auto intro: Liquidate_inv Redeem_inv simp: new_coin split: if_splits)

lemma lv_steps_inv: "(lv_step E K X)\<^sup>*\<^sup>* s s' \<Longrightarrow> lv_inv E K s \<Longrightarrow> lv_inv E K s'"
  by (induction rule: rtranclp_induct) (auto intro: lv_step_inv)

end

section \<open>A ledger with liquid denominations\<close>

text \<open>
  The reference ledger extended by the module's stores: the parameters, the denominations
  in insertion order, the counter and the token pairs. Conversion is bookkeeping here.
\<close>

record lv_ledger = ledger +
  lgParams :: lv_params
  lgDenoms :: "(string \<times> coin list denom) list"
  lgCounter :: "nat option"
  lgPairs :: "(bytes \<times> token_pair) list"

definition lg_id :: "string \<Rightarrow> bytes" where
  "lg_id d = map (\<lambda>c. word_of_nat (of_char c)) d"

definition lg_change :: "lv_ledger \<Rightarrow> coin list option \<Rightarrow> lv_ledger result" where
  "lg_change s c = (case c of None \<Rightarrow> Inl (Wrapf ErrInsufficientFunds '''') | Some x \<Rightarrow> Inr (s\<lparr>ldBalances := (ldBalances s)([1] := x)\<rparr>))"

definition lvLedgerEnv :: "(lv_ledger, coin list, unit) lv_env" where
  "lvLedgerEnv = \<lparr>
     lvVest = ledgerEnv,
     lvGetParamSet = lgParams,
     lvSetParamSet = (\<lambda>s p. s\<lparr>lgParams := p\<rparr>),
     dsGet = (\<lambda>s. map_of (lgDenoms s)),
     dsSet = (\<lambda>s d x. s\<lparr>lgDenoms := AList.update d x (lgDenoms s)\<rparr>),
     dsDelete = (\<lambda>s d. s\<lparr>lgDenoms := AList.delete d (lgDenoms s)\<rparr>),
     dsValues = (\<lambda>s. map snd (lgDenoms s)),
     ctrGet = lgCounter,
     ctrSet = (\<lambda>s n. s\<lparr>lgCounter := Some n\<rparr>),
     bk_GetBalance = (\<lambda>s a d. \<lparr>Denom = d, Amt = coAmountOf stdCoins (ldBalances s a) d\<rparr>),
     bk_SendCoinsFromAccountToModule = (\<lambda>s a m. ld_send s a [1]),
     bk_SendCoinsFromModuleToAccount = (\<lambda>s m. ld_send s [1]),
     bk_MintCoins = (\<lambda>s m c. lg_change s (if coIsValid stdCoins (ldBalances s [1]) \<and> coIsValid stdCoins c
        then Some (coAdd stdCoins (ldBalances s [1]) c) else None)),
     bk_BurnCoins = (\<lambda>s m c. lg_change s (if coIsValid stdCoins (ldBalances s [1]) \<and> coIsValid stdCoins c
        then coSub stdCoins (ldBalances s [1]) c else None)),
     bk_SetDenomMetaData = (\<lambda>s md. s),
     ek_ComputeIBCDenom = (\<lambda>m base d. ''ibc/'' @ m @ base @ d),
     ek_NewTokenPairSTRv2 = (\<lambda>d. Inr \<lparr>Erc20Address = ''0x'' @ d, tpDenom = d, tpEnabled = True, tpContractOwner = 1\<rparr>),
     ek_GetID = (\<lambda>tp. lg_id (tpDenom tp)),
     ek_GetTokenPairID = (\<lambda>s d. lg_id d),
     ek_GetTokenPair = (\<lambda>s. map_of (lgPairs s)),
     ek_SetTokenPair = (\<lambda>s tp. s\<lparr>lgPairs := (lg_id (tpDenom tp), tp) # lgPairs s\<rparr>),
     ek_SetDenomMap = (\<lambda>s d i. s),
     ek_SetERC20Map = (\<lambda>s a i. s),
     ek_EnableDynamicPrecompiles = (\<lambda>s a. Inr s),
     ek_ToggleConversion = (\<lambda>s auth d. Inr (s\<lparr>lgPairs := map (\<lambda>(i, tp). (i, if tpDenom tp = d then tp\<lparr>tpEnabled := \<not> tpEnabled tp\<rparr> else tp)) (lgPairs s)\<rparr>))\<rparr>"

lemma lvLedgerEnv_sel [simp]:
  "lvVest lvLedgerEnv = ledgerEnv" "lvGetParamSet lvLedgerEnv = lgParams" "lvSetParamSet lvLedgerEnv s p = s\<lparr>lgParams := p\<rparr>"
  "dsGet lvLedgerEnv s = map_of (lgDenoms s)" "dsSet lvLedgerEnv s d x = s\<lparr>lgDenoms := AList.update d x (lgDenoms s)\<rparr>"
  "dsDelete lvLedgerEnv s d = s\<lparr>lgDenoms := AList.delete d (lgDenoms s)\<rparr>"
  "ctrGet lvLedgerEnv = lgCounter" "ctrSet lvLedgerEnv s n = s\<lparr>lgCounter := Some n\<rparr>"
  "bk_GetBalance lvLedgerEnv s a d = \<lparr>Denom = d, Amt = coAmountOf stdCoins (ldBalances s a) d\<rparr>"
  "bk_SendCoinsFromAccountToModule lvLedgerEnv s a m = ld_send s a [1]"
  "bk_SendCoinsFromModuleToAccount lvLedgerEnv s m = ld_send s [1]"
  "bk_MintCoins lvLedgerEnv s m c = lg_change s (if coIsValid stdCoins (ldBalances s [1]) \<and> coIsValid stdCoins c
     then Some (coAdd stdCoins (ldBalances s [1]) c) else None)"
  "bk_BurnCoins lvLedgerEnv s m c = lg_change s (if coIsValid stdCoins (ldBalances s [1]) \<and> coIsValid stdCoins c
     then coSub stdCoins (ldBalances s [1]) c else None)"
  "bk_SetDenomMetaData lvLedgerEnv s md = s"
  "ek_NewTokenPairSTRv2 lvLedgerEnv d = Inr \<lparr>Erc20Address = ''0x'' @ d, tpDenom = d, tpEnabled = True, tpContractOwner = 1\<rparr>"
  "ek_GetTokenPairID lvLedgerEnv s d = lg_id d" "ek_GetTokenPair lvLedgerEnv s = map_of (lgPairs s)"
  "ek_SetTokenPair lvLedgerEnv s tp = s\<lparr>lgPairs := (lg_id (tpDenom tp), tp) # lgPairs s\<rparr>"
  "ek_SetDenomMap lvLedgerEnv s d i = s" "ek_SetERC20Map lvLedgerEnv s d i = s" "ek_EnableDynamicPrecompiles lvLedgerEnv s d = Inr s"
  "ek_ToggleConversion lvLedgerEnv s auth d = Inr (s\<lparr>lgPairs := map (\<lambda>(i, tp).
     (i, if tpDenom tp = d then tp\<lparr>tpEnabled := \<not> tpEnabled tp\<rparr> else tp)) (lgPairs s)\<rparr>)"
  by (simp_all add: lvLedgerEnv_def)

lemma ld_send_more: "ld_send s f t c = Inr s' \<Longrightarrow> lgDenoms s' = lgDenoms s \<and> lgCounter s' = lgCounter s"
  by (auto simp: ld_send_def Let_def split: if_splits option.splits)

lemma lg_change_Inr [simp]: "lg_change s c = Inr s' \<longleftrightarrow> (\<exists>x. c = Some x \<and> s' = s\<lparr>ldBalances := (ldBalances s)([1] := x)\<rparr>)"
  by (auto simp: lg_change_def split: option.splits)

lemma lg_bank_kept: "accounts_kept ledgerEnv s (s\<lparr>ldBalances := b\<rparr>)"
  by (simp add: accounts_kept_def)

lemma same_code: "accounts_kept_code E s s"
proof -
  have "va = va\<lparr>CodeHash := CodeHash va\<rparr>" for va :: "'b clawback_account" by simp
  then show ?thesis unfolding accounts_kept_code_def by metis
qed

lemma lg_new_account: "fst (ak_NewAccount ledgerEnv s acc) = s"
  by (simp add: ledgerEnv_def)

lemma lg_changed:
  assumes "coIsValid stdCoins (ldBalances s [1])" "coIsValid stdCoins c"
  shows "changed_at lvLedgerEnv stdCoins 1 [1] c s (s\<lparr>ldBalances := (ldBalances s)([1] := coAdd stdCoins (ldBalances s [1]) c)\<rparr>)"
    "coSub stdCoins (ldBalances s [1]) c = Some x \<Longrightarrow>
       changed_at lvLedgerEnv stdCoins (- 1) [1] c s (s\<lparr>ldBalances := (ldBalances s)([1] := x)\<rparr>)"
  using std.amount_add[OF assms] std.amount_sub[OF assms, of x]
  by (simp_all add: changed_at_def del: stdCoins_sel)

lemma lvLedger_laws: "lv_laws stdCoins (\<lambda>d. d \<noteq> []) demoAddr lvLedgerEnv"
proof -
  have v: "vest_laws stdCoins (\<lambda>d. d \<noteq> []) demoAddr (lvVest lvLedgerEnv)"
    unfolding lvLedgerEnv_sel by (rule ledger_laws)
  have m: "bk_MintCoins lvLedgerEnv s m c = Inr s' \<Longrightarrow> coIsValid stdCoins c \<Longrightarrow> changed_at lvLedgerEnv stdCoins 1 [1] c s s'"
    "bk_BurnCoins lvLedgerEnv s m c = Inr s' \<Longrightarrow> coIsValid stdCoins c \<Longrightarrow> changed_at lvLedgerEnv stdCoins (- 1) [1] c s s'" for s m c s'
    using lg_changed[of s c] by (auto simp del: stdCoins_sel split: if_splits)
  show ?thesis
    unfolding lv_laws_def lv_laws_axioms_def
    by (intro conjI allI impI v)
      (auto simp: m same_code same_store_def same_bank_def update_conv' delete_conv' lg_new_account lg_bank_kept ld_send_more
        ld_send_kept ld_send_moved simp del: stdCoins_sel split: if_splits)
qed

interpretation lvl: lv_laws stdCoins "\<lambda>d. d \<noteq> []" demoAddr lvLedgerEnv
  by (rule lvLedger_laws)

text \<open>
  A ledger with the vesting account of the other examples, which also holds thirty coins of
  a liquid token released in one period from 1400 to 1500.
\<close>

definition demo_liquid :: "coin list denom" where
  "demo_liquid = \<lparr>BaseDenom = ''aLIQUID0'', DisplayDenom = ''LIQUID0'', OriginalDenom = ''aISLM'',
     dnStartTime = 1400, dnEndTime = 1500, dnLockupPeriods = [iperiod 100 30]\<rparr>"

definition demo_lv :: lv_ledger where
  "demo_lv = \<lparr>ldAccounts = (\<lambda>a. if a = [118] then Some (ClawbackAcc demo_va) else None),
     ldBalances = (\<lambda>a. if a = [118] then [\<lparr>Denom = ''aISLM'', Amt = 100\<rparr>, \<lparr>Denom = ''aLIQUID0'', Amt = 30\<rparr>]
       else if a = [1] then islm 30 else []),
     lgParams = \<lparr>MinimumLiquidationAmount = 10, EnableLiquidVesting = True\<rparr>,
     lgDenoms = [(''aLIQUID0'', demo_liquid)], lgCounter = Some 1,
     lgPairs = [(lg_id ''aLIQUID0'', \<lparr>Erc20Address = ''0x'', tpDenom = ''aLIQUID0'', tpEnabled = True, tpContractOwner = 1\<rparr>)]\<rparr>"

abbreviation demo_coin :: "string \<Rightarrow> coin" where
  "demo_coin d \<equiv> \<lparr>Denom = d, Amt = 30\<rparr>"

lemma demo_lv_sel [simp]:
  "ldAccounts demo_lv [118] = Some (ClawbackAcc demo_va)" "lgCounter demo_lv = Some 1"
  "lgParams demo_lv = \<lparr>MinimumLiquidationAmount = 10, EnableLiquidVesting = True\<rparr>"
  "lgDenoms demo_lv = [(''aLIQUID0'', demo_liquid)]"
  "ldBalances demo_lv [118] = [\<lparr>Denom = ''aISLM'', Amt = 100\<rparr>, \<lparr>Denom = ''aLIQUID0'', Amt = 30\<rparr>]"
  "ldBalances demo_lv [1] = islm 30" "ldBalances demo_lv [103] = []"
  by (simp_all add: demo_lv_def)

lemma demo_names: "DenomBaseNameFromID 0 = ''aLIQUID0''" "DenomBaseNameFromID (Suc 0) = ''aLIQUID1''"
  by code_simp+

lemma demo_va_address [simp]: "ld_address (BaseAccount demo_va) = [118]"
  by (simp add: demo_va_def ld_address_def demo_parse_def)

lemma demo_liquid_ok: "liquid_ok lvLedgerEnv stdCoins demo_lv ''aLIQUID0'' demo_liquid"
proof -
  have "sched_ok stdCoins 1400 [iperiod 100 30]" by code_simp
  then show ?thesis
    using demo_names(1) by (auto simp: liquid_ok_def demo_liquid_def GetDenomCounter_def iperiod_def simp del: stdCoins_sel)
qed

lemma demo_lv_inv: "lv_inv lvLedgerEnv stdCoins demo_lv"
proof -
  have "vest_inv ledgerEnv stdCoins demo_lv"
    using demo_va_ok by (auto simp: vest_inv_def demo_lv_def ld_address_def demo_va_def demo_parse_def split: if_splits)
  moreover have "escrowed stdCoins [''aLIQUID0'' \<mapsto> demo_liquid] = 30"
    by (simp add: escrowed_def demo_liquid_def iperiod_def islm_def)
  ultimately show ?thesis
    using demo_liquid_ok by (auto simp: lv_inv_def islm_def split: if_splits)
qed

lemma demo_liquidated:
  "liquidate_account stdCoins 1160 demo_va (demo_coin ''aISLM'') =
     Inr (demo_va\<lparr>LockupPeriods := [iperiod 100 40, iperiod 100 30], OriginalVesting := islm 70,
       VestingPeriods := [iperiod 50 35, iperiod 100 35]\<rparr>, [iperiod 100 30])"
  "GetVestingCoins stdCoins demo_va 1160 = Inr []" "GetLockedUpCoins stdCoins demo_va 1160 = Inr (islm 60)"
  "coFind stdCoins (islm 60) ''aISLM'' = (True, \<lparr>Denom = ''aISLM'', Amt = 60\<rparr>)"
  by code_simp+

lemma demo_liquidate_runs:
  "\<exists>s' m c. Liquidate lvLedgerEnv stdCoins 1160 demo_lv [118] [103] (demo_coin ''aISLM'') = Inr (s', m, c)"
proof -
  have co: "coNewCoins stdCoins (demo_coin ''aISLM'') = islm 30" "coNewCoin stdCoins ''aISLM'' 10 = Some \<lparr>Denom = ''aISLM'', Amt = 10\<rparr>"
    "coNewCoin stdCoins ''aLIQUID1'' 30 = Some (demo_coin ''aLIQUID1'')" "coNewCoins stdCoins (demo_coin ''aLIQUID1'') = [demo_coin ''aLIQUID1'']"
    "coIsValid stdCoins [\<lparr>Denom = ''aISLM'', Amt = 100\<rparr>, \<lparr>Denom = ''aLIQUID0'', Amt = 30\<rparr>]" "coIsValid stdCoins (islm 30)"
    "coSub stdCoins [\<lparr>Denom = ''aISLM'', Amt = 100\<rparr>, \<lparr>Denom = ''aLIQUID0'', Amt = 30\<rparr>] (islm 30) =
      Some [\<lparr>Denom = ''aISLM'', Amt = 70\<rparr>, \<lparr>Denom = ''aLIQUID0'', Amt = 30\<rparr>]"
    "coAdd stdCoins (islm 30) (islm 30) = islm 60" "coIsValid stdCoins (islm 60)" "coIsValid stdCoins [demo_coin ''aLIQUID1'']"
    "coAdd stdCoins (islm 60) [demo_coin ''aLIQUID1''] = [\<lparr>Denom = ''aISLM'', Amt = 60\<rparr>, demo_coin ''aLIQUID1'']"
    "coIsValid stdCoins [\<lparr>Denom = ''aISLM'', Amt = 60\<rparr>, demo_coin ''aLIQUID1'']" "coIsValid stdCoins []" "coIsZero stdCoins []"
    "coSub stdCoins [\<lparr>Denom = ''aISLM'', Amt = 60\<rparr>, demo_coin ''aLIQUID1''] [demo_coin ''aLIQUID1''] = Some (islm 60)"
    by code_simp+
  show ?thesis
    by (simp add: Liquidate_def IsLiquidVestingEnabled_def newCoin_def co Coin_IsLT_def demo_liquidated Let_def ld_send_def
      CreateDenom_def SetDenomCounter_def GetDenomCounter_def demo_names lg_change_def bind_erc20_def del: stdCoins_sel)
qed

lemma demo_redeem_apply:
  assumes "ldAccounts s [118] = Some (ClawbackAcc demo_va)"
  shows "\<exists>s' va'. ApplyVestingSchedule ledgerEnv stdCoins demoAddr s [102] [118] (islm 30) 1400
     [iperiod 100 30] [iperiod 0 30] True = Inr (s', va', False, True)"
proof -
  let ?lp = "[iperiod 100 40, iperiod 100 60]" and ?vp = "[iperiod 50 50, iperiod 100 50]"
  have so: "sched_ok stdCoins 1000 ?lp" "sched_ok stdCoins 1000 ?vp" "sched_ok stdCoins 1000 [iperiod 100 30]"
    "sched_ok stdCoins 1000 [iperiod 0 30]" by code_simp+
  have va: "StartTime demo_va = 1000" "LockupPeriods demo_va = ?lp" "VestingPeriods demo_va = ?vp" "FunderAddress demo_va = ''haqq1f''"
    by (simp_all add: demo_va_def)
  obtain lp where lp: "DisjunctPeriods stdCoins 1000 1000 ?lp [iperiod 100 30] = (1000, 1000 + total_length lp, lp)"
    using std.DisjunctPeriods_ok[OF so(1) so(3)] by (metis min.idem)
  obtain vp where vp: "DisjunctPeriods stdCoins 1000 1000 ?vp [iperiod 0 30] = (1000, 1000 + total_length vp, vp)"
    using std.DisjunctPeriods_ok[OF so(2) so(4)] by (metis min.idem)
  have "\<exists>c. newCoins1 stdCoins ''aISLM'' 0 = Inr c" by (simp add: newCoins1_def std.new_coin del: stdCoins_sel)
  then have "\<exists>va'. addGrant ledgerEnv stdCoins s demo_va 1000 [iperiod 100 30] [iperiod 0 30] (islm 30) = Inr va'"
    by (auto simp: addGrant_def va lp vp wrap_req_def ledgerEnv_def)
  then show ?thesis using assms by (auto simp: ApplyVestingSchedule_def va Min64_def)
qed

lemma demo_redeem_runs:
  "\<exists>s'. Redeem lvLedgerEnv stdCoins demoAddr 1450 demo_lv [118] [118] (demo_coin ''aLIQUID0'') = Inr s'"
proof -
  have co: "coNewCoins stdCoins (demo_coin ''aLIQUID0'') = [demo_coin ''aLIQUID0'']" "coNewCoin stdCoins ''aISLM'' 30 = Some (demo_coin ''aISLM'')"
    "coNewCoins stdCoins (demo_coin ''aISLM'') = islm 30"
    "coIsValid stdCoins [\<lparr>Denom = ''aISLM'', Amt = 100\<rparr>, demo_coin ''aLIQUID0'']" "coIsValid stdCoins (islm 30)"
    "coAmountOf stdCoins [\<lparr>Denom = ''aISLM'', Amt = 100\<rparr>, demo_coin ''aLIQUID0''] ''aLIQUID0'' = 30"
    "coSub stdCoins [\<lparr>Denom = ''aISLM'', Amt = 100\<rparr>, demo_coin ''aLIQUID0''] [demo_coin ''aLIQUID0''] = Some (islm 100)"
    "coAdd stdCoins (islm 30) [demo_coin ''aLIQUID0''] = [demo_coin ''aISLM'', demo_coin ''aLIQUID0'']"
    "coIsValid stdCoins [demo_coin ''aISLM'', demo_coin ''aLIQUID0'']" "coIsValid stdCoins [demo_coin ''aLIQUID0'']"
    "coSub stdCoins [demo_coin ''aISLM'', demo_coin ''aLIQUID0''] [demo_coin ''aLIQUID0''] = Some (islm 30)"
    "coSub stdCoins (islm 30) (islm 30) = Some []" "coIsValid stdCoins (islm 100)" "coAdd stdCoins (islm 100) (islm 30) = islm 130"
    "SubtractAmountFromPeriods stdCoins [iperiod 100 30] (demo_coin ''aISLM'') = Inr ([\<lparr>Length = 100, Amount = []\<rparr>], [iperiod 100 30])"
    "coIsZero stdCoins (coTotalAmount stdCoins [\<lparr>Length = 100, Amount = []\<rparr>])"
    "ExtractUpcomingPeriods 1400 1500 [iperiod 100 30] 1450 = [iperiod 100 30]" by code_simp+
  have ne: "lg_id ''aLIQUID0'' \<noteq> []" by (simp add: lg_id_def)
  have pair: "map_of (lgPairs demo_lv) (lg_id ''aLIQUID0'') = Some \<lparr>Erc20Address = ''0x'', tpDenom = ''aLIQUID0'', tpEnabled = True, tpContractOwner = 1\<rparr>"
    by (simp add: demo_lv_def)
  have dn: "OriginalDenom demo_liquid = ''aISLM''" "BaseDenom demo_liquid = ''aLIQUID0''" "dnLockupPeriods demo_liquid = [iperiod 100 30]"
    "dnStartTime demo_liquid = 1400" "dnEndTime demo_liquid = 1500" by (simp_all add: demo_liquid_def)
  have fu: "mustAcc demoAddr (FunderAddress demo_va) = Inr [102]"
    by (simp add: demo_va_def mustAcc_def of_option_def)
  have p0: "\<lparr>Length = 0, Amount = islm 30\<rparr> = iperiod 0 30" by (simp add: iperiod_def)
  have run: "\<exists>s'. bind_r (wrap_err e m (ApplyVestingSchedule ledgerEnv stdCoins demoAddr s [102] [118] (islm 30) 1400
      [iperiod 100 30] [iperiod 0 30] True)) (\<lambda>(s6, _, _, _). Inr s6) = Inr s'"
    if "ldAccounts s [118] = Some (ClawbackAcc demo_va)" for s :: lv_ledger and e m
    using demo_redeem_apply[OF that] by auto
  show ?thesis
    by (simp add: Redeem_def IsLiquidVestingEnabled_def GetDenom_def newCoin_def co Coin_IsLT_def Let_def ld_send_def ne pair
      DeleteDenom_def UpdateDenomPeriods_def lg_change_def dn fu p0 run del: stdCoins_sel)
qed

section \<open>Properties\<close>

text \<open>
  C18. Liquidating an amount of locked, fully vested coins splits the account's lockup
  exactly: at every time the account's new lockup and the schedule of the new liquid token
  together release what the old lockup released, and the token's schedule, which starts
  now, adds up to the amount. The amount moves from the account into the module's escrow,
  the same number of liquid tokens under a fresh name reaches the receiver, the original
  vesting shrinks by it and no other balance changes.
\<close>

theorem Liquidate_splits_lockup:
  assumes "lv_laws K ok X E" "vest_inv (lvVest E) K s" "Liquidate E K t s a b x = Inr (s', minted, contract)"
    "ak_GetAccount (lvVest E) s a = Some (ClawbackAcc va)" "0 < Amt x"
    "coAmountOf K (OriginalVesting va) (Denom x) * Amt x < 2 ^ 256"
  shows "vest_inv (lvVest E) K s' \<and> minted = \<lparr>Denom = DenomBaseNameFromID (GetDenomCounter E s), Amt = Amt x\<rparr> \<and>
    (\<exists>va' dn. ak_GetAccount (lvVest E) s' a = Some (ClawbackAcc va') \<and> GetDenom E s' (Denom minted) = Some dn \<and>
       dnStartTime dn = t \<and> dnEndTime dn = t + total_length (dnLockupPeriods dn) \<and>
       (\<forall>t' d. released K (StartTime va') (LockupPeriods va') t' d + released K t (dnLockupPeriods dn) t' d =
          released K (StartTime va) (LockupPeriods va) t' d) \<and>
       total_amount K (dnLockupPeriods dn) (Denom x) = Amt x \<and>
       (\<forall>d. coAmountOf K (OriginalVesting va') d = coAmountOf K (OriginalVesting va) d - (if d = Denom x then Amt x else 0))) \<and>
    (\<forall>c d. coAmountOf K (bk_GetAllBalances (lvVest E) s' c) d = coAmountOf K (bk_GetAllBalances (lvVest E) s c) d
       + (if d = Denom x then (if c = ak_GetModuleAddress (lvVest E) ModuleName then Amt x else 0) - (if c = a then Amt x else 0) else 0)
       + (if d = Denom minted \<and> c = b then Amt x else 0))"
proof (rule lv_laws.Liquidate_ok[OF assms(1-6)])
  fix va' dn h
  assume "ak_GetAccount (lvVest E) s' a = Some (ClawbackAcc (va'\<lparr>CodeHash := h\<rparr>))" "vest_inv (lvVest E) K s'"
    "minted = \<lparr>Denom = DenomBaseNameFromID (GetDenomCounter E s), Amt = Amt x\<rparr>" "GetDenom E s' (Denom minted) = Some dn"
    "dnStartTime dn = t" "dnEndTime dn = t + total_length (dnLockupPeriods dn)" "total_amount K (dnLockupPeriods dn) (Denom x) = Amt x"
    "\<And>t' d. released K (StartTime va') (LockupPeriods va') t' d + released K t (dnLockupPeriods dn) t' d =
       released K (StartTime va) (LockupPeriods va) t' d"
    "\<And>d. coAmountOf K (OriginalVesting va') d = coAmountOf K (OriginalVesting va) d - (if d = Denom x then Amt x else 0)"
    "\<And>c d. coAmountOf K (bk_GetAllBalances (lvVest E) s' c) d = coAmountOf K (bk_GetAllBalances (lvVest E) s c) d
       + (if d = Denom x then (if c = ak_GetModuleAddress (lvVest E) ModuleName then Amt x else 0) - (if c = a then Amt x else 0) else 0)
       + (if d = Denom minted \<and> c = b then Amt x else 0)"
  then show ?thesis by (intro conjI exI[of _ "va'\<lparr>CodeHash := h\<rparr>"] exI[of _ dn]) simp_all
qed

theorem Liquidate_splits_lockup_witness:
  "\<exists>s' m c. Liquidate lvLedgerEnv stdCoins 1160 demo_lv [118] [103] (demo_coin ''aISLM'') = Inr (s', m, c) \<and>
     vest_inv ledgerEnv stdCoins s' \<and> m = demo_coin ''aLIQUID1''"
proof -
  obtain s' m c where r: "Liquidate lvLedgerEnv stdCoins 1160 demo_lv [118] [103] (demo_coin ''aISLM'') = Inr (s', m, c)"
    using demo_liquidate_runs by blast
  have b: "coAmountOf stdCoins (OriginalVesting demo_va) (Denom (demo_coin ''aISLM'')) * Amt (demo_coin ''aISLM'') < 2 ^ 256"
    by (simp add: demo_va_def islm_def)
  have g: "ak_GetAccount (lvVest lvLedgerEnv) demo_lv [118] = Some (ClawbackAcc demo_va)" "0 < Amt (demo_coin ''aISLM'')" by simp_all
  have i: "vest_inv (lvVest lvLedgerEnv) stdCoins demo_lv" using demo_lv_inv by (simp add: lv_inv_def)
  show ?thesis
    using Liquidate_splits_lockup[OF lvLedger_laws i r g b] r demo_names(2) by (simp add: GetDenomCounter_def)
qed

text \<open>
  C19. Redeeming liquid tokens burns them, pays the same amount of the original coin from
  the escrow to the receiver and takes the amount out of the token's schedule; a token
  whose schedule is used up is deleted. Before the token's end the receiver's lockup gains
  the subtracted part of the schedule, merged from the earlier of the two starts: a
  receiver whose vesting account started \<open>k\<close> seconds before the token gets every
  coin of it unlocked \<open>k\<close> seconds before the token's own schedule says.
\<close>

theorem Redeem_moves_schedule_to_receiver:
  assumes "lv_laws K ok X E" "vest_inv (lvVest E) K s" "Redeem E K X t s a b x = Inr s'"
    "GetDenom E s (Denom x) = Some dn" "liquid_ok E K s (Denom x) dn" "ok (Denom x)" "0 < Amt x"
    "total_amount K (dnLockupPeriods dn) ''aISLM'' * Amt x < 2 ^ 256"
  shows "vest_inv (lvVest E) K s' \<and> redeemed E K a b x ''aISLM'' s s' \<and>
    (\<exists>dec diff. total_amount K diff ''aISLM'' = Amt x \<and> sched_ok K (dnStartTime dn) dec \<and> sched_ok K (dnStartTime dn) diff \<and>
       total_length dec = total_length (dnLockupPeriods dn) \<and> total_length diff = total_length (dnLockupPeriods dn) \<and>
       (\<forall>t d. released K (dnStartTime dn) dec t d + released K (dnStartTime dn) diff t d =
          released K (dnStartTime dn) (dnLockupPeriods dn) t d) \<and>
       GetDenom E s' (Denom x) = (if \<forall>d. total_amount K dec d = 0 then None else Some (dn\<lparr>dnLockupPeriods := dec\<rparr>)) \<and>
       (\<forall>t' d. lockup_at (lvVest E) K s' b t' d = lockup_at (lvVest E) K s b t' d +
          (if dnStartTime dn < t \<and> dnEndTime dn \<le> t then 0
           else released K (dnStartTime dn) diff (t' + merge_shift (lvVest E) s b (dnStartTime dn)) d)))"
proof (rule lv_laws.Redeem_ok[OF assms])
  fix dec diff
  assume "vest_inv (lvVest E) K s'" "redeemed E K a b x ''aISLM'' s s'"
    "sched_ok K (dnStartTime dn) dec" "total_length dec = total_length (dnLockupPeriods dn)"
    "sched_ok K (dnStartTime dn) diff" "total_length diff = total_length (dnLockupPeriods dn)"
    "dsGet E s' = (dsGet E s)(Denom x := if \<forall>d. total_amount K dec d = 0 then None else Some (dn\<lparr>dnLockupPeriods := dec\<rparr>))"
    "\<And>t d. released K (dnStartTime dn) dec t d + released K (dnStartTime dn) diff t d = released K (dnStartTime dn) (dnLockupPeriods dn) t d"
    "\<And>d. total_amount K diff d = (if d = ''aISLM'' then Amt x else 0)"
    "\<And>t' d. lockup_at (lvVest E) K s' b t' d = lockup_at (lvVest E) K s b t' d +
       (if dnStartTime dn < t \<and> dnEndTime dn \<le> t then 0
        else released K (dnStartTime dn) diff (t' + merge_shift (lvVest E) s b (dnStartTime dn)) d)"
  then show ?thesis by (intro conjI exI[of _ dec] exI[of _ diff]) (simp_all add: GetDenom_def)
qed

text \<open>
  The witness redeems at 1450 a token that unlocks at 1500; as the account started at 1000,
  the coins are already unlocked in the receiver's schedule at 1450.
\<close>

theorem Redeem_moves_schedule_to_receiver_witness:
  "\<exists>s'. Redeem lvLedgerEnv stdCoins demoAddr 1450 demo_lv [118] [118] (demo_coin ''aLIQUID0'') = Inr s' \<and>
     released stdCoins 1400 [iperiod 100 30] 1450 ''aISLM'' = 0 \<and>
     lockup_at ledgerEnv stdCoins s' [118] 1450 ''aISLM'' = lockup_at ledgerEnv stdCoins demo_lv [118] 1450 ''aISLM'' + 30"
proof -
  obtain s' where r: "Redeem lvLedgerEnv stdCoins demoAddr 1450 demo_lv [118] [118] (demo_coin ''aLIQUID0'') = Inr s'"
    using demo_redeem_runs by blast
  let ?x = "demo_coin ''aLIQUID0''"
  have g: "GetDenom lvLedgerEnv demo_lv (Denom ?x) = Some demo_liquid" "liquid_ok lvLedgerEnv stdCoins demo_lv (Denom ?x) demo_liquid"
    "Denom ?x \<noteq> []" "0 < Amt ?x" using demo_liquid_ok by (simp_all add: GetDenom_def)
  have b: "total_amount stdCoins (dnLockupPeriods demo_liquid) ''aISLM'' * Amt ?x < 2 ^ 256"
    by (simp add: demo_liquid_def iperiod_def islm_def)
  have i: "vest_inv (lvVest lvLedgerEnv) stdCoins demo_lv" using demo_lv_inv by (simp add: lv_inv_def)
  have st: "merge_shift ledgerEnv demo_lv [118] 1400 = 400" "dnStartTime demo_liquid = 1400" "dnEndTime demo_liquid = 1500"
    by (simp_all add: merge_shift_def demo_va_def demo_liquid_def)
  obtain diff where d: "total_amount stdCoins diff ''aISLM'' = 30" "sched_ok stdCoins 1400 diff"
    "total_length diff = total_length [iperiod 100 30]"
    "lockup_at ledgerEnv stdCoins s' [118] 1450 ''aISLM'' = lockup_at ledgerEnv stdCoins demo_lv [118] 1450 ''aISLM'' +
      released stdCoins 1400 diff 1850 ''aISLM''"
    using Redeem_moves_schedule_to_receiver[OF lvLedger_laws i r g b] st by (auto simp: demo_liquid_def simp del: stdCoins_sel)
  have "released stdCoins 1400 diff 1850 ''aISLM'' = 30"
    using sched_ok_released_after[OF d(2), of 1850] d(1,3) by (simp add: iperiod_def)
  moreover have "released stdCoins 1400 [iperiod 100 30] 1450 ''aISLM'' = 0" by code_simp
  ultimately show ?thesis using r d(4) by auto
qed

text \<open>
  C20. Every liquid token stays backed. Whatever sequence of liquidations and redemptions
  runs, the stored denominations stay well formed under names the counter has passed, and
  the coins all their schedules still promise are in the module's escrow.
\<close>

theorem liquid_tokens_stay_backed:
  assumes "lv_laws K ok X E" "(lv_step E K X)\<^sup>*\<^sup>* s s'" "lv_inv E K s"
  shows "lv_inv E K s'"
  by (rule lv_laws.lv_steps_inv[OF assms])

theorem liquid_tokens_stay_backed_witness:
  "\<exists>s'. lv_step lvLedgerEnv stdCoins demoAddr demo_lv s' \<and> lv_inv lvLedgerEnv stdCoins s'"
proof -
  obtain s' where r: "Redeem lvLedgerEnv stdCoins demoAddr 1450 demo_lv [118] [118] (demo_coin ''aLIQUID0'') = Inr s'"
    using demo_redeem_runs by blast
  have st: "lv_step lvLedgerEnv stdCoins demoAddr demo_lv s'"
    by (rule lv_step.redeem[OF r, of demo_liquid]) (simp_all add: std.new_coin GetDenom_def demo_liquid_def iperiod_def islm_def)
  then have "(lv_step lvLedgerEnv stdCoins demoAddr)\<^sup>*\<^sup>* demo_lv s'" by blast
  from liquid_tokens_stay_backed[OF lvLedger_laws this demo_lv_inv] show ?thesis using st by blast
qed

end
