(* ===== verification/AccessList.thy ===== *)
theory AccessList
  imports Addresses
begin

text \<open>
  The per-transaction access list of x/evm/statedb/access_list.go: addresses map to an index
  into a slice of slot sets, or to \<open>-1\<close> when the address has no slots. The journal undoes
  additions in reverse order, which is what makes truncating the slice sound. The lemmas show
  that the index structure is a set of addresses and a set of (address, slot) pairs, and that
  every deletion the journal performs restores the list exactly.
\<close>

type_synonym address = "160 word"

record access_list =
  alAddresses :: "address \<rightharpoonup> int"
  alSlots :: "hash set list"

definition newAccessList :: access_list where
  "newAccessList = \<lparr>alAddresses = (\<lambda>_. None), alSlots = []\<rparr>"

definition ContainsAddress :: "access_list \<Rightarrow> address \<Rightarrow> bool" where
  "ContainsAddress al address = (alAddresses al address \<noteq> None)"

text \<open>Indexing a slice panics outside its range.\<close>

definition index_r :: "'a list \<Rightarrow> int \<Rightarrow> 'a result" where
  "index_r xs i = (if 0 \<le> i \<and> nat i < length xs then Inr (xs ! nat i) else Inl (Panic ''index out of range''))"

definition Contains :: "access_list \<Rightarrow> address \<Rightarrow> hash \<Rightarrow> (bool \<times> bool) result" where
  "Contains al address slot =
     (case alAddresses al address of
        None \<Rightarrow> Inr (False, False)
      | Some idx \<Rightarrow>
          if idx = -1 then Inr (True, False)
          else bind_r (index_r (alSlots al) idx) (\<lambda>slotmap. Inr (True, slot \<in> slotmap)))"

definition AddAddress :: "access_list \<Rightarrow> address \<Rightarrow> access_list \<times> bool" where
  "AddAddress al address =
     (if alAddresses al address \<noteq> None then (al, False)
      else (al\<lparr>alAddresses := (alAddresses al)(address \<mapsto> -1)\<rparr>, True))"

definition AddSlot :: "access_list \<Rightarrow> address \<Rightarrow> hash \<Rightarrow> (access_list \<times> bool \<times> bool) result" where
  "AddSlot al address slot =
     (let fresh = al\<lparr>alAddresses := (alAddresses al)(address \<mapsto> int (length (alSlots al))), alSlots := alSlots al @ [{slot}]\<rparr> in
      case alAddresses al address of
        None \<Rightarrow> Inr (fresh, True, True)
      | Some idx \<Rightarrow>
          if idx = -1 then Inr (fresh, False, True)
          else
           bind_r (index_r (alSlots al) idx) (\<lambda>slotmap.
           if slot \<notin> slotmap
           then Inr (al\<lparr>alSlots := (alSlots al)[nat idx := insert slot slotmap]\<rparr>, False, True)
           else Inr (al, False, False)))"

definition DeleteSlot :: "access_list \<Rightarrow> address \<Rightarrow> hash \<Rightarrow> access_list result" where
  "DeleteSlot al address slot =
     (case alAddresses al address of
        None \<Rightarrow> Inl (Panic ''reverting slot change, address not present in list'')
      | Some idx \<Rightarrow>
          bind_r (index_r (alSlots al) idx) (\<lambda>slotmap.
          let slotmap' = slotmap - {slot}; al' = al\<lparr>alSlots := (alSlots al)[nat idx := slotmap']\<rparr> in
          if slotmap' = {}
          then Inr (al'\<lparr>alSlots := take (nat idx) (alSlots al'), alAddresses := (alAddresses al')(address \<mapsto> -1)\<rparr>)
          else Inr al'))"

definition DeleteAddress :: "access_list \<Rightarrow> address \<Rightarrow> access_list" where
  "DeleteAddress al address = al\<lparr>alAddresses := (alAddresses al)(address := None)\<rparr>"

section \<open>The index structure is a pair of sets\<close>

definition al_ok :: "access_list \<Rightarrow> bool" where
  "al_ok al \<longleftrightarrow> (\<forall>a i. alAddresses al a = Some i \<longrightarrow> i = -1 \<or> (0 \<le> i \<and> nat i < length (alSlots al))) \<and>
     (\<forall>a b i. alAddresses al a = Some i \<longrightarrow> alAddresses al b = Some i \<longrightarrow> i \<noteq> -1 \<longrightarrow> a = b) \<and>
     (\<forall>S\<in>set (alSlots al). S \<noteq> {})"

definition al_addresses :: "access_list \<Rightarrow> address set" where
  "al_addresses al = dom (alAddresses al)"

definition al_pairs :: "access_list \<Rightarrow> (address \<times> hash) set" where
  "al_pairs al = {(a, x). \<exists>i. alAddresses al a = Some i \<and> i \<noteq> -1 \<and> x \<in> alSlots al ! nat i}"

lemma al_okD:
  assumes "al_ok al" "alAddresses al a = Some i" "i \<noteq> -1"
  shows "0 \<le> i" "nat i < length (alSlots al)" "alSlots al ! nat i \<noteq> {}" "index_r (alSlots al) i = Inr (alSlots al ! nat i)"
    "alAddresses al b = Some j \<Longrightarrow> j \<noteq> -1 \<Longrightarrow> a \<noteq> b \<Longrightarrow> nat j \<noteq> nat i"
proof -
  show i: "0 \<le> i" "nat i < length (alSlots al)" using assms unfolding al_ok_def by blast+
  then show "alSlots al ! nat i \<noteq> {}" using assms(1) nth_mem unfolding al_ok_def by blast
  show "index_r (alSlots al) i = Inr (alSlots al ! nat i)" using i by (simp add: index_r_def)
  show "nat j \<noteq> nat i" if b: "alAddresses al b = Some j" "j \<noteq> -1" "a \<noteq> b"
  proof -
    have "0 \<le> j" using assms(1) b unfolding al_ok_def by blast
    moreover have "j \<noteq> i" using assms b unfolding al_ok_def by blast
    ultimately show ?thesis using i by linarith
  qed
qed

lemma newAccessList_ok [simp]: "al_ok newAccessList" "al_addresses newAccessList = {}" "al_pairs newAccessList = {}"
  by (auto simp: al_ok_def newAccessList_def al_addresses_def al_pairs_def)

lemma Contains_eq: "al_ok al \<Longrightarrow> Contains al a x = Inr (a \<in> al_addresses al, (a, x) \<in> al_pairs al)"
  by (auto simp: Contains_def al_addresses_def al_pairs_def al_okD(4) dom_def split: option.splits)

lemma AddAddress_ok:
  assumes "al_ok al" "AddAddress al a = (al', changed)"
  shows "al_ok al'" "changed \<longleftrightarrow> a \<notin> al_addresses al" "al_addresses al' = insert a (al_addresses al)" "al_pairs al' = al_pairs al"
    "changed \<Longrightarrow> DeleteAddress al' a = al" "\<not> changed \<Longrightarrow> al' = al"
proof -
  consider "alAddresses al a \<noteq> None" "al' = al" "\<not> changed"
    | "alAddresses al a = None" "al' = al\<lparr>alAddresses := (alAddresses al)(a \<mapsto> -1)\<rparr>" "changed"
    using assms(2) by (auto simp: AddAddress_def split: if_splits)
  then have "al_ok al' \<and> (changed \<longleftrightarrow> a \<notin> al_addresses al) \<and> al_addresses al' = insert a (al_addresses al) \<and> al_pairs al' = al_pairs al \<and>
    (if changed then DeleteAddress al' a = al else al' = al)"
  proof cases
    case 1
    then show ?thesis using assms(1) by (auto simp: al_addresses_def)
  next
    case 2
    have "al_pairs al' = al_pairs al" using 2(1) by (auto simp: 2(2) al_pairs_def split: if_splits)
    moreover have "al_ok al'" using assms(1) unfolding al_ok_def 2(2) by (simp split: if_splits)
    moreover have "DeleteAddress al' a = al" using 2(1) by (simp add: 2(2) DeleteAddress_def fun_upd_idem)
    ultimately show ?thesis using 2 by (auto simp: al_addresses_def)
  qed
  then show "al_ok al'" "changed \<longleftrightarrow> a \<notin> al_addresses al" "al_addresses al' = insert a (al_addresses al)" "al_pairs al' = al_pairs al"
    "changed \<Longrightarrow> DeleteAddress al' a = al" "\<not> changed \<Longrightarrow> al' = al" by auto
qed

lemma AddSlot_fresh:
  assumes ok: "al_ok al" and a: "alAddresses al a = None \<or> alAddresses al a = Some (-1)"
    and al': "al' = al\<lparr>alAddresses := (alAddresses al)(a \<mapsto> int (length (alSlots al))), alSlots := alSlots al @ [{x}]\<rparr>"
  shows "al_ok al'" "al_addresses al' = insert a (al_addresses al)" "al_pairs al' = insert (a, x) (al_pairs al)"
    "DeleteSlot al' a x = Inr (al\<lparr>alAddresses := (alAddresses al)(a \<mapsto> -1)\<rparr>)"
proof -
  have r: "alAddresses al b = Some i \<Longrightarrow> i \<noteq> -1 \<Longrightarrow> 0 \<le> i \<and> nat i < length (alSlots al)" for b i
    using ok by (auto simp: al_ok_def)
  show "al_ok al'"
    unfolding al_ok_def
  proof (intro conjI allI impI ballI)
    fix b i
    assume "alAddresses al' b = Some i"
    then show "i = -1 \<or> (0 \<le> i \<and> nat i < length (alSlots al'))" using r[of b i] by (auto simp: al' split: if_splits)
  next
    fix b c i
    assume "alAddresses al' b = Some i" "alAddresses al' c = Some i" "i \<noteq> -1"
    then show "b = c" using r[of b i] r[of c i] ok by (auto simp: al' al_ok_def split: if_splits)
  next
    fix S
    assume "S \<in> set (alSlots al')"
    then show "S \<noteq> {}" using ok by (auto simp: al' al_ok_def)
  qed
  show "al_addresses al' = insert a (al_addresses al)" by (auto simp: al' al_addresses_def)
  show "al_pairs al' = insert (a, x) (al_pairs al)"
  proof (intro set_eqI)
    fix p :: "address \<times> hash"
    obtain b y where p: "p = (b, y)" by (cases p)
    show "p \<in> al_pairs al' \<longleftrightarrow> p \<in> insert (a, x) (al_pairs al)"
      using a r[of b] by (cases "b = a") (auto simp: p al' al_pairs_def nth_append)
  qed
  show "DeleteSlot al' a x = Inr (al\<lparr>alAddresses := (alAddresses al)(a \<mapsto> -1)\<rparr>)"
    by (simp add: al' DeleteSlot_def index_r_def nth_append Let_def)
qed

lemma AddSlot_existing:
  assumes ok: "al_ok al" and a: "alAddresses al a = Some i" "i \<noteq> -1" and x: "x \<notin> alSlots al ! nat i"
    and al': "al' = al\<lparr>alSlots := (alSlots al)[nat i := insert x (alSlots al ! nat i)]\<rparr>"
  shows "al_ok al'" "al_addresses al' = al_addresses al" "al_pairs al' = insert (a, x) (al_pairs al)"
    "DeleteSlot al' a x = Inr al"
proof -
  note i = al_okD[OF ok a]
  show "al_ok al'" using ok by (auto simp: al' al_ok_def dest!: set_update_subset_insert[THEN subsetD])
  show "al_addresses al' = al_addresses al" by (simp add: al' al_addresses_def)
  show "al_pairs al' = insert (a, x) (al_pairs al)"
    using a i(2,5) by (fastforce simp: al' al_pairs_def nth_list_update split: if_splits)
  have "\<not> alSlots al ! nat i \<subseteq> {x}" using i(3) x by blast
  then show "DeleteSlot al' a x = Inr al"
    using a i(1,2) x by (simp add: al' DeleteSlot_def index_r_def Let_def)
qed

text \<open>What adding a slot does, and that undoing it in reverse order restores the list.\<close>

lemma AddSlot_ok:
  assumes ok: "al_ok al"
  obtains al' addrMod slotMod where "AddSlot al a x = Inr (al', addrMod, slotMod)" "al_ok al'"
    "addrMod \<longleftrightarrow> a \<notin> al_addresses al" "slotMod \<longleftrightarrow> (a, x) \<notin> al_pairs al" "addrMod \<Longrightarrow> slotMod"
    "al_addresses al' = insert a (al_addresses al)" "al_pairs al' = insert (a, x) (al_pairs al)"
    "\<not> slotMod \<Longrightarrow> al' = al"
    "addrMod \<Longrightarrow> \<exists>al1. DeleteSlot al' a x = Inr al1 \<and> DeleteAddress al1 a = al"
    "slotMod \<Longrightarrow> \<not> addrMod \<Longrightarrow> DeleteSlot al' a x = Inr al"
proof -
  let ?fresh = "al\<lparr>alAddresses := (alAddresses al)(a \<mapsto> int (length (alSlots al))), alSlots := alSlots al @ [{x}]\<rparr>"
  consider "alAddresses al a = None" | "alAddresses al a = Some (-1)" | i where "alAddresses al a = Some i" "i \<noteq> -1" by force
  then show ?thesis
  proof cases
    case 1
    note f = AddSlot_fresh[OF ok disjI1[OF 1] refl]
    show ?thesis
      by (rule that[of ?fresh True True])
        (use 1 f in \<open>auto simp: AddSlot_def al_addresses_def al_pairs_def DeleteAddress_def fun_upd_idem\<close>)
  next
    case 2
    note f = AddSlot_fresh[OF ok disjI2[OF 2] refl]
    show ?thesis
      by (rule that[of ?fresh False True])
        (use 2 f in \<open>auto simp: AddSlot_def al_addresses_def al_pairs_def fun_upd_idem\<close>)
  next
    case 3
    note i = al_okD[OF ok 3]
    show ?thesis
    proof (cases "x \<in> alSlots al ! nat i")
      case True
      then show ?thesis
        by (intro that[of al False False]) (use ok 3 i in \<open>auto simp: AddSlot_def al_addresses_def al_pairs_def\<close>)
    next
      case False
      note f = AddSlot_existing[OF ok 3 False refl]
      show ?thesis
        by (rule that[of "al\<lparr>alSlots := (alSlots al)[nat i := insert x (alSlots al ! nat i)]\<rparr>" False True])
          (use 3 i False f in \<open>auto simp: AddSlot_def al_addresses_def al_pairs_def\<close>)
    qed
  qed
qed

section \<open>Properties\<close>



end
