(* ===== verification/StateDB.thy ===== *)
theory StateDB
  imports AccessList "HOL-Library.AList"
begin

text \<open>
  The journalled state database of x/evm/statedb (statedb.go, state_object.go, journal.go):
  the cache of account objects the EVM works on, the journal that undoes every change, and
  the commit to the keeper. The \<^verbatim>\<open>Keeper\<close> interface is a record of operations over a
  store, which stands for the multi-store behind an SDK context. Objects are values here:
  the code keeps pointers, but an object is changed only through the map entry of its own
  address, and a pointer kept in the journal is not changed until it is put back. Errors of
  the keeper pass through a commit without the text wrapped around them.
\<close>

section \<open>Accounts and the keeper interface\<close>

text \<open>
  \<open>raw_account\<close> is the Go struct with its nilable pointer and slice; \<open>acct\<close> is the one
  inside an object, where \<open>newObject\<close> has replaced the nil values.
\<close>

record raw_account =
  rNonce :: "64 word"
  rBalance :: "int option"
  rCodeHash :: "hash option"

record acct =
  aNonce :: "64 word"
  aBalance :: int
  aCodeHash :: hash

record 'k keeper_api =
  kGetAccount :: "'k \<Rightarrow> address \<Rightarrow> raw_account option"
  kGetState :: "'k \<Rightarrow> address \<Rightarrow> hash \<Rightarrow> hash"
  kGetCode :: "'k \<Rightarrow> hash \<Rightarrow> bytes option"
  kStorage :: "'k \<Rightarrow> address \<Rightarrow> (hash \<times> hash) list"
  kSetAccount :: "'k \<Rightarrow> address \<Rightarrow> acct \<Rightarrow> 'k result"
  kSetState :: "'k \<Rightarrow> address \<Rightarrow> hash \<Rightarrow> hash \<Rightarrow> 'k"
  kSetCode :: "'k \<Rightarrow> hash \<Rightarrow> bytes \<Rightarrow> 'k"
  kDeleteAccount :: "'k \<Rightarrow> address \<Rightarrow> 'k result"
  kKeccak256 :: "bytes \<Rightarrow> hash"
  cmsWrite :: "'k \<Rightarrow> 'k \<Rightarrow> 'k"

abbreviation emptyHash :: "'k keeper_api \<Rightarrow> hash" where
  "emptyHash K \<equiv> kKeccak256 K []"

definition NewEmptyAccount :: "'k keeper_api \<Rightarrow> acct" where
  "NewEmptyAccount K = \<lparr>aNonce = 0, aBalance = 0, aCodeHash = emptyHash K\<rparr>"

definition IsContract :: "'k keeper_api \<Rightarrow> acct \<Rightarrow> bool" where
  "IsContract K acct = (aCodeHash acct \<noteq> emptyHash K)"

record state_object =
  soAccount :: acct
  soCode :: "bytes option"
  originStorage :: "hash \<rightharpoonup> hash"
  dirtyStorage :: "(hash \<times> hash) list"
  soAddress :: address
  dirtyCode :: bool
  suicided :: bool

definition SortedKeys :: "(hash \<times> hash) list \<Rightarrow> hash list" where
  "SortedKeys st = sort (remdups (map fst st))"

definition newObject :: "'k keeper_api \<Rightarrow> address \<Rightarrow> raw_account \<Rightarrow> state_object" where
  "newObject K address account =
     \<lparr>soAccount = \<lparr>aNonce = rNonce account,
        aBalance = (case rBalance account of None \<Rightarrow> 0 | Some b \<Rightarrow> b),
        aCodeHash = (case rCodeHash account of None \<Rightarrow> emptyHash K | Some h \<Rightarrow> h)\<rparr>,
      soCode = None, originStorage = (\<lambda>_. None), dirtyStorage = [], soAddress = address,
      dirtyCode = False, suicided = False\<rparr>"

definition so_empty :: "'k keeper_api \<Rightarrow> state_object \<Rightarrow> bool" where
  "so_empty K so = (aNonce (soAccount so) = 0 \<and> aBalance (soAccount so) = 0 \<and> aCodeHash (soAccount so) = emptyHash K)"

section \<open>The journal\<close>

datatype ('k, 'e) journal_entry =
    createObjectChange address
  | resetObjectChange state_object
  | suicideChange address bool int
  | balanceChange address int
  | nonceChange address "64 word"
  | storageChange address hash hash
  | codeChange address "bytes option" hash
  | refundChange "64 word"
  | addLogChange
  | accessListAddAccountChange address
  | accessListAddSlotChange address hash
  | precompileCallChange 'k "'e list"

fun Dirtied :: "('k, 'e) journal_entry \<Rightarrow> address option" where
  "Dirtied (createObjectChange a) = Some a"
| "Dirtied (resetObjectChange _) = None"
| "Dirtied (suicideChange a _ _) = Some a"
| "Dirtied (balanceChange a _) = Some a"
| "Dirtied (nonceChange a _) = Some a"
| "Dirtied (storageChange a _ _) = Some a"
| "Dirtied (codeChange a _ _) = Some a"
| "Dirtied (refundChange _) = None"
| "Dirtied addLogChange = None"
| "Dirtied (accessListAddAccountChange _) = None"
| "Dirtied (accessListAddSlotChange _ _) = None"
| "Dirtied (precompileCallChange _ _) = None"

record ('k, 'e) journal =
  jEntries :: "('k, 'e) journal_entry list"
  dirties :: "(address \<times> int) list"

definition newJournal :: "('k, 'e) journal" where
  "newJournal = \<lparr>jEntries = [], dirties = []\<rparr>"

definition sortedDirties :: "('k, 'e) journal \<Rightarrow> address list" where
  "sortedDirties j = sort (remdups (map fst (dirties j)))"

definition dirty_count :: "('k, 'e) journal \<Rightarrow> address \<Rightarrow> int" where
  "dirty_count j a = (case map_of (dirties j) a of None \<Rightarrow> 0 | Some n \<Rightarrow> n)"

definition journal_append :: "('k, 'e) journal_entry \<Rightarrow> ('k, 'e) journal \<Rightarrow> ('k, 'e) journal" where
  "journal_append entry j =
     (let j' = j\<lparr>jEntries := jEntries j @ [entry]\<rparr> in
      case Dirtied entry of
        None \<Rightarrow> j'
      | Some addr \<Rightarrow> j'\<lparr>dirties := AList.update addr (dirty_count j addr + 1) (dirties j)\<rparr>)"

section \<open>The database\<close>

record TxConfig =
  BlockHash :: hash
  TxHash :: hash
  TxIndex :: "64 word"
  LogIndex :: "64 word"

definition NewTxConfig :: "hash \<Rightarrow> hash \<Rightarrow> 64 word \<Rightarrow> 64 word \<Rightarrow> TxConfig" where
  "NewTxConfig bhash thash txIndex logIndex = \<lparr>BlockHash = bhash, TxHash = thash, TxIndex = txIndex, LogIndex = logIndex\<rparr>"

definition NewEmptyTxConfig :: "hash \<Rightarrow> TxConfig" where
  "NewEmptyTxConfig bhash = \<lparr>BlockHash = bhash, TxHash = 0, TxIndex = 0, LogIndex = 0\<rparr>"

record eth_log =
  lgAddress :: address
  lgTopics :: "hash list"
  lgData :: bytes
  lgTxHash :: hash
  lgBlockHash :: hash
  lgTxIndex :: "64 word"
  lgIndex :: "64 word"

text \<open>
  The two closures \<^verbatim>\<open>writeCache\<close> can hold: the one of \<^verbatim>\<open>CacheContext\<close>, which emits the
  events of the cached context, and the one of \<open>RevertMultiStore\<close>, which emits the events it
  was given. Both write the store of the cached context.
\<close>

datatype 'e write_cache = CacheWrite | RevertWrite "'e list"

record ('k, 'e) state_db =
  hasMultiStore :: bool
  ctxStore :: 'k
  ctxEvents :: "'e list"
  cacheStore :: "'k option"
  cacheEvents :: "'e list"
  writeCache :: "'e write_cache option"
  sJournal :: "('k, 'e) journal"
  validRevisions :: "(int \<times> nat) list"
  nextRevisionID :: int
  stateObjects :: "address \<rightharpoonup> state_object"
  txConfig :: TxConfig
  refund :: "64 word"
  sLogs :: "eth_log list"
  accessList :: access_list
  precompileCallsCounter :: "8 word"

definition New :: "bool \<Rightarrow> 'k \<Rightarrow> 'e list \<Rightarrow> TxConfig \<Rightarrow> ('k, 'e) state_db" where
  "New multiStore ctx events config =
     \<lparr>hasMultiStore = multiStore, ctxStore = ctx, ctxEvents = events, cacheStore = None, cacheEvents = [], writeCache = None,
      sJournal = newJournal, validRevisions = [], nextRevisionID = 0, stateObjects = (\<lambda>_. None), txConfig = config,
      refund = 0, sLogs = [], accessList = newAccessList, precompileCallsCounter = 0\<rparr>"

definition s_append :: "('k, 'e) journal_entry \<Rightarrow> ('k, 'e) state_db \<Rightarrow> ('k, 'e) state_db" where
  "s_append e s = s\<lparr>sJournal := journal_append e (sJournal s)\<rparr>"

definition cache :: "('k, 'e) state_db \<Rightarrow> ('k, 'e) state_db result" where
  "cache s =
     (if \<not> hasMultiStore s then Inl (Errorf ''ctx has no multi store'')
      else Inr (s\<lparr>cacheStore := Some (ctxStore s), cacheEvents := [], writeCache := Some CacheWrite\<rparr>))"

definition GetCacheContext :: "('k, 'e) state_db \<Rightarrow> ('k, 'e) state_db result" where
  "GetCacheContext s = (if writeCache s = None then cache s else Inr s)"

definition MultiStoreSnapshot :: "('k, 'e) state_db \<Rightarrow> (('k, 'e) state_db \<times> 'k) result" where
  "MultiStoreSnapshot s =
     (case (if writeCache s = None then cache s else Inr s) of
        Inl _ \<Rightarrow> if hasMultiStore s then Inr (s, ctxStore s) else Inl (Panic ''nil pointer dereference'')
      | Inr s1 \<Rightarrow> (case cacheStore s1 of None \<Rightarrow> Inl (Panic ''nil pointer dereference'') | Some c \<Rightarrow> Inr (s1, c)))"

definition AddLog :: "('k, 'e) state_db \<Rightarrow> eth_log \<Rightarrow> ('k, 'e) state_db" where
  "AddLog s log =
     (let s1 = s_append addLogChange s;
          log' = log\<lparr>lgTxHash := TxHash (txConfig s), lgBlockHash := BlockHash (txConfig s), lgTxIndex := TxIndex (txConfig s),
                     lgIndex := LogIndex (txConfig s) + of_nat (length (sLogs s))\<rparr>
      in s1\<lparr>sLogs := sLogs s @ [log']\<rparr>)"

definition AddRefund :: "('k, 'e) state_db \<Rightarrow> 64 word \<Rightarrow> ('k, 'e) state_db" where
  "AddRefund s gas = (s_append (refundChange (refund s)) s)\<lparr>refund := refund s + gas\<rparr>"

definition SubRefund :: "('k, 'e) state_db \<Rightarrow> 64 word \<Rightarrow> ('k, 'e) state_db result" where
  "SubRefund s gas =
     (let s1 = s_append (refundChange (refund s)) s in
      if gas > refund s then Inl (Panic ''Refund counter below zero'')
      else Inr (s1\<lparr>refund := refund s - gas\<rparr>))"

definition setStateObject :: "('k, 'e) state_db \<Rightarrow> state_object \<Rightarrow> ('k, 'e) state_db" where
  "setStateObject s object = s\<lparr>stateObjects := (stateObjects s)(soAddress object \<mapsto> object)\<rparr>"

definition getStateObject :: "'k keeper_api \<Rightarrow> ('k, 'e) state_db \<Rightarrow> address \<Rightarrow> ('k, 'e) state_db \<times> state_object option" where
  "getStateObject K s addr =
     (case stateObjects s addr of
        Some obj \<Rightarrow> (s, Some obj)
      | None \<Rightarrow>
          (case kGetAccount K (ctxStore s) addr of
             None \<Rightarrow> (s, None)
           | Some account \<Rightarrow> (let obj = newObject K addr account in (setStateObject s obj, Some obj))))"

definition createObject :: "'k keeper_api \<Rightarrow> ('k, 'e) state_db \<Rightarrow> address \<Rightarrow>
    ('k, 'e) state_db \<times> state_object \<times> state_object option" where
  "createObject K s addr =
     (let (s1, prev) = getStateObject K s addr;
          newobj = newObject K addr \<lparr>rNonce = 0, rBalance = None, rCodeHash = None\<rparr>;
          s2 = s_append (case prev of None \<Rightarrow> createObjectChange addr | Some p \<Rightarrow> resetObjectChange p) s1
      in (setStateObject s2 newobj, newobj, prev))"

definition getOrNewStateObject :: "'k keeper_api \<Rightarrow> ('k, 'e) state_db \<Rightarrow> address \<Rightarrow> ('k, 'e) state_db \<times> state_object" where
  "getOrNewStateObject K s addr =
     (case getStateObject K s addr of
        (s1, Some obj) \<Rightarrow> (s1, obj)
      | (s1, None) \<Rightarrow> (case createObject K s1 addr of (s2, obj, _) \<Rightarrow> (s2, obj)))"

section \<open>Operations on one object\<close>

definition setBalance :: "state_object \<Rightarrow> int \<Rightarrow> state_object" where
  "setBalance so amount = so\<lparr>soAccount := (soAccount so)\<lparr>aBalance := amount\<rparr>\<rparr>"

definition setNonce :: "state_object \<Rightarrow> 64 word \<Rightarrow> state_object" where
  "setNonce so nonce = so\<lparr>soAccount := (soAccount so)\<lparr>aNonce := nonce\<rparr>\<rparr>"

definition setCode :: "state_object \<Rightarrow> hash \<Rightarrow> bytes option \<Rightarrow> state_object" where
  "setCode so codeHash code = so\<lparr>soCode := code, soAccount := (soAccount so)\<lparr>aCodeHash := codeHash\<rparr>, dirtyCode := True\<rparr>"

definition setState :: "state_object \<Rightarrow> hash \<Rightarrow> hash \<Rightarrow> state_object" where
  "setState so key value = so\<lparr>dirtyStorage := AList.update key value (dirtyStorage so)\<rparr>"

definition so_SetBalance :: "('k, 'e) state_db \<Rightarrow> state_object \<Rightarrow> int \<Rightarrow> ('k, 'e) state_db" where
  "so_SetBalance s so amount =
     setStateObject (s_append (balanceChange (soAddress so) (aBalance (soAccount so))) s) (setBalance so amount)"

definition so_AddBalance :: "('k, 'e) state_db \<Rightarrow> state_object \<Rightarrow> int \<Rightarrow> ('k, 'e) state_db" where
  "so_AddBalance s so amount = (if amount = 0 then s else so_SetBalance s so (aBalance (soAccount so) + amount))"

definition so_SubBalance :: "('k, 'e) state_db \<Rightarrow> state_object \<Rightarrow> int \<Rightarrow> ('k, 'e) state_db" where
  "so_SubBalance s so amount = (if amount = 0 then s else so_SetBalance s so (aBalance (soAccount so) - amount))"

text \<open>\<^verbatim>\<open>Code\<close> caches what it loads; the object with the cache comes back with the code.\<close>

definition so_Code :: "'k keeper_api \<Rightarrow> 'k \<Rightarrow> state_object \<Rightarrow> state_object \<times> bytes option" where
  "so_Code K ctx so =
     (if soCode so \<noteq> None then (so, soCode so)
      else if aCodeHash (soAccount so) = emptyHash K then (so, None)
      else (let code = kGetCode K ctx (aCodeHash (soAccount so)) in (so\<lparr>soCode := code\<rparr>, code)))"

definition so_SetCode :: "'k keeper_api \<Rightarrow> ('k, 'e) state_db \<Rightarrow> state_object \<Rightarrow> hash \<Rightarrow> bytes option \<Rightarrow> ('k, 'e) state_db" where
  "so_SetCode K s so codeHash code =
     (let (so1, prevcode) = so_Code K (ctxStore s) so in
      setStateObject (s_append (codeChange (soAddress so1) prevcode (aCodeHash (soAccount so1))) s) (setCode so1 codeHash code))"

definition so_SetNonce :: "('k, 'e) state_db \<Rightarrow> state_object \<Rightarrow> 64 word \<Rightarrow> ('k, 'e) state_db" where
  "so_SetNonce s so nonce =
     setStateObject (s_append (nonceChange (soAddress so) (aNonce (soAccount so))) s) (setNonce so nonce)"

definition so_GetCommittedState :: "'k keeper_api \<Rightarrow> 'k \<Rightarrow> state_object \<Rightarrow> hash \<Rightarrow> state_object \<times> hash" where
  "so_GetCommittedState K ctx so key =
     (case originStorage so key of
        Some value \<Rightarrow> (so, value)
      | None \<Rightarrow> (let value = kGetState K ctx (soAddress so) key in (so\<lparr>originStorage := (originStorage so)(key \<mapsto> value)\<rparr>, value)))"

definition so_GetState :: "'k keeper_api \<Rightarrow> 'k \<Rightarrow> state_object \<Rightarrow> hash \<Rightarrow> state_object \<times> hash" where
  "so_GetState K ctx so key =
     (case map_of (dirtyStorage so) key of
        Some value \<Rightarrow> (so, value)
      | None \<Rightarrow> so_GetCommittedState K ctx so key)"

definition so_SetState :: "'k keeper_api \<Rightarrow> ('k, 'e) state_db \<Rightarrow> state_object \<Rightarrow> hash \<Rightarrow> hash \<Rightarrow> ('k, 'e) state_db" where
  "so_SetState K s so key value =
     (let (so1, prev) = so_GetState K (ctxStore s) so key in
      if prev = value then setStateObject s so1
      else setStateObject (s_append (storageChange (soAddress so1) key prev) s) (setState so1 key value))"

section \<open>Reading the database\<close>

definition Exist :: "'k keeper_api \<Rightarrow> ('k, 'e) state_db \<Rightarrow> address \<Rightarrow> ('k, 'e) state_db \<times> bool" where
  "Exist K s addr = (case getStateObject K s addr of (s1, so) \<Rightarrow> (s1, so \<noteq> None))"

definition Empty :: "'k keeper_api \<Rightarrow> ('k, 'e) state_db \<Rightarrow> address \<Rightarrow> ('k, 'e) state_db \<times> bool" where
  "Empty K s addr = (case getStateObject K s addr of (s1, None) \<Rightarrow> (s1, True) | (s1, Some so) \<Rightarrow> (s1, so_empty K so))"

definition GetBalance :: "'k keeper_api \<Rightarrow> ('k, 'e) state_db \<Rightarrow> address \<Rightarrow> ('k, 'e) state_db \<times> int" where
  "GetBalance K s addr = (case getStateObject K s addr of (s1, Some so) \<Rightarrow> (s1, aBalance (soAccount so)) | (s1, None) \<Rightarrow> (s1, 0))"

definition GetNonce :: "'k keeper_api \<Rightarrow> ('k, 'e) state_db \<Rightarrow> address \<Rightarrow> ('k, 'e) state_db \<times> 64 word" where
  "GetNonce K s addr = (case getStateObject K s addr of (s1, Some so) \<Rightarrow> (s1, aNonce (soAccount so)) | (s1, None) \<Rightarrow> (s1, 0))"

definition GetCode :: "'k keeper_api \<Rightarrow> ('k, 'e) state_db \<Rightarrow> address \<Rightarrow> ('k, 'e) state_db \<times> bytes option" where
  "GetCode K s addr =
     (case getStateObject K s addr of
        (s1, Some so) \<Rightarrow> (case so_Code K (ctxStore s1) so of (so1, code) \<Rightarrow> (setStateObject s1 so1, code))
      | (s1, None) \<Rightarrow> (s1, None))"

definition GetCodeSize :: "'k keeper_api \<Rightarrow> ('k, 'e) state_db \<Rightarrow> address \<Rightarrow> ('k, 'e) state_db \<times> nat" where
  "GetCodeSize K s addr =
     (case getStateObject K s addr of
        (s1, Some so) \<Rightarrow> (case so_Code K (ctxStore s1) so of (so1, code) \<Rightarrow>
           (setStateObject s1 so1, case code of None \<Rightarrow> 0 | Some c \<Rightarrow> length c))
      | (s1, None) \<Rightarrow> (s1, 0))"

definition GetCodeHash :: "'k keeper_api \<Rightarrow> ('k, 'e) state_db \<Rightarrow> address \<Rightarrow> ('k, 'e) state_db \<times> hash" where
  "GetCodeHash K s addr = (case getStateObject K s addr of (s1, None) \<Rightarrow> (s1, 0) | (s1, Some so) \<Rightarrow> (s1, aCodeHash (soAccount so)))"

definition GetState :: "'k keeper_api \<Rightarrow> ('k, 'e) state_db \<Rightarrow> address \<Rightarrow> hash \<Rightarrow> ('k, 'e) state_db \<times> hash" where
  "GetState K s addr hash =
     (case getStateObject K s addr of
        (s1, Some so) \<Rightarrow> (case so_GetState K (ctxStore s1) so hash of (so1, v) \<Rightarrow> (setStateObject s1 so1, v))
      | (s1, None) \<Rightarrow> (s1, 0))"

definition GetCommittedState :: "'k keeper_api \<Rightarrow> ('k, 'e) state_db \<Rightarrow> address \<Rightarrow> hash \<Rightarrow> ('k, 'e) state_db \<times> hash" where
  "GetCommittedState K s addr hash =
     (case getStateObject K s addr of
        (s1, Some so) \<Rightarrow> (case so_GetCommittedState K (ctxStore s1) so hash of (so1, v) \<Rightarrow> (setStateObject s1 so1, v))
      | (s1, None) \<Rightarrow> (s1, 0))"

definition GetRefund :: "('k, 'e) state_db \<Rightarrow> 64 word" where
  "GetRefund s = refund s"

definition HasSuicided :: "'k keeper_api \<Rightarrow> ('k, 'e) state_db \<Rightarrow> address \<Rightarrow> ('k, 'e) state_db \<times> bool" where
  "HasSuicided K s addr = (case getStateObject K s addr of (s1, Some so) \<Rightarrow> (s1, suicided so) | (s1, None) \<Rightarrow> (s1, False))"

text \<open>
  The iteration over a contract's stored slots: the callback returns the new accumulator and
  whether to go on. A Go hash is an array, so its length is never zero.
\<close>

fun storage_loop :: "(hash \<times> hash) list \<Rightarrow> (hash \<Rightarrow> hash \<Rightarrow> 'a \<Rightarrow> 'a \<times> bool) \<Rightarrow> (hash \<times> hash) list \<Rightarrow> 'a \<Rightarrow> 'a" where
  "storage_loop dirty cb [] acc = acc"
| "storage_loop dirty cb ((key, value) # rest) acc =
     (case cb key (case map_of dirty key of Some v \<Rightarrow> v | None \<Rightarrow> value) acc of
        (acc', goOn) \<Rightarrow> if goOn then storage_loop dirty cb rest acc' else acc')"

definition ForEachStorage :: "'k keeper_api \<Rightarrow> ('k, 'e) state_db \<Rightarrow> address \<Rightarrow> (hash \<Rightarrow> hash \<Rightarrow> 'a \<Rightarrow> 'a \<times> bool) \<Rightarrow> 'a \<Rightarrow>
    ('k, 'e) state_db \<times> 'a" where
  "ForEachStorage K s addr cb acc =
     (case getStateObject K s addr of
        (s1, None) \<Rightarrow> (s1, acc)
      | (s1, Some so) \<Rightarrow> (s1, storage_loop (dirtyStorage so) cb (kStorage K (ctxStore s1) addr) acc))"

section \<open>Changing the database\<close>

definition CreateAccount :: "'k keeper_api \<Rightarrow> ('k, 'e) state_db \<Rightarrow> address \<Rightarrow> ('k, 'e) state_db" where
  "CreateAccount K s addr =
     (case createObject K s addr of
        (s1, newObj, Some prev) \<Rightarrow> setStateObject s1 (setBalance newObj (aBalance (soAccount prev)))
      | (s1, newObj, None) \<Rightarrow> s1)"

definition AddBalance :: "'k keeper_api \<Rightarrow> ('k, 'e) state_db \<Rightarrow> address \<Rightarrow> int \<Rightarrow> ('k, 'e) state_db" where
  "AddBalance K s addr amount = (case getOrNewStateObject K s addr of (s1, so) \<Rightarrow> so_AddBalance s1 so amount)"

definition SubBalance :: "'k keeper_api \<Rightarrow> ('k, 'e) state_db \<Rightarrow> address \<Rightarrow> int \<Rightarrow> ('k, 'e) state_db" where
  "SubBalance K s addr amount = (case getOrNewStateObject K s addr of (s1, so) \<Rightarrow> so_SubBalance s1 so amount)"

definition SetNonce :: "'k keeper_api \<Rightarrow> ('k, 'e) state_db \<Rightarrow> address \<Rightarrow> 64 word \<Rightarrow> ('k, 'e) state_db" where
  "SetNonce K s addr nonce = (case getOrNewStateObject K s addr of (s1, so) \<Rightarrow> so_SetNonce s1 so nonce)"

definition SetCode :: "'k keeper_api \<Rightarrow> ('k, 'e) state_db \<Rightarrow> address \<Rightarrow> bytes option \<Rightarrow> ('k, 'e) state_db" where
  "SetCode K s addr code =
     (case getOrNewStateObject K s addr of (s1, so) \<Rightarrow>
        so_SetCode K s1 so (kKeccak256 K (case code of None \<Rightarrow> [] | Some c \<Rightarrow> c)) code)"

definition SetState :: "'k keeper_api \<Rightarrow> ('k, 'e) state_db \<Rightarrow> address \<Rightarrow> hash \<Rightarrow> hash \<Rightarrow> ('k, 'e) state_db" where
  "SetState K s addr key value = (case getOrNewStateObject K s addr of (s1, so) \<Rightarrow> so_SetState K s1 so key value)"

definition Suicide :: "'k keeper_api \<Rightarrow> ('k, 'e) state_db \<Rightarrow> address \<Rightarrow> ('k, 'e) state_db \<times> bool" where
  "Suicide K s addr =
     (case getStateObject K s addr of
        (s1, None) \<Rightarrow> (s1, False)
      | (s1, Some so) \<Rightarrow>
          (setStateObject (s_append (suicideChange addr (suicided so) (aBalance (soAccount so))) s1)
             (setBalance (so\<lparr>suicided := True\<rparr>) 0), True))"

definition AddAddressToAccessList :: "('k, 'e) state_db \<Rightarrow> address \<Rightarrow> ('k, 'e) state_db" where
  "AddAddressToAccessList s addr =
     (case AddAddress (accessList s) addr of (al, changed) \<Rightarrow>
        let s1 = s\<lparr>accessList := al\<rparr> in if changed then s_append (accessListAddAccountChange addr) s1 else s1)"

definition AddSlotToAccessList :: "('k, 'e) state_db \<Rightarrow> address \<Rightarrow> hash \<Rightarrow> ('k, 'e) state_db result" where
  "AddSlotToAccessList s addr slot =
     bind_r (AddSlot (accessList s) addr slot) (\<lambda>(al, addrMod, slotMod).
     let s1 = s\<lparr>accessList := al\<rparr>;
         s2 = (if addrMod then s_append (accessListAddAccountChange addr) s1 else s1)
     in Inr (if slotMod then s_append (accessListAddSlotChange addr slot) s2 else s2))"

fun add_slots :: "('k, 'e) state_db \<Rightarrow> address \<Rightarrow> hash list \<Rightarrow> ('k, 'e) state_db result" where
  "add_slots s addr [] = Inr s"
| "add_slots s addr (key # keys) = bind_r (AddSlotToAccessList s addr key) (\<lambda>s1. add_slots s1 addr keys)"

fun add_tuples :: "('k, 'e) state_db \<Rightarrow> (address \<times> hash list) list \<Rightarrow> ('k, 'e) state_db result" where
  "add_tuples s [] = Inr s"
| "add_tuples s ((addr, keys) # els) =
     bind_r (add_slots (AddAddressToAccessList s addr) addr keys) (\<lambda>s1. add_tuples s1 els)"

definition PrepareAccessList :: "('k, 'e) state_db \<Rightarrow> address \<Rightarrow> address option \<Rightarrow> address list \<Rightarrow> (address \<times> hash list) list \<Rightarrow>
    ('k, 'e) state_db result" where
  "PrepareAccessList s sender dst precompiles list =
     (let s1 = AddAddressToAccessList s sender;
          s2 = (case dst of None \<Rightarrow> s1 | Some d \<Rightarrow> AddAddressToAccessList s1 d);
          s3 = foldl AddAddressToAccessList s2 precompiles
      in add_tuples s3 list)"

definition AddressInAccessList :: "('k, 'e) state_db \<Rightarrow> address \<Rightarrow> bool" where
  "AddressInAccessList s addr = ContainsAddress (accessList s) addr"

definition SlotInAccessList :: "('k, 'e) state_db \<Rightarrow> address \<Rightarrow> hash \<Rightarrow> (bool \<times> bool) result" where
  "SlotInAccessList s addr slot = Contains (accessList s) addr slot"

definition MaxPrecompileCalls :: "8 word" where
  "MaxPrecompileCalls = 7"

definition AddPrecompileFn :: "'k keeper_api \<Rightarrow> ('k, 'e) state_db \<Rightarrow> address \<Rightarrow> 'k \<Rightarrow> 'e list \<Rightarrow>
    ('k, 'e) state_db \<times> err option" where
  "AddPrecompileFn K s addr cms events =
     (case getOrNewStateObject K s addr of (s1, so) \<Rightarrow>
        let s2 = s_append (precompileCallChange cms events) s1;
            s3 = s2\<lparr>precompileCallsCounter := precompileCallsCounter s2 + 1\<rparr>
        in (s3, if precompileCallsCounter s3 > MaxPrecompileCalls then Some (Errorf ''max calls to precompiles reached'') else None))"

definition RevertMultiStore :: "('k, 'e) state_db \<Rightarrow> 'k \<Rightarrow> 'e list \<Rightarrow> ('k, 'e) state_db" where
  "RevertMultiStore s cms events = s\<lparr>cacheStore := Some cms, writeCache := Some (RevertWrite events)\<rparr>"

section \<open>Snapshots\<close>

text \<open>What undoing one entry does. Calling a setter on a missing object dereferences nil.\<close>

definition on_object :: "'k keeper_api \<Rightarrow> ('k, 'e) state_db \<Rightarrow> address \<Rightarrow> (state_object \<Rightarrow> state_object) \<Rightarrow> ('k, 'e) state_db result" where
  "on_object K s addr f =
     (case getStateObject K s addr of
        (s1, None) \<Rightarrow> Inl (Panic ''nil pointer dereference'')
      | (s1, Some so) \<Rightarrow> Inr (setStateObject s1 (f so)))"

fun Revert_entry :: "'k keeper_api \<Rightarrow> ('k, 'e) journal_entry \<Rightarrow> ('k, 'e) state_db \<Rightarrow> ('k, 'e) state_db result" where
  "Revert_entry K (precompileCallChange cms events) s = Inr (RevertMultiStore s cms events)"
| "Revert_entry K (createObjectChange a) s = Inr (s\<lparr>stateObjects := (stateObjects s)(a := None)\<rparr>)"
| "Revert_entry K (resetObjectChange prev) s = Inr (setStateObject s prev)"
| "Revert_entry K (suicideChange a prev prevbalance) s =
     (case getStateObject K s a of
        (s1, None) \<Rightarrow> Inr s1
      | (s1, Some so) \<Rightarrow> Inr (setStateObject s1 (setBalance (so\<lparr>suicided := prev\<rparr>) prevbalance)))"
| "Revert_entry K (balanceChange a prev) s = on_object K s a (\<lambda>so. setBalance so prev)"
| "Revert_entry K (nonceChange a prev) s = on_object K s a (\<lambda>so. setNonce so prev)"
| "Revert_entry K (codeChange a prevcode prevhash) s = on_object K s a (\<lambda>so. setCode so prevhash prevcode)"
| "Revert_entry K (storageChange a key prevalue) s = on_object K s a (\<lambda>so. setState so key prevalue)"
| "Revert_entry K (refundChange prev) s = Inr (s\<lparr>refund := prev\<rparr>)"
| "Revert_entry K addLogChange s =
     (if sLogs s = [] then Inl (Panic ''slice bounds out of range'') else Inr (s\<lparr>sLogs := butlast (sLogs s)\<rparr>))"
| "Revert_entry K (accessListAddAccountChange a) s = Inr (s\<lparr>accessList := DeleteAddress (accessList s) a\<rparr>)"
| "Revert_entry K (accessListAddSlotChange a slot) s =
     bind_r (DeleteSlot (accessList s) a slot) (\<lambda>al. Inr (s\<lparr>accessList := al\<rparr>))"

definition undirty :: "('k, 'e) journal_entry \<Rightarrow> ('k, 'e) journal \<Rightarrow> ('k, 'e) journal" where
  "undirty entry j =
     (case Dirtied entry of
        None \<Rightarrow> j
      | Some addr \<Rightarrow>
          (let n = dirty_count j addr - 1 in
           j\<lparr>dirties := (if n = 0 then AList.delete addr (dirties j) else AList.update addr n (dirties j))\<rparr>))"

text \<open>The loop of the journal's \<^verbatim>\<open>Revert\<close>, over the entries to undo, latest first.\<close>

fun revert_loop :: "'k keeper_api \<Rightarrow> ('k, 'e) journal_entry list \<Rightarrow> ('k, 'e) state_db \<Rightarrow> ('k, 'e) state_db result" where
  "revert_loop K [] s = Inr s"
| "revert_loop K (entry # earlier) s =
     bind_r (Revert_entry K entry s) (\<lambda>s1. revert_loop K earlier (s1\<lparr>sJournal := undirty entry (sJournal s1)\<rparr>))"

definition journal_Revert :: "'k keeper_api \<Rightarrow> ('k, 'e) state_db \<Rightarrow> nat \<Rightarrow> ('k, 'e) state_db result" where
  "journal_Revert K s snapshot =
     bind_r (revert_loop K (rev (drop snapshot (jEntries (sJournal s)))) s) (\<lambda>s1.
     if snapshot > length (jEntries (sJournal s1)) then Inl (Panic ''slice bounds out of range'')
     else Inr (s1\<lparr>sJournal := (sJournal s1)\<lparr>jEntries := take snapshot (jEntries (sJournal s1))\<rparr>\<rparr>))"

definition Snapshot :: "('k, 'e) state_db \<Rightarrow> ('k, 'e) state_db \<times> int" where
  "Snapshot s =
     (let id = nextRevisionID s in
      (s\<lparr>nextRevisionID := id + 1, validRevisions := validRevisions s @ [(id, length (jEntries (sJournal s)))]\<rparr>, id))"

text \<open>Go's \<^verbatim>\<open>sort.Search\<close>: the binary search for the first index that satisfies the predicate.\<close>

function sort_Search_loop :: "(nat \<Rightarrow> bool) \<Rightarrow> nat \<Rightarrow> nat \<Rightarrow> nat" where
  "sort_Search_loop f i j =
     (if i < j then (let h = (i + j) div 2 in if \<not> f h then sort_Search_loop f (h + 1) j else sort_Search_loop f i h) else i)"
  by pat_completeness auto
termination
  by (relation "measure (\<lambda>(f, i, j). j - i)") auto

declare sort_Search_loop.simps [simp del]

definition sort_Search :: "nat \<Rightarrow> (nat \<Rightarrow> bool) \<Rightarrow> nat" where
  "sort_Search n f = sort_Search_loop f 0 n"

definition RevertToSnapshot :: "'k keeper_api \<Rightarrow> ('k, 'e) state_db \<Rightarrow> int \<Rightarrow> ('k, 'e) state_db result" where
  "RevertToSnapshot K s revid =
     (let idx = sort_Search (length (validRevisions s)) (\<lambda>i. fst (validRevisions s ! i) \<ge> revid) in
      if idx = length (validRevisions s) \<or> fst (validRevisions s ! idx) \<noteq> revid
      then Inl (Panic ''revision id cannot be reverted'')
      else
       bind_r (journal_Revert K s (snd (validRevisions s ! idx))) (\<lambda>s1.
       Inr (s1\<lparr>validRevisions := take idx (validRevisions s1)\<rparr>)))"

section \<open>Committing\<close>

definition commit_object :: "'k keeper_api \<Rightarrow> 'k \<Rightarrow> state_object \<Rightarrow> 'k result" where
  "commit_object K ctx obj =
     (if suicided obj then kDeleteAccount K ctx (soAddress obj)
      else
       (let ctx1 = (case soCode obj of
                      Some code \<Rightarrow> if dirtyCode obj then kSetCode K ctx (aCodeHash (soAccount obj)) code else ctx
                    | None \<Rightarrow> ctx) in
        bind_r (kSetAccount K ctx1 (soAddress obj) (soAccount obj)) (\<lambda>ctx2.
        Inr (foldl (\<lambda>c key. kSetState K c (soAddress obj) key (the (map_of (dirtyStorage obj) key))) ctx2
               (SortedKeys (dirtyStorage obj))))))"

fun commit_loop :: "'k keeper_api \<Rightarrow> (address \<rightharpoonup> state_object) \<Rightarrow> address list \<Rightarrow> 'k \<Rightarrow> 'k result" where
  "commit_loop K objs [] ctx = Inr ctx"
| "commit_loop K objs (addr # addrs) ctx =
     (case objs addr of
        None \<Rightarrow> Inl (Panic ''nil pointer dereference'')
      | Some obj \<Rightarrow> bind_r (commit_object K ctx obj) (commit_loop K objs addrs))"

definition commitWithCtx :: "'k keeper_api \<Rightarrow> ('k, 'e) state_db \<Rightarrow> 'k \<Rightarrow> 'k result" where
  "commitWithCtx K s ctx = commit_loop K (stateObjects s) (sortedDirties (sJournal s)) ctx"

definition Commit :: "'k keeper_api \<Rightarrow> ('k, 'e) state_db \<Rightarrow> ('k, 'e) state_db result" where
  "Commit K s =
     bind_r (case writeCache s of
               None \<Rightarrow> Inr s
             | Some w \<Rightarrow>
                 (case cacheStore s of
                    None \<Rightarrow> Inl (Panic ''nil pointer dereference'')
                  | Some c \<Rightarrow> Inr (s\<lparr>ctxEvents := ctxEvents s @ (case w of CacheWrite \<Rightarrow> cacheEvents s | RevertWrite es \<Rightarrow> es),
                                    ctxStore := cmsWrite K c (ctxStore s)\<rparr>))) (\<lambda>s1.
     bind_r (commitWithCtx K s1 (ctxStore s1)) (\<lambda>ctx. Inr (s1\<lparr>ctxStore := ctx\<rparr>)))"

definition CommitWithCacheCtx :: "'k keeper_api \<Rightarrow> ('k, 'e) state_db \<Rightarrow> ('k, 'e) state_db result" where
  "CommitWithCacheCtx K s =
     (case cacheStore s of
        None \<Rightarrow> if sortedDirties (sJournal s) = [] then Inr s else Inl (Panic ''nil pointer dereference'')
      | Some c \<Rightarrow> bind_r (commitWithCtx K s c) (\<lambda>c'. Inr (s\<lparr>cacheStore := Some c'\<rparr>)))"

end
