(* ===== verification/StateDBSpec.thy ===== *)
theory StateDBSpec
  imports StateDB
begin

text \<open>
  The specification of the journalled database and the proof that it is met. What the EVM
  can observe of a database is its \<open>view\<close>, a world of accounts without caches and journal;
  every setter has a specification on worlds. \<open>records\<close> says that an operation appends journal
  entries whose undoing gives back the old view, and \<open>Revert_entry_ok\<close> that the code's undoing
  is the one of the specification.
\<close>

section \<open>What can be observed\<close>

record acct_view =
  vNonce :: "64 word"
  vBalance :: int
  vCodeHash :: hash
  vCode :: "bytes option"
  vSuicided :: bool
  vState :: "hash \<Rightarrow> hash"
  vCommitted :: "hash \<Rightarrow> hash"

record 'k world =
  wAcc :: "address \<Rightarrow> acct_view option"
  wRefund :: "64 word"
  wLogs :: "eth_log list"
  wAccess :: access_list
  wCache :: 'k

definition obj_view :: "'k keeper_api \<Rightarrow> 'k \<Rightarrow> state_object \<Rightarrow> acct_view" where
  "obj_view K ctx so = \<lparr>vNonce = aNonce (soAccount so), vBalance = aBalance (soAccount so), vCodeHash = aCodeHash (soAccount so),
     vCode = snd (so_Code K ctx so), vSuicided = suicided so,
     vState = (\<lambda>key. snd (so_GetState K ctx so key)), vCommitted = (\<lambda>key. snd (so_GetCommittedState K ctx so key))\<rparr>"

definition view :: "'k keeper_api \<Rightarrow> ('k, 'e) state_db \<Rightarrow> 'k world" where
  "view K s = \<lparr>wAcc = (\<lambda>a. case stateObjects s a of
       Some so \<Rightarrow> Some (obj_view K (ctxStore s) so)
     | None \<Rightarrow> map_option (\<lambda>r. obj_view K (ctxStore s) (newObject K a r)) (kGetAccount K (ctxStore s) a)),
     wRefund = refund s, wLogs = sLogs s, wAccess = accessList s,
     wCache = (case writeCache s of None \<Rightarrow> ctxStore s | Some _ \<Rightarrow> (case cacheStore s of None \<Rightarrow> ctxStore s | Some c \<Rightarrow> c))\<rparr>"

text \<open>Undoing a journal entry, on the world.\<close>

definition w_change :: "'k world \<Rightarrow> address \<Rightarrow> (acct_view \<Rightarrow> acct_view) \<Rightarrow> 'k world option" where
  "w_change w a f = (case wAcc w a of None \<Rightarrow> None | Some v \<Rightarrow> Some (w\<lparr>wAcc := (wAcc w)(a \<mapsto> f v)\<rparr>))"

fun undo_view :: "'k keeper_api \<Rightarrow> 'k \<Rightarrow> ('k, 'e) journal_entry \<Rightarrow> 'k world \<Rightarrow> 'k world option" where
  "undo_view K ctx (precompileCallChange cms events) w = Some (w\<lparr>wCache := cms\<rparr>)"
| "undo_view K ctx (createObjectChange a) w = Some (w\<lparr>wAcc := (wAcc w)(a := None)\<rparr>)"
| "undo_view K ctx (resetObjectChange prev) w = Some (w\<lparr>wAcc := (wAcc w)(soAddress prev \<mapsto> obj_view K ctx prev)\<rparr>)"
| "undo_view K ctx (suicideChange a prev b) w = w_change w a (\<lambda>v. v\<lparr>vSuicided := prev, vBalance := b\<rparr>)"
| "undo_view K ctx (balanceChange a b) w = w_change w a (\<lambda>v. v\<lparr>vBalance := b\<rparr>)"
| "undo_view K ctx (nonceChange a n) w = w_change w a (\<lambda>v. v\<lparr>vNonce := n\<rparr>)"
| "undo_view K ctx (codeChange a c h) w = w_change w a (\<lambda>v. v\<lparr>vCode := c, vCodeHash := h\<rparr>)"
| "undo_view K ctx (storageChange a key x) w = w_change w a (\<lambda>v. v\<lparr>vState := (vState v)(key := x)\<rparr>)"
| "undo_view K ctx (refundChange r) w = Some (w\<lparr>wRefund := r\<rparr>)"
| "undo_view K ctx addLogChange w = (if wLogs w = [] then None else Some (w\<lparr>wLogs := butlast (wLogs w)\<rparr>))"
| "undo_view K ctx (accessListAddAccountChange a) w = Some (w\<lparr>wAccess := DeleteAddress (wAccess w) a\<rparr>)"
| "undo_view K ctx (accessListAddSlotChange a x) w =
     (case DeleteSlot (wAccess w) a x of Inl _ \<Rightarrow> None | Inr al \<Rightarrow> Some (w\<lparr>wAccess := al\<rparr>))"

fun undo_all :: "'k keeper_api \<Rightarrow> 'k \<Rightarrow> ('k, 'e) journal_entry list \<Rightarrow> 'k world \<Rightarrow> 'k world option" where
  "undo_all K ctx [] w = Some w"
| "undo_all K ctx (e # es) w = Option.bind (undo_all K ctx es w) (undo_view K ctx e)"

lemma undo_all_append: "undo_all K ctx (xs @ ys) w = Option.bind (undo_all K ctx ys w) (undo_all K ctx xs)"
  by (induction xs; cases "undo_all K ctx ys w") auto

section \<open>The invariant of the database\<close>

text \<open>
  A recorded creation is of an account the keeper does not have; a recorded code is the one
  its hash denotes when it is nil.
\<close>

fun entry_ok :: "'k keeper_api \<Rightarrow> 'k \<Rightarrow> ('k, 'e) journal_entry \<Rightarrow> bool" where
  "entry_ok K ctx (createObjectChange a) = (kGetAccount K ctx a = None)"
| "entry_ok K ctx (codeChange a c h) = (c = None \<longrightarrow> h = emptyHash K \<or> kGetCode K ctx h = None)"
| "entry_ok K ctx _ = True"

definition dirt :: "address \<Rightarrow> ('k, 'e) journal_entry list \<Rightarrow> nat" where
  "dirt a es = length (filter (\<lambda>e. Dirtied e = Some a) es)"

fun fresh_creates :: "('k, 'e) journal_entry list \<Rightarrow> bool" where
  "fresh_creates [] = True"
| "fresh_creates (e # later) = ((\<forall>a. Dirtied e = Some a \<longrightarrow> createObjectChange a \<notin> set later) \<and> fresh_creates later)"

definition inv_es :: "'k keeper_api \<Rightarrow> ('k, 'e) state_db \<Rightarrow> ('k, 'e) journal_entry list \<Rightarrow> bool" where
  "inv_es K s es \<longleftrightarrow> (\<forall>a so. stateObjects s a = Some so \<longrightarrow> soAddress so = a) \<and>
     list_all (entry_ok K (ctxStore s)) es \<and> fresh_creates es \<and>
     (\<forall>e\<in>set es. \<forall>a. Dirtied e = Some a \<longrightarrow> stateObjects s a \<noteq> None) \<and>
     (\<forall>a. map_of (dirties (sJournal s)) a = (if dirt a es = 0 then None else Some (int (dirt a es))))"

definition sdb_ok :: "'k keeper_api \<Rightarrow> ('k, 'e) state_db \<Rightarrow> bool" where
  "sdb_ok K s \<longleftrightarrow> inv_es K s (jEntries (sJournal s)) \<and> al_ok (accessList s)"

lemma dirt_append [simp]: "dirt a (xs @ ys) = dirt a xs + dirt a ys" "dirt a [] = 0"
  "dirt a [e] = (if Dirtied e = Some a then 1 else 0)"
  by (simp_all add: dirt_def)

lemma fresh_creates_snoc:
  "fresh_creates (es @ [e]) \<longleftrightarrow> fresh_creates es \<and> (\<forall>a. e = createObjectChange a \<longrightarrow> dirt a es = 0)"
  by (induction es) (auto simp: dirt_def)

lemma fresh_creates_prefix: "fresh_creates (xs @ ys) \<Longrightarrow> fresh_creates xs"
  by (induction xs) auto

lemma New_ok: "sdb_ok K (New m ctx evs cfg)"
  by (simp add: sdb_ok_def inv_es_def New_def newJournal_def)

section \<open>Lookups and updates on the view\<close>

lemma journal_frame [simp]:
  "stateObjects (s_append e s) = stateObjects s" "ctxStore (s_append e s) = ctxStore s" "refund (s_append e s) = refund s"
  "sLogs (s_append e s) = sLogs s" "accessList (s_append e s) = accessList s" "writeCache (s_append e s) = writeCache s"
  "cacheStore (s_append e s) = cacheStore s" "validRevisions (s_append e s) = validRevisions s"
  "nextRevisionID (s_append e s) = nextRevisionID s" "txConfig (s_append e s) = txConfig s" "hasMultiStore (s_append e s) = hasMultiStore s"
  "jEntries (sJournal (s_append e s)) = jEntries (sJournal s) @ [e]"
  by (simp_all add: s_append_def journal_append_def Let_def split: option.splits)

lemma put_frame [simp]:
  "ctxStore (setStateObject s so) = ctxStore s" "refund (setStateObject s so) = refund s" "sLogs (setStateObject s so) = sLogs s"
  "accessList (setStateObject s so) = accessList s" "writeCache (setStateObject s so) = writeCache s"
  "cacheStore (setStateObject s so) = cacheStore s" "validRevisions (setStateObject s so) = validRevisions s"
  "nextRevisionID (setStateObject s so) = nextRevisionID s" "txConfig (setStateObject s so) = txConfig s"
  "hasMultiStore (setStateObject s so) = hasMultiStore s" "sJournal (setStateObject s so) = sJournal s"
  "stateObjects (setStateObject s so) = (stateObjects s)(soAddress so \<mapsto> so)"
  by (simp_all add: setStateObject_def)

lemma view_append [simp]: "view K (s_append e s) = view K s"
  by (auto simp: view_def split: option.split)

lemma view_put: "view K (setStateObject s so) = (view K s)\<lparr>wAcc := (wAcc (view K s))(soAddress so \<mapsto> obj_view K (ctxStore s) so)\<rparr>"
  by (auto simp: view_def fun_eq_iff split: option.split)

lemma view_acc: "stateObjects s a = Some so \<Longrightarrow> wAcc (view K s) a = Some (obj_view K (ctxStore s) so)"
  by (simp add: view_def)

lemma newObject_sel [simp]: "soAddress (newObject K a r) = a" "suicided (newObject K a r) = False" "soCode (newObject K a r) = None"
  by (simp_all add: newObject_def)

text \<open>An operation that only fills caches.\<close>

definition reads :: "'k keeper_api \<Rightarrow> ('k, 'e) state_db \<Rightarrow> ('k, 'e) state_db \<Rightarrow> bool" where
  "reads K s s1 \<longleftrightarrow> (\<exists>objs. s1 = s\<lparr>stateObjects := objs\<rparr>) \<and> view K s1 = view K s \<and>
     (\<forall>a. stateObjects s a \<noteq> None \<longrightarrow> stateObjects s1 a \<noteq> None) \<and> (\<forall>a so. stateObjects s1 a = Some so \<longrightarrow> soAddress so = a)"

lemma reads_refl: "inv_es K s es \<Longrightarrow> reads K s s"
  unfolding reads_def inv_es_def by (intro conjI exI[of _ "stateObjects s"]) simp_all

lemma reads_fields:
  assumes "reads K s s1"
  shows "ctxStore s1 = ctxStore s" "sJournal s1 = sJournal s" "validRevisions s1 = validRevisions s" "nextRevisionID s1 = nextRevisionID s"
    "accessList s1 = accessList s" "view K s1 = view K s" "txConfig s1 = txConfig s" "hasMultiStore s1 = hasMultiStore s"
  using assms by (auto simp: reads_def)

lemma reads_inv: "reads K s s1 \<Longrightarrow> inv_es K s es \<Longrightarrow> inv_es K s1 es"
  unfolding inv_es_def reads_fields(1)[of K s s1] reads_fields(2)[of K s s1]
  by (simp add: reads_fields(1,2)) (simp add: reads_def)

lemma getStateObject_ok:
  assumes "inv_es K s es" "getStateObject K s a = (s1, ob)"
  shows "reads K s s1" "wAcc (view K s) a = map_option (obj_view K (ctxStore s)) ob"
    "ob = Some so \<Longrightarrow> stateObjects s1 a = Some so \<and> soAddress so = a"
    "ob = None \<Longrightarrow> s1 = s \<and> stateObjects s a = None \<and> kGetAccount K (ctxStore s) a = None"
proof -
  have "reads K s s1 \<and> wAcc (view K s) a = map_option (obj_view K (ctxStore s)) ob \<and>
    (\<forall>so. ob = Some so \<longrightarrow> stateObjects s1 a = Some so \<and> soAddress so = a) \<and>
    (ob = None \<longrightarrow> s1 = s \<and> stateObjects s a = None \<and> kGetAccount K (ctxStore s) a = None)"
  proof (cases "stateObjects s a")
    case (Some so)
    then have "s1 = s" "ob = Some so" using assms(2) by (auto simp: getStateObject_def)
    then show ?thesis using assms(1) Some reads_refl[OF assms(1)] by (simp add: view_acc inv_es_def)
  next
    case None
    show ?thesis
    proof (cases "kGetAccount K (ctxStore s) a")
      case (Some r)
      let ?o = "newObject K a r"
      have s1: "s1 = setStateObject s ?o" "ob = Some ?o" using assms(2) None Some by (auto simp: getStateObject_def Let_def)
      have va: "wAcc (view K s) a = Some (obj_view K (ctxStore s) ?o)" using None Some by (simp add: view_def)
      then have "view K s1 = view K s" by (simp add: s1 view_put fun_upd_idem)
      moreover have "\<exists>objs. s1 = s\<lparr>stateObjects := objs\<rparr>" unfolding s1 setStateObject_def by blast
      ultimately show ?thesis using va assms(1) by (auto simp: s1 reads_def inv_es_def)
    qed (use assms None in \<open>auto simp: getStateObject_def reads_refl view_def\<close>)
  qed
  then show "reads K s s1" "wAcc (view K s) a = map_option (obj_view K (ctxStore s)) ob"
    "ob = Some so \<Longrightarrow> stateObjects s1 a = Some so \<and> soAddress so = a"
    "ob = None \<Longrightarrow> s1 = s \<and> stateObjects s a = None \<and> kGetAccount K (ctxStore s) a = None" by blast+
qed

text \<open>The setters on the view of an object.\<close>

lemma obj_view_set:
  "obj_view K ctx (setBalance so b) = (obj_view K ctx so)\<lparr>vBalance := b\<rparr>"
  "obj_view K ctx (setNonce so n) = (obj_view K ctx so)\<lparr>vNonce := n\<rparr>"
  "obj_view K ctx (so\<lparr>suicided := x\<rparr>) = (obj_view K ctx so)\<lparr>vSuicided := x\<rparr>"
  "obj_view K ctx (setState so key y) = (obj_view K ctx so)\<lparr>vState := (vState (obj_view K ctx so))(key := y)\<rparr>"
  by (auto simp: obj_view_def setBalance_def setNonce_def setState_def so_Code_def so_GetState_def so_GetCommittedState_def Let_def
    fun_eq_iff update_conv' split: option.splits)

lemma obj_view_setCode:
  assumes "c = None \<longrightarrow> h = emptyHash K \<or> kGetCode K ctx h = None"
  shows "obj_view K ctx (setCode so h c) = (obj_view K ctx so)\<lparr>vCodeHash := h, vCode := c\<rparr>"
  using assms
  by (auto simp: obj_view_def setCode_def so_Code_def so_GetState_def so_GetCommittedState_def Let_def fun_eq_iff split: option.splits)

lemma obj_addr [simp]: "soAddress (setBalance so b) = soAddress so" "soAddress (setNonce so n) = soAddress so"
  "soAddress (setState so key y) = soAddress so" "soAddress (setCode so h c) = soAddress so"
  by (simp_all add: setBalance_def setNonce_def setState_def setCode_def)

lemma so_Code_ok:
  assumes "so_Code K ctx so = (so1, c)"
  shows "obj_view K ctx so1 = obj_view K ctx so" "soAddress so1 = soAddress so" "c = vCode (obj_view K ctx so)"
    "aCodeHash (soAccount so1) = vCodeHash (obj_view K ctx so)"
    "c = None \<longrightarrow> vCodeHash (obj_view K ctx so) = emptyHash K \<or> kGetCode K ctx (vCodeHash (obj_view K ctx so)) = None"
  using assms
  by (auto simp: obj_view_def so_Code_def so_GetState_def so_GetCommittedState_def Let_def fun_eq_iff split: option.splits if_splits)

lemma so_GetCommittedState_ok:
  assumes "so_GetCommittedState K ctx so key = (so1, v)"
  shows "obj_view K ctx so1 = obj_view K ctx so" "soAddress so1 = soAddress so" "v = vCommitted (obj_view K ctx so) key"
  using assms
  by (auto simp: obj_view_def so_Code_def so_GetState_def so_GetCommittedState_def Let_def fun_eq_iff split: option.splits if_splits)

lemma so_GetState_ok:
  assumes "so_GetState K ctx so key = (so1, v)"
  shows "obj_view K ctx so1 = obj_view K ctx so" "soAddress so1 = soAddress so" "v = vState (obj_view K ctx so) key"
proof -
  show "obj_view K ctx so1 = obj_view K ctx so" "soAddress so1 = soAddress so"
    using assms so_GetCommittedState_ok[of K ctx so key so1 v] by (auto simp: so_GetState_def split: option.splits)
  show "v = vState (obj_view K ctx so) key" using assms by (simp add: obj_view_def)
qed

section \<open>Recorded changes\<close>

definition records :: "'k keeper_api \<Rightarrow> ('k, 'e) state_db \<Rightarrow> ('k, 'e) state_db \<Rightarrow> bool" where
  "records K s s' \<longleftrightarrow> sdb_ok K s' \<and> ctxStore s' = ctxStore s \<and> validRevisions s' = validRevisions s \<and>
     nextRevisionID s' = nextRevisionID s \<and> txConfig s' = txConfig s \<and>
     (\<exists>new. jEntries (sJournal s') = jEntries (sJournal s) @ new \<and> undo_all K (ctxStore s) new (view K s') = Some (view K s))"

lemma records_refl: "sdb_ok K s \<Longrightarrow> records K s s"
  by (simp add: records_def)

lemma records_trans:
  assumes "records K s s1" "records K s1 s2"
  shows "records K s s2"
proof -
  obtain n1 n2 where n: "jEntries (sJournal s1) = jEntries (sJournal s) @ n1" "undo_all K (ctxStore s) n1 (view K s1) = Some (view K s)"
    "jEntries (sJournal s2) = jEntries (sJournal s1) @ n2" "undo_all K (ctxStore s1) n2 (view K s2) = Some (view K s1)"
    using assms by (auto simp: records_def)
  then show ?thesis
    using assms by (auto simp: records_def undo_all_append intro!: exI[of _ "n1 @ n2"])
qed

lemma recordsD: "records K s s' \<Longrightarrow> sdb_ok K s'" "records K s s' \<Longrightarrow> ctxStore s' = ctxStore s" "records K s s' \<Longrightarrow> txConfig s' = txConfig s"
  by (simp_all add: records_def)

lemma reads_records: "sdb_ok K s \<Longrightarrow> reads K s s1 \<Longrightarrow> records K s s1"
  using reads_fields[of K s s1] reads_inv[of K s s1] by (simp add: records_def sdb_ok_def)

lemma append_dirties:
  "map_of (dirties (journal_append e j)) a = (if Dirtied e = Some a then Some (dirty_count j a + 1) else map_of (dirties j) a)"
  by (auto simp: journal_append_def Let_def update_conv' split: option.splits)

lemma dirties_step:
  assumes "\<forall>a. map_of (dirties j) a = (if dirt a es = 0 then None else Some (int (dirt a es)))"
  shows "map_of (dirties (journal_append e j)) a = (if dirt a (es @ [e]) = 0 then None else Some (int (dirt a (es @ [e]))))"
  using assms by (auto simp: append_dirties dirty_count_def)

text \<open>An object is written together with the entry that undoes the write.\<close>

lemma put_append_inv:
  assumes inv: "inv_es K s es" and e: "entry_ok K (ctxStore s) e" "\<And>a. Dirtied e = Some a \<Longrightarrow> a = soAddress so"
    "\<And>a. e = createObjectChange a \<Longrightarrow> stateObjects s a = None"
  shows "inv_es K (setStateObject (s_append e s) so) (es @ [e])"
proof -
  have fresh: "dirt a es = 0" if "e = createObjectChange a" for a
  proof -
    have "\<forall>x\<in>set es. Dirtied x \<noteq> Some a" using inv e(3)[OF that] by (auto simp: inv_es_def)
    then show ?thesis by (simp add: dirt_def)
  qed
  have d: "map_of (dirties (sJournal (s_append e s))) a = (if dirt a (es @ [e]) = 0 then None else Some (int (dirt a (es @ [e]))))" for a
    using inv dirties_step[of "sJournal s" es e a] by (simp add: inv_es_def s_append_def)
  have live: "x \<in> set (es @ [e]) \<Longrightarrow> Dirtied x = Some a \<Longrightarrow> ((stateObjects s)(soAddress so \<mapsto> so)) a \<noteq> None" for x a
    using inv e(2) by (auto simp: inv_es_def)
  have addr: "((stateObjects s)(soAddress so \<mapsto> so)) a = Some x \<Longrightarrow> soAddress x = a" for a x
    using inv by (auto simp: inv_es_def split: if_splits)
  show ?thesis
    unfolding inv_es_def put_frame journal_frame
  proof (intro conjI allI impI ballI)
    show "list_all (entry_ok K (ctxStore s)) (es @ [e])" "fresh_creates (es @ [e])"
      using inv e(1) fresh by (simp_all add: inv_es_def fresh_creates_snoc)
  qed (use live addr d in blast)+
qed

lemma records_put:
  assumes ok: "sdb_ok K s" and e: "entry_ok K (ctxStore s) e" "\<And>a. Dirtied e = Some a \<Longrightarrow> a = soAddress so"
    "\<And>a. e = createObjectChange a \<Longrightarrow> stateObjects s a = None"
    and u: "undo_view K (ctxStore s) e (view K (setStateObject s so)) = Some (view K s)"
  shows "records K s (setStateObject (s_append e s) so)"
proof -
  have "view K (setStateObject (s_append e s) so) = view K (setStateObject s so)" by (simp add: view_put)
  moreover have "inv_es K (setStateObject (s_append e s) so) (jEntries (sJournal s) @ [e])"
    using ok by (intro put_append_inv e) (simp add: sdb_ok_def)
  ultimately show ?thesis using ok u by (simp add: records_def sdb_ok_def)
qed

text \<open>An entry that dirties no account is appended while a field outside the objects changes.\<close>

lemma records_field:
  assumes ok: "sdb_ok K s" and e: "Dirtied e = None" "entry_ok K (ctxStore s) e"
    and s': "sJournal s' = journal_append e (sJournal s)" "stateObjects s' = stateObjects s" "ctxStore s' = ctxStore s"
      "validRevisions s' = validRevisions s" "nextRevisionID s' = nextRevisionID s" "txConfig s' = txConfig s" "al_ok (accessList s')"
    and u: "undo_view K (ctxStore s) e (view K s') = Some (view K s)"
  shows "records K s s'"
proof -
  have "inv_es K s (jEntries (sJournal s))" using ok by (simp add: sdb_ok_def)
  then have "inv_es K s' (jEntries (sJournal s) @ [e])"
    using e by (auto simp: inv_es_def s' fresh_creates_snoc append_dirties)
  moreover have "jEntries (journal_append e (sJournal s)) = jEntries (sJournal s) @ [e]"
    using e(1) by (simp add: journal_append_def)
  ultimately show ?thesis using s' u by (simp add: records_def sdb_ok_def)
qed

section \<open>The operations of the specification\<close>

definition w_touch :: "'k keeper_api \<Rightarrow> 'k \<Rightarrow> 'k world \<Rightarrow> address \<Rightarrow> acct_view" where
  "w_touch K ctx w a = (case wAcc w a of Some v \<Rightarrow> v
     | None \<Rightarrow> obj_view K ctx (newObject K a \<lparr>rNonce = 0, rBalance = None, rCodeHash = None\<rparr>))"

definition w_upd :: "'k keeper_api \<Rightarrow> 'k \<Rightarrow> address \<Rightarrow> (acct_view \<Rightarrow> acct_view) \<Rightarrow> 'k world \<Rightarrow> 'k world" where
  "w_upd K ctx a f w = w\<lparr>wAcc := (wAcc w)(a \<mapsto> f (w_touch K ctx w a))\<rparr>"

definition w_create :: "'k keeper_api \<Rightarrow> 'k \<Rightarrow> address \<Rightarrow> 'k world \<Rightarrow> 'k world" where
  "w_create K ctx a w = w\<lparr>wAcc := (wAcc w)(a \<mapsto>
     (obj_view K ctx (newObject K a \<lparr>rNonce = 0, rBalance = None, rCodeHash = None\<rparr>))\<lparr>vBalance :=
        (case wAcc w a of None \<Rightarrow> 0 | Some v \<Rightarrow> vBalance v)\<rparr>)\<rparr>"

lemma w_upd_w_upd [simp]: "w_upd K ctx a f (w_upd K ctx a g w) = w_upd K ctx a (\<lambda>v. f (g v)) w"
  by (simp add: w_upd_def w_touch_def)

lemma w_upd_simps [simp]: "wAcc (w_upd K ctx a f w) a = Some (f (w_touch K ctx w a))" "w_touch K ctx (w_upd K ctx a f w) a = f (w_touch K ctx w a)"
  by (simp_all add: w_upd_def w_touch_def)

text \<open>Creating an object.\<close>

lemma createObject_ok:
  assumes ok: "sdb_ok K s" and c: "createObject K s a = (s1, so, prev)"
  shows "records K s (setStateObject s1 (setBalance so b))"
    "view K (setStateObject s1 (setBalance so b)) = (view K s)\<lparr>wAcc := (wAcc (view K s))(a \<mapsto> (obj_view K (ctxStore s) so)\<lparr>vBalance := b\<rparr>)\<rparr>"
    "prev = None \<longleftrightarrow> wAcc (view K s) a = None" "map_option vBalance (wAcc (view K s) a) = map_option (\<lambda>p. aBalance (soAccount p)) prev"
    "so = newObject K a \<lparr>rNonce = 0, rBalance = None, rCodeHash = None\<rparr>"
    "setStateObject s1 so = s1"
proof -
  obtain s0 where g: "getStateObject K s a = (s0, prev)" and so: "so = newObject K a \<lparr>rNonce = 0, rBalance = None, rCodeHash = None\<rparr>"
    and s1: "s1 = setStateObject (s_append (case prev of None \<Rightarrow> createObjectChange a | Some p \<Rightarrow> resetObjectChange p) s0) so"
    using c by (auto simp: createObject_def Let_def split: prod.splits)
  have inv: "inv_es K s (jEntries (sJournal s))" using ok by (simp add: sdb_ok_def)
  note go = getStateObject_ok[OF inv g] and rf = reads_fields[OF getStateObject_ok(1)[OF inv g]]
  note r0 = reads_records[OF ok go(1)]
  let ?e = "case prev of None \<Rightarrow> createObjectChange a | Some p \<Rightarrow> resetObjectChange p"
  have col: "setStateObject s1 (setBalance so b) = setStateObject (s_append ?e s0) (setBalance so b)" by (simp add: s1 so setStateObject_def)
  have undo: "undo_view K (ctxStore s0) ?e (view K (setStateObject s0 (setBalance so b))) = Some (view K s0)"
    using go(2,3) by (cases prev) (auto simp: view_put so rf fun_upd_idem)
  have "records K s0 (setStateObject (s_append ?e s0) (setBalance so b))"
    using recordsD(1)[OF r0] undo go(4) by (intro records_put) (auto simp: so rf split: option.splits)
  then show "records K s (setStateObject s1 (setBalance so b))" unfolding col by (rule records_trans[OF r0])
  show "view K (setStateObject s1 (setBalance so b)) = (view K s)\<lparr>wAcc := (wAcc (view K s))(a \<mapsto> (obj_view K (ctxStore s) so)\<lparr>vBalance := b\<rparr>)\<rparr>"
    unfolding col by (simp add: view_put obj_view_set rf so)
  show "prev = None \<longleftrightarrow> wAcc (view K s) a = None" "map_option vBalance (wAcc (view K s) a) = map_option (\<lambda>p. aBalance (soAccount p)) prev"
    using go(2) by (cases prev; simp add: obj_view_def)+
  show "so = newObject K a \<lparr>rNonce = 0, rBalance = None, rCodeHash = None\<rparr>" by (rule so)
  show "setStateObject s1 so = s1" by (simp add: s1 so setStateObject_def)
qed

lemma new_balance: "setBalance (newObject K a \<lparr>rNonce = 0, rBalance = None, rCodeHash = None\<rparr>) 0 =
    newObject K a \<lparr>rNonce = 0, rBalance = None, rCodeHash = None\<rparr>"
  by (simp add: setBalance_def newObject_def)

lemma getOrNewStateObject_ok:
  assumes ok: "sdb_ok K s" and g: "getOrNewStateObject K s a = (s1, so)"
  shows "records K s s1" "view K s1 = w_upd K (ctxStore s) a (\<lambda>v. v) (view K s)" "stateObjects s1 a = Some so" "soAddress so = a"
    "obj_view K (ctxStore s) so = w_touch K (ctxStore s) (view K s) a"
proof -
  have inv: "inv_es K s (jEntries (sJournal s))" using ok by (simp add: sdb_ok_def)
  obtain s0 ob where go: "getStateObject K s a = (s0, ob)" by (cases "getStateObject K s a")
  note go' = getStateObject_ok[OF inv go]
  have "records K s s1 \<and> view K s1 = w_upd K (ctxStore s) a (\<lambda>v. v) (view K s) \<and> stateObjects s1 a = Some so \<and> soAddress so = a \<and>
    obj_view K (ctxStore s) so = w_touch K (ctxStore s) (view K s) a"
  proof (cases ob)
    case (Some x)
    then have "s1 = s0" "so = x" using g go by (auto simp: getOrNewStateObject_def)
    then show ?thesis
      using go'(1-3) Some reads_records[OF ok go'(1)] reads_fields(6)[OF go'(1)] by (simp add: w_upd_def w_touch_def fun_upd_idem)
  next
    case None
    then have s0: "s0 = s" using go'(4) by simp
    obtain prev where c: "createObject K s a = (s1, so, prev)"
      using g go None by (auto simp: getOrNewStateObject_def s0 split: prod.splits)
    note co = createObject_ok[OF ok c]
    have none: "wAcc (view K s) a = None" using go'(2) None by simp
    have sb: "setBalance so 0 = so" "soAddress so = a" by (simp_all add: co(5) new_balance)
    then have ov: "(obj_view K (ctxStore s) so)\<lparr>vBalance := 0\<rparr> = obj_view K (ctxStore s) so" by (metis obj_view_set(1))
    have "stateObjects (setStateObject s1 so) a = Some so" using sb(2) by simp
    then show ?thesis
      using co(1,2)[of 0] none sb(2) by (simp add: sb(1) co(6) ov w_upd_def w_touch_def co(5)[symmetric])
  qed
  then show "records K s s1" "view K s1 = w_upd K (ctxStore s) a (\<lambda>v. v) (view K s)" "stateObjects s1 a = Some so" "soAddress so = a"
    "obj_view K (ctxStore s) so = w_touch K (ctxStore s) (view K s) a" by blast+
qed

text \<open>An operation that turns the view by \<open>f\<close> and records how to undo it.\<close>

definition op_ok :: "'k keeper_api \<Rightarrow> ('k, 'e) state_db \<Rightarrow> ('k, 'e) state_db \<Rightarrow> ('k world \<Rightarrow> 'k world) \<Rightarrow> bool" where
  "op_ok K s s' f \<longleftrightarrow> records K s s' \<and> view K s' = f (view K s)"

lemma op_okI: "records K s s' \<Longrightarrow> view K s' = f (view K s) \<Longrightarrow> op_ok K s s' f"
  by (simp add: op_ok_def)

lemma op_okD: "op_ok K s s' f \<Longrightarrow> sdb_ok K s'" "op_ok K s s' f \<Longrightarrow> ctxStore s' = ctxStore s" "op_ok K s s' f \<Longrightarrow> view K s' = f (view K s)"
  by (auto simp: op_ok_def dest: recordsD)

lemma op_ok_id: "sdb_ok K s \<Longrightarrow> op_ok K s s (\<lambda>w. w)"
  by (simp add: op_ok_def records_refl)

lemma op_ok_trans: "op_ok K s s1 f \<Longrightarrow> op_ok K s1 s2 g \<Longrightarrow> op_ok K s s2 (\<lambda>w. g (f w))"
  by (auto simp: op_ok_def intro: records_trans)

text \<open>Writing one object: the common shape of the setters.\<close>

lemma write_object:
  assumes ok: "sdb_ok K s" and so: "stateObjects s a = Some so" "soAddress so = a" and so': "soAddress so' = a"
    and e: "entry_ok K (ctxStore s) e" "Dirtied e = Some a" "e \<noteq> createObjectChange a"
    and u: "\<And>w. undo_view K (ctxStore s) e w = w_change w a g"
    and f: "obj_view K (ctxStore s) so' = f (obj_view K (ctxStore s) so)" "g (f (obj_view K (ctxStore s) so)) = obj_view K (ctxStore s) so"
  shows "op_ok K s (setStateObject (s_append e s) so') (w_upd K (ctxStore s) a f)"
proof (rule op_okI)
  have va: "wAcc (view K s) a = Some (obj_view K (ctxStore s) so)" by (rule view_acc[OF so(1)])
  have "e \<noteq> createObjectChange b" for b using e(2,3) by (cases e) auto
  then show "records K s (setStateObject (s_append e s) so')"
    using e(1,2) so' f va by (intro records_put[OF ok]) (auto simp: u w_change_def view_put fun_upd_idem)
  show "view K (setStateObject (s_append e s) so') = w_upd K (ctxStore s) a f (view K s)"
    using f(1) va so' by (simp add: view_put w_upd_def w_touch_def)
qed

lemma cached_object:
  assumes ok: "sdb_ok K s" and so: "stateObjects s a = Some so" "soAddress so' = a"
    "obj_view K (ctxStore s) so' = obj_view K (ctxStore s) so"
  shows "reads K s (setStateObject s so')"
proof -
  have "view K (setStateObject s so') = view K s" using so view_acc[OF so(1), of K] by (simp add: view_put fun_upd_idem)
  then show ?thesis using ok so by (auto simp: reads_def sdb_ok_def inv_es_def setStateObject_def)
qed

text \<open>A setter that first gets or creates the object.\<close>

lemma setter_ok:
  assumes ok: "sdb_ok K s"
    and w: "\<And>s1 so. sdb_ok K s1 \<Longrightarrow> stateObjects s1 a = Some so \<Longrightarrow> soAddress so = a \<Longrightarrow>
      op_ok K s1 (put s1 so) (w_upd K (ctxStore s1) a f)"
  shows "op_ok K s (case getOrNewStateObject K s a of (s1, so) \<Rightarrow> put s1 so) (w_upd K (ctxStore s) a f)"
proof -
  obtain s1 so where g: "getOrNewStateObject K s a = (s1, so)" by (cases "getOrNewStateObject K s a")
  note go = getOrNewStateObject_ok[OF ok g]
  have "op_ok K s1 (put s1 so) (w_upd K (ctxStore s) a f)"
    using w[OF recordsD(1)[OF go(1)] go(3,4)] recordsD(2)[OF go(1)] by simp
  moreover have "op_ok K s s1 (w_upd K (ctxStore s) a (\<lambda>v. v))" using go(1,2) by (simp add: op_ok_def)
  ultimately show ?thesis using op_ok_trans[of K s s1 "w_upd K (ctxStore s) a (\<lambda>v. v)" "put s1 so" "w_upd K (ctxStore s) a f"] by (simp add: g)
qed

lemma SetBalance_ok:
  assumes "sdb_ok K s" "stateObjects s a = Some so" "soAddress so = a"
  shows "op_ok K s (so_SetBalance s so b) (w_upd K (ctxStore s) a (\<lambda>v. v\<lparr>vBalance := b\<rparr>))"
  unfolding so_SetBalance_def assms(3)
  by (rule write_object[OF assms, where g = "\<lambda>v. v\<lparr>vBalance := aBalance (soAccount so)\<rparr>"])
    (simp_all add: assms(3) obj_view_set, simp add: obj_view_def)

lemma balance_of_view: "stateObjects s a = Some so \<Longrightarrow> w_upd K (ctxStore s) a (\<lambda>v. v\<lparr>vBalance := aBalance (soAccount so) + n\<rparr>) (view K s) =
    w_upd K (ctxStore s) a (\<lambda>v. v\<lparr>vBalance := vBalance v + n\<rparr>) (view K s)"
  by (simp add: w_upd_def w_touch_def view_acc) (simp add: obj_view_def)

lemma w_upd_id: "stateObjects s a = Some so \<Longrightarrow> f (obj_view K (ctxStore s) so) = obj_view K (ctxStore s) so \<Longrightarrow>
    w_upd K (ctxStore s) a f (view K s) = view K s"
  by (simp add: w_upd_def w_touch_def view_acc fun_upd_idem)

lemma so_AddBalance_ok:
  assumes "sdb_ok K s" "stateObjects s a = Some so" "soAddress so = a"
  shows "op_ok K s (so_AddBalance s so n) (w_upd K (ctxStore s) a (\<lambda>v. v\<lparr>vBalance := vBalance v + n\<rparr>))"
    "op_ok K s (so_SubBalance s so n) (w_upd K (ctxStore s) a (\<lambda>v. v\<lparr>vBalance := vBalance v - n\<rparr>))"
  using SetBalance_ok[OF assms, of "aBalance (soAccount so) + n"] SetBalance_ok[OF assms, of "aBalance (soAccount so) + - n"]
    balance_of_view[OF assms(2), of K n] balance_of_view[OF assms(2), of K "- n"] op_ok_id[OF assms(1)] w_upd_id[OF assms(2), of "\<lambda>v. v" K]
  by (auto simp: so_AddBalance_def so_SubBalance_def op_ok_def)

lemma AddBalance_ok: "sdb_ok K s \<Longrightarrow> op_ok K s (AddBalance K s a n) (w_upd K (ctxStore s) a (\<lambda>v. v\<lparr>vBalance := vBalance v + n\<rparr>))"
  unfolding AddBalance_def by (erule setter_ok) (rule so_AddBalance_ok(1))

lemma SubBalance_ok: "sdb_ok K s \<Longrightarrow> op_ok K s (SubBalance K s a n) (w_upd K (ctxStore s) a (\<lambda>v. v\<lparr>vBalance := vBalance v - n\<rparr>))"
  unfolding SubBalance_def by (erule setter_ok) (rule so_AddBalance_ok(2))

lemma so_SetNonce_ok:
  assumes "sdb_ok K s" "stateObjects s a = Some so" "soAddress so = a"
  shows "op_ok K s (so_SetNonce s so n) (w_upd K (ctxStore s) a (\<lambda>v. v\<lparr>vNonce := n\<rparr>))"
  unfolding so_SetNonce_def assms(3)
  by (rule write_object[OF assms, where g = "\<lambda>v. v\<lparr>vNonce := aNonce (soAccount so)\<rparr>"])
    (simp_all add: assms(3) obj_view_set, simp add: obj_view_def)

lemma SetNonce_ok: "sdb_ok K s \<Longrightarrow> op_ok K s (SetNonce K s a n) (w_upd K (ctxStore s) a (\<lambda>v. v\<lparr>vNonce := n\<rparr>))"
  unfolding SetNonce_def by (erule setter_ok) (rule so_SetNonce_ok)

lemma view_restore:
  "(v :: acct_view)\<lparr>vCodeHash := h, vCode := c, vCode := vCode v, vCodeHash := vCodeHash v\<rparr> = v"
  "v\<lparr>vState := (vState v)(key := x), vState := (vState (v\<lparr>vState := (vState v)(key := x)\<rparr>))(key := vState v key)\<rparr> = v"
  by (cases v; simp)+

lemma so_SetCode_ok:
  assumes "sdb_ok K s" "stateObjects s a = Some so" "soAddress so = a" "c = None \<longrightarrow> h = emptyHash K"
  shows "op_ok K s (so_SetCode K s so h c) (w_upd K (ctxStore s) a (\<lambda>v. v\<lparr>vCodeHash := h, vCode := c\<rparr>))"
proof -
  obtain so1 prev where c: "so_Code K (ctxStore s) so = (so1, prev)" by (cases "so_Code K (ctxStore s) so")
  note sc = so_Code_ok[OF c]
  have so1: "soAddress so1 = a" using sc(2) assms(3) by simp
  have "op_ok K s (setStateObject (s_append (codeChange a prev (aCodeHash (soAccount so1))) s) (setCode so1 h c))
      (w_upd K (ctxStore s) a (\<lambda>v. v\<lparr>vCodeHash := h, vCode := c\<rparr>))"
    by (rule write_object[OF assms(1-3), where g = "\<lambda>v. v\<lparr>vCode := prev, vCodeHash := aCodeHash (soAccount so1)\<rparr>"])
      (use assms(4) sc so1 in \<open>simp_all add: obj_view_setCode view_restore\<close>)
  then show ?thesis by (simp add: so_SetCode_def c so1)
qed

lemma SetCode_ok:
  assumes "sdb_ok K s"
  shows "op_ok K s (SetCode K s a c) (w_upd K (ctxStore s) a (\<lambda>v. v\<lparr>vCodeHash := kKeccak256 K (case c of None \<Rightarrow> [] | Some b \<Rightarrow> b), vCode := c\<rparr>))"
  unfolding SetCode_def by (rule setter_ok[OF assms], rule so_SetCode_ok) (auto split: option.splits)

lemma so_SetState_ok:
  assumes ok: "sdb_ok K s" and so: "stateObjects s a = Some so" "soAddress so = a"
  shows "op_ok K s (so_SetState K s so key x) (w_upd K (ctxStore s) a (\<lambda>v. v\<lparr>vState := (vState v)(key := x)\<rparr>))"
proof -
  obtain so1 prev where c: "so_GetState K (ctxStore s) so key = (so1, prev)" by (cases "so_GetState K (ctxStore s) so key")
  note sc = so_GetState_ok[OF c]
  have so1: "soAddress so1 = a" using sc(2) so(2) by simp
  show ?thesis
  proof (cases "prev = x")
    case True
    note rd = cached_object[OF ok so(1) so1 sc(1)]
    have "w_upd K (ctxStore s) a (\<lambda>v. v\<lparr>vState := (vState v)(key := x)\<rparr>) (view K s) = view K s"
      using w_upd_id[OF so(1), of "\<lambda>v. v\<lparr>vState := (vState v)(key := x)\<rparr>" K] sc(3) True by simp
    then show ?thesis using reads_records[OF ok rd] reads_fields(6)[OF rd] by (simp add: so_SetState_def c True op_ok_def)
  next
    case False
    have "op_ok K s (setStateObject (s_append (storageChange a key prev) s) (setState so1 key x))
        (w_upd K (ctxStore s) a (\<lambda>v. v\<lparr>vState := (vState v)(key := x)\<rparr>))"
      by (rule write_object[OF ok so, where g = "\<lambda>v. v\<lparr>vState := (vState v)(key := prev)\<rparr>"])
        (use sc so1 in \<open>simp_all add: obj_view_set view_restore\<close>)
    then show ?thesis using False by (simp add: so_SetState_def c so1)
  qed
qed

lemma SetState_ok: "sdb_ok K s \<Longrightarrow> op_ok K s (SetState K s a key x) (w_upd K (ctxStore s) a (\<lambda>v. v\<lparr>vState := (vState v)(key := x)\<rparr>))"
  unfolding SetState_def by (erule setter_ok) (rule so_SetState_ok)

lemma CreateAccount_ok:
  assumes "sdb_ok K s"
  shows "op_ok K s (CreateAccount K s a) (w_create K (ctxStore s) a)"
proof -
  obtain s1 so prev where c: "createObject K s a = (s1, so, prev)" by (cases "createObject K s a")
  note co = createObject_ok[OF assms c]
  have sb: "setBalance so 0 = so" by (simp add: co(5) new_balance)
  have ca: "CreateAccount K s a = setStateObject s1 (setBalance so (case wAcc (view K s) a of None \<Rightarrow> 0 | Some v \<Rightarrow> vBalance v))"
    using co(3,4,6) by (cases prev) (auto simp: CreateAccount_def c sb split: option.splits)
  show ?thesis unfolding op_ok_def ca by (simp add: co(1,2) w_create_def) (simp add: co(5))
qed

definition w_suicide :: "address \<Rightarrow> 'k world \<Rightarrow> 'k world" where
  "w_suicide a w = w\<lparr>wAcc := (wAcc w)(a := map_option (\<lambda>v. v\<lparr>vSuicided := True, vBalance := 0\<rparr>) (wAcc w a))\<rparr>"

lemma Suicide_ok:
  assumes ok: "sdb_ok K s" and r: "Suicide K s a = (s', done')"
  shows "op_ok K s s' (w_suicide a)" "done' \<longleftrightarrow> wAcc (view K s) a \<noteq> None"
proof -
  have inv: "inv_es K s (jEntries (sJournal s))" using ok by (simp add: sdb_ok_def)
  obtain s1 ob where g: "getStateObject K s a = (s1, ob)" by (cases "getStateObject K s a")
  note go = getStateObject_ok[OF inv g] and r1 = reads_records[OF ok getStateObject_ok(1)[OF inv g]] and rf = reads_fields[OF getStateObject_ok(1)[OF inv g]]
  have "op_ok K s s' (w_suicide a) \<and> (done' \<longleftrightarrow> wAcc (view K s) a \<noteq> None)"
  proof (cases ob)
    case None
    then have "s' = s" "\<not> done'" using r g go(4) by (auto simp: Suicide_def)
    then show ?thesis using go(2) None op_ok_id[OF ok] by (simp add: op_ok_def w_suicide_def fun_upd_idem)
  next
    case (Some so)
    have so: "stateObjects s1 a = Some so" "soAddress so = a" using go(3)[OF Some] by simp_all
    let ?e = "suicideChange a (suicided so) (aBalance (soAccount so))" and ?o = "setBalance (so\<lparr>suicided := True\<rparr>) 0"
    have w: "op_ok K s1 (setStateObject (s_append ?e s1) ?o) (w_upd K (ctxStore s1) a (\<lambda>v. v\<lparr>vSuicided := True, vBalance := 0\<rparr>))"
      by (rule write_object[OF recordsD(1)[OF r1] so, where g = "\<lambda>v. v\<lparr>vSuicided := suicided so, vBalance := aBalance (soAccount so)\<rparr>"])
        (simp_all add: so obj_view_set, simp add: obj_view_def)
    have "w_upd K (ctxStore s1) a (\<lambda>v. v\<lparr>vSuicided := True, vBalance := 0\<rparr>) (view K s1) = w_suicide a (view K s)"
      using go(2) Some by (simp add: rf w_upd_def w_touch_def w_suicide_def)
    moreover have "s' = setStateObject (s_append ?e s1) ?o" "done'" using r by (auto simp: Suicide_def g Some)
    ultimately show ?thesis using w records_trans[OF r1] go(2) Some by (auto simp: op_ok_def)
  qed
  then show "op_ok K s s' (w_suicide a)" "done' \<longleftrightarrow> wAcc (view K s) a \<noteq> None" by blast+
qed

text \<open>Operations outside the accounts.\<close>

definition w_log :: "TxConfig \<Rightarrow> eth_log \<Rightarrow> 'k world \<Rightarrow> 'k world" where
  "w_log cfg log w = w\<lparr>wLogs := wLogs w @ [log\<lparr>lgTxHash := TxHash cfg, lgBlockHash := BlockHash cfg, lgTxIndex := TxIndex cfg,
     lgIndex := LogIndex cfg + of_nat (length (wLogs w))\<rparr>]\<rparr>"

lemma view_upd [simp]:
  "view K (s\<lparr>sLogs := l\<rparr>) = (view K s)\<lparr>wLogs := l\<rparr>" "view K (s\<lparr>refund := r\<rparr>) = (view K s)\<lparr>wRefund := r\<rparr>"
  "view K (s\<lparr>accessList := al\<rparr>) = (view K s)\<lparr>wAccess := al\<rparr>" "view K (s\<lparr>sJournal := j\<rparr>) = view K s"
  "view K (s\<lparr>precompileCallsCounter := n\<rparr>) = view K s" "view K (s\<lparr>validRevisions := v\<rparr>) = view K s" "view K (s\<lparr>nextRevisionID := i\<rparr>) = view K s"
  by (auto simp: view_def fun_eq_iff split: option.split)

lemma view_sel [simp]: "wRefund (view K s) = refund s" "wLogs (view K s) = sLogs s" "wAccess (view K s) = accessList s"
  by (simp_all add: view_def)

lemma view_same [simp]: "(view K s)\<lparr>wRefund := refund s\<rparr> = view K s" "(view K s)\<lparr>wLogs := sLogs s\<rparr> = view K s"
  "(view K s)\<lparr>wAccess := accessList s\<rparr> = view K s"
  by (simp_all add: view_def)

lemma s_append_journal: "sJournal (s_append e s) = journal_append e (sJournal s)"
  by (simp add: s_append_def)

lemma AddLog_ok: "sdb_ok K s \<Longrightarrow> op_ok K s (AddLog s log) (w_log (txConfig s) log)"
  by (rule op_okI, rule records_field[where e = addLogChange])
    (simp_all add: AddLog_def Let_def s_append_journal sdb_ok_def w_log_def)

lemma AddRefund_ok: "sdb_ok K s \<Longrightarrow> op_ok K s (AddRefund s g) (\<lambda>w. w\<lparr>wRefund := wRefund w + g\<rparr>)"
  by (rule op_okI, rule records_field[where e = "refundChange (refund s)"])
    (simp_all add: AddRefund_def s_append_journal sdb_ok_def)

lemma SubRefund_ok:
  assumes "sdb_ok K s"
  shows "if refund s < g then SubRefund s g = Inl (Panic ''Refund counter below zero'')
    else \<exists>s'. SubRefund s g = Inr s' \<and> op_ok K s s' (\<lambda>w. w\<lparr>wRefund := wRefund w - g\<rparr>)"
proof (cases "refund s < g")
  case False
  let ?s = "(s_append (refundChange (refund s)) s)\<lparr>refund := refund s - g\<rparr>"
  have "op_ok K s ?s (\<lambda>w. w\<lparr>wRefund := wRefund w - g\<rparr>)"
    using assms by (intro op_okI records_field[where e = "refundChange (refund s)"])
      (simp_all add: s_append_journal sdb_ok_def)
  then show ?thesis using False by (simp add: SubRefund_def Let_def)
qed (simp add: SubRefund_def Let_def)

definition w_address :: "address \<Rightarrow> 'k world \<Rightarrow> 'k world" where
  "w_address a w = w\<lparr>wAccess := fst (AddAddress (wAccess w) a)\<rparr>"

lemma AddAddressToAccessList_ok:
  assumes "sdb_ok K s"
  shows "op_ok K s (AddAddressToAccessList s a) (w_address a)"
proof -
  have al: "al_ok (accessList s)" using assms by (simp add: sdb_ok_def)
  obtain al' ch where ad: "AddAddress (accessList s) a = (al', ch)" by (cases "AddAddress (accessList s) a")
  note ao = AddAddress_ok[OF al ad]
  show ?thesis
  proof (cases ch)
    case True
    let ?s = "s_append (accessListAddAccountChange a) (s\<lparr>accessList := al'\<rparr>)"
    have v: "view K ?s = (view K s)\<lparr>wAccess := al'\<rparr>" by simp
    have "records K s ?s"
      using assms ao(1) ao(5)[OF True] by (intro records_field[where e = "accessListAddAccountChange a"])
        (simp_all add: s_append_journal)
    then show ?thesis using True ad v by (simp add: AddAddressToAccessList_def op_ok_def w_address_def)
  next
    case False
    then show ?thesis
      using ad ao(6) op_ok_id[OF assms] by (simp add: AddAddressToAccessList_def op_ok_def w_address_def)
  qed
qed

definition w_slot :: "address \<Rightarrow> hash \<Rightarrow> 'k world \<Rightarrow> 'k world" where
  "w_slot a x w = w\<lparr>wAccess := (case AddSlot (wAccess w) a x of Inl _ \<Rightarrow> wAccess w | Inr (al, _) \<Rightarrow> al)\<rparr>"

text \<open>Adding a slot of an unknown address is adding the address and then the slot.\<close>

lemma slot_of_unknown:
  assumes "alAddresses (accessList s) a = None"
  shows "AddSlotToAccessList s a x = AddSlotToAccessList (AddAddressToAccessList s a) a x"
  using assms by (simp add: AddSlotToAccessList_def AddAddressToAccessList_def AddAddress_def AddSlot_def Let_def s_append_def)

lemma slot_of_known:
  assumes ok: "sdb_ok K s" and a: "a \<in> al_addresses (accessList s)"
  shows "\<exists>s'. AddSlotToAccessList s a x = Inr s' \<and> op_ok K s s' (w_slot a x)"
proof -
  have al: "al_ok (accessList s)" using ok by (simp add: sdb_ok_def)
  show ?thesis
  proof (rule AddSlot_ok[OF al, of a x])
    fix al' am sm
    assume h: "AddSlot (accessList s) a x = Inr (al', am, sm)" "al_ok al'" "am \<longleftrightarrow> a \<notin> al_addresses (accessList s)"
      "\<not> sm \<Longrightarrow> al' = accessList s" "sm \<Longrightarrow> \<not> am \<Longrightarrow> DeleteSlot al' a x = Inr (accessList s)"
    have am: "\<not> am" using h(3) a by simp
    let ?s = "s_append (accessListAddSlotChange a x) (s\<lparr>accessList := al'\<rparr>)"
    have "records K s ?s" if sm
      using ok h(2) h(5)[OF that am] by (intro records_field[where e = "accessListAddSlotChange a x"]) (simp_all add: s_append_journal)
    then show ?thesis
      using h(1,4) am records_refl[OF ok]
      by (cases sm) (simp_all add: AddSlotToAccessList_def op_ok_def w_slot_def)
  qed
qed

lemma AddSlotToAccessList_ok:
  assumes ok: "sdb_ok K s"
  shows "\<exists>s'. AddSlotToAccessList s a x = Inr s' \<and> op_ok K s s' (w_slot a x)"
proof (cases "a \<in> al_addresses (accessList s)")
  case False
  then have n: "alAddresses (accessList s) a = None" by (simp add: al_addresses_def domIff)
  note aa = AddAddressToAccessList_ok[OF ok, of a]
  have acc: "accessList (AddAddressToAccessList s a) = fst (AddAddress (accessList s) a)"
    using n by (simp add: AddAddressToAccessList_def AddAddress_def Let_def)
  obtain s' where s': "AddSlotToAccessList (AddAddressToAccessList s a) a x = Inr s'" "op_ok K (AddAddressToAccessList s a) s' (w_slot a x)"
    using slot_of_known[OF op_okD(1)[OF aa], of a x] n by (auto simp: acc al_addresses_def AddAddress_def)
  have "w_slot a x (w_address a (view K s)) = w_slot a x (view K s)"
    using n by (simp add: w_slot_def w_address_def AddSlot_def AddAddress_def Let_def)
  then show ?thesis using op_ok_trans[OF aa s'(2)] s'(1) slot_of_unknown[OF n, of x] by (simp add: op_ok_def)
qed (rule slot_of_known[OF ok])

lemma add_slots_ok: "sdb_ok K s \<Longrightarrow> \<exists>s'. add_slots s a xs = Inr s' \<and> op_ok K s s' (fold (w_slot a) xs)"
proof (induction xs arbitrary: s)
  case Nil
  then show ?case using op_ok_id by (simp add: id_def)
next
  case (Cons x xs)
  obtain s1 where s1: "AddSlotToAccessList s a x = Inr s1" "op_ok K s s1 (w_slot a x)" using AddSlotToAccessList_ok[OF Cons.prems] by blast
  obtain s2 where "add_slots s1 a xs = Inr s2" "op_ok K s1 s2 (fold (w_slot a) xs)" using Cons.IH[OF op_okD(1)[OF s1(2)]] by blast
  then show ?case using s1 op_ok_trans[OF s1(2)] by (fastforce simp: comp_def)
qed

definition w_tuple :: "address \<times> hash list \<Rightarrow> 'k world \<Rightarrow> 'k world" where
  "w_tuple el w = fold (w_slot (fst el)) (snd el) (w_address (fst el) w)"

lemma add_tuples_ok: "sdb_ok K s \<Longrightarrow> \<exists>s'. add_tuples s els = Inr s' \<and> op_ok K s s' (fold w_tuple els)"
proof (induction els arbitrary: s)
  case Nil
  then show ?case using op_ok_id by (simp add: id_def)
next
  case (Cons el els)
  obtain a xs where el: "el = (a, xs)" by (cases el)
  note s1 = AddAddressToAccessList_ok[OF Cons.prems, of a]
  obtain s2 where s2: "add_slots (AddAddressToAccessList s a) a xs = Inr s2" "op_ok K (AddAddressToAccessList s a) s2 (fold (w_slot a) xs)"
    using add_slots_ok[OF op_okD(1)[OF s1]] by blast
  obtain s3 where s3: "add_tuples s2 els = Inr s3" "op_ok K s2 s3 (fold w_tuple els)" using Cons.IH[OF op_okD(1)[OF s2(2)]] by blast
  show ?case using s2(1) s3(1) op_ok_trans[OF op_ok_trans[OF s1 s2(2)] s3(2)] by (simp add: el w_tuple_def[of "(a, xs)"] op_ok_def)
qed

definition w_prepare :: "address \<Rightarrow> address option \<Rightarrow> address list \<Rightarrow> (address \<times> hash list) list \<Rightarrow> 'k world \<Rightarrow> 'k world" where
  "w_prepare sender dst pre els w = fold w_tuple els (fold w_address (sender # (case dst of None \<Rightarrow> [] | Some d \<Rightarrow> [d]) @ pre) w)"

lemma add_addresses_ok: "sdb_ok K s \<Longrightarrow> op_ok K s (foldl AddAddressToAccessList s as) (fold w_address as)"
proof (induction as arbitrary: s)
  case Nil
  then show ?case using op_ok_id by (simp add: id_def)
next
  case (Cons a as)
  note s1 = AddAddressToAccessList_ok[OF Cons.prems, of a]
  show ?case using op_ok_trans[OF s1 Cons.IH[OF op_okD(1)[OF s1]]] by (simp add: comp_def)
qed

lemma PrepareAccessList_ok:
  assumes "sdb_ok K s"
  shows "\<exists>s'. PrepareAccessList s sender dst pre els = Inr s' \<and> op_ok K s s' (w_prepare sender dst pre els)"
proof -
  let ?as = "sender # (case dst of None \<Rightarrow> [] | Some d \<Rightarrow> [d]) @ pre"
  note s1 = add_addresses_ok[OF assms, of ?as]
  obtain s2 where s2: "add_tuples (foldl AddAddressToAccessList s ?as) els = Inr s2" "op_ok K (foldl AddAddressToAccessList s ?as) s2 (fold w_tuple els)"
    using add_tuples_ok[OF op_okD(1)[OF s1]] by blast
  have "PrepareAccessList s sender dst pre els = add_tuples (foldl AddAddressToAccessList s ?as) els"
    by (simp add: PrepareAccessList_def split: option.split)
  then show ?thesis using s2 op_ok_trans[OF s1 s2(2)] by (simp add: w_prepare_def op_ok_def)
qed

section \<open>Undoing the journal\<close>

lemma undirty_count:
  "map_of (dirties (undirty e j)) a = (if Dirtied e = Some a
     then (if dirty_count j a = 1 then None else Some (dirty_count j a - 1)) else map_of (dirties j) a)"
  by (auto simp: undirty_def Let_def update_conv' delete_conv' split: option.splits)

lemma undirty_entries [simp]: "jEntries (undirty e j) = jEntries j"
  by (simp add: undirty_def Let_def split: option.split)

lemma inv_drop:
  assumes inv: "inv_es K s (es @ [e])" and objs: "\<And>a so. stateObjects s1 a = Some so \<Longrightarrow> soAddress so = a"
    and live: "\<And>a. stateObjects s a \<noteq> None \<Longrightarrow> e \<noteq> createObjectChange a \<Longrightarrow> stateObjects s1 a \<noteq> None"
    and fr: "sJournal s1 = sJournal s" "ctxStore s1 = ctxStore s"
  shows "inv_es K (s1\<lparr>sJournal := undirty e (sJournal s1)\<rparr>) es"
  unfolding inv_es_def
proof (intro conjI allI impI ballI)
  fix x a
  assume x: "x \<in> set es" "Dirtied x = Some a"
  then have "0 < dirt a es" by (auto simp: dirt_def filter_empty_conv)
  moreover have "fresh_creates (es @ [e])" using inv by (simp add: inv_es_def)
  ultimately have "e \<noteq> createObjectChange a" by (auto simp: fresh_creates_snoc)
  then show "stateObjects (s1\<lparr>sJournal := undirty e (sJournal s1)\<rparr>) a \<noteq> None"
    using live[of a] inv x by (simp add: inv_es_def)
next
  fix a
  have "map_of (dirties (sJournal s)) a = (if dirt a (es @ [e]) = 0 then None else Some (int (dirt a (es @ [e]))))"
    using inv unfolding inv_es_def by blast
  then show "map_of (dirties (sJournal (s1\<lparr>sJournal := undirty e (sJournal s1)\<rparr>))) a =
      (if dirt a es = 0 then None else Some (int (dirt a es)))"
    by (simp add: undirty_count fr dirty_count_def split: if_splits)
qed (use inv objs in \<open>auto simp: inv_es_def fr fresh_creates_snoc\<close>)

text \<open>What undoing an entry has to establish, and the two common ways to establish it.\<close>

definition undone :: "'k keeper_api \<Rightarrow> ('k, 'e) state_db \<Rightarrow> ('k, 'e) journal_entry list \<Rightarrow> ('k, 'e) journal_entry \<Rightarrow> 'k world \<Rightarrow>
    ('k, 'e) state_db \<Rightarrow> bool" where
  "undone K s es e w s1 \<longleftrightarrow> view K s1 = w \<and> inv_es K (s1\<lparr>sJournal := undirty e (sJournal s1)\<rparr>) es \<and>
     sJournal s1 = sJournal s \<and> ctxStore s1 = ctxStore s \<and> txConfig s1 = txConfig s \<and> validRevisions s1 = validRevisions s \<and>
     nextRevisionID s1 = nextRevisionID s"

lemma undone_field:
  assumes "inv_es K s (es @ [e])" "stateObjects s1 = stateObjects s" "view K s1 = w" "sJournal s1 = sJournal s" "ctxStore s1 = ctxStore s"
    "txConfig s1 = txConfig s" "validRevisions s1 = validRevisions s" "nextRevisionID s1 = nextRevisionID s"
  shows "undone K s es e w s1"
proof -
  have "inv_es K (s1\<lparr>sJournal := undirty e (sJournal s1)\<rparr>) es"
    by (rule inv_drop[OF assms(1)]) (use assms(1) in \<open>auto simp: assms(2,4,5) inv_es_def\<close>)
  then show ?thesis using assms by (simp add: undone_def)
qed

lemma undone_object:
  assumes inv: "inv_es K s (es @ [e])" and u: "w_change (view K s) a g = Some w" and e: "\<And>b. e \<noteq> createObjectChange b"
    and f: "\<And>so. soAddress so = a \<Longrightarrow> soAddress (f so) = a \<and> obj_view K (ctxStore s) (f so) = g (obj_view K (ctxStore s) so)"
  shows "\<exists>s1 so. getStateObject K s a = (s1, Some so) \<and> undone K s es e w (setStateObject s1 (f so))"
proof -
  obtain s1 ob where g: "getStateObject K s a = (s1, ob)" by (cases "getStateObject K s a")
  note go = getStateObject_ok[OF inv g] and rf = reads_fields[OF getStateObject_ok(1)[OF inv g]]
  obtain so where so: "ob = Some so" "w = (view K s)\<lparr>wAcc := (wAcc (view K s))(a \<mapsto> g (obj_view K (ctxStore s) so))\<rparr>"
    using u go(2) by (cases ob) (auto simp: w_change_def)
  have a: "soAddress so = a" using go(3)[OF so(1)] by simp
  have "view K (setStateObject s1 (f so)) = w" using f[OF a] so(2) by (simp add: view_put rf)
  moreover have "inv_es K ((setStateObject s1 (f so))\<lparr>sJournal := undirty e (sJournal (setStateObject s1 (f so)))\<rparr>) es"
    using e go(1) by (intro inv_drop[OF inv]) (auto simp: rf reads_def split: if_splits)
  ultimately show ?thesis using g so(1) rf by (simp add: undone_def)
qed

lemma undone_on_object:
  assumes "inv_es K s (es @ [e])" "w_change (view K s) a g = Some w" "\<And>b. e \<noteq> createObjectChange b"
    "\<And>so. soAddress so = a \<Longrightarrow> soAddress (f so) = a \<and> obj_view K (ctxStore s) (f so) = g (obj_view K (ctxStore s) so)"
  shows "\<exists>s1. on_object K s a f = Inr s1 \<and> undone K s es e w s1"
  using undone_object[OF assms] unfolding on_object_def by fastforce

lemma Revert_entry_ok:
  assumes inv: "inv_es K s (es @ [e])" and u: "undo_view K (ctxStore s) e (view K s) = Some w"
  shows "\<exists>s1. Revert_entry K e s = Inr s1 \<and> undone K s es e w s1"
proof (cases e)
  case (createObjectChange a)
  have "kGetAccount K (ctxStore s) a = None" using inv createObjectChange by (simp add: inv_es_def)
  then have v: "view K (s\<lparr>stateObjects := (stateObjects s)(a := None)\<rparr>) = w"
    using u createObjectChange by (auto simp: view_def fun_eq_iff split: option.split)
  let ?s1 = "s\<lparr>stateObjects := (stateObjects s)(a := None)\<rparr>"
  have "inv_es K (?s1\<lparr>sJournal := undirty e (sJournal ?s1)\<rparr>) es"
    by (rule inv_drop[OF inv]) (use inv in \<open>auto simp: inv_es_def createObjectChange split: if_splits\<close>)
  then show ?thesis using createObjectChange v by (simp add: undone_def)
next
  case (resetObjectChange prev)
  let ?s1 = "setStateObject s prev"
  have "inv_es K (?s1\<lparr>sJournal := undirty e (sJournal ?s1)\<rparr>) es"
    by (rule inv_drop[OF inv]) (use inv in \<open>auto simp: inv_es_def resetObjectChange split: if_splits\<close>)
  then show ?thesis using u resetObjectChange by (simp add: undone_def view_put)
next
  case (suicideChange a p b)
  have "\<exists>s1 so. getStateObject K s a = (s1, Some so) \<and> undone K s es e w (setStateObject s1 (setBalance (so\<lparr>suicided := p\<rparr>) b))"
    by (rule undone_object[OF inv, where g = "\<lambda>v. v\<lparr>vSuicided := p, vBalance := b\<rparr>"]) (use u in \<open>simp_all add: suicideChange obj_view_set\<close>)
  then show ?thesis by (auto simp: suicideChange)
next
  case (balanceChange a b)
  show ?thesis unfolding balanceChange Revert_entry.simps
    by (rule undone_on_object[OF inv[unfolded balanceChange]]) (use u in \<open>simp_all add: balanceChange obj_view_set\<close>)
next
  case (nonceChange a n)
  show ?thesis unfolding nonceChange Revert_entry.simps
    by (rule undone_on_object[OF inv[unfolded nonceChange]]) (use u in \<open>simp_all add: nonceChange obj_view_set\<close>)
next
  case (storageChange a key x)
  show ?thesis unfolding storageChange Revert_entry.simps
    by (rule undone_on_object[OF inv[unfolded storageChange], where g = "\<lambda>v. v\<lparr>vState := (vState v)(key := x)\<rparr>"]) (use u in \<open>simp_all add: storageChange obj_view_set\<close>)
next
  case (codeChange a c h)
  have ok: "c = None \<longrightarrow> h = emptyHash K \<or> kGetCode K (ctxStore s) h = None" using inv by (simp add: inv_es_def codeChange)
  show ?thesis unfolding codeChange Revert_entry.simps
    by (rule undone_on_object[OF inv[unfolded codeChange], where g = "\<lambda>v. v\<lparr>vCode := c, vCodeHash := h\<rparr>"])
      (use u in \<open>simp_all add: codeChange obj_view_setCode[OF ok]\<close>)
next
  case addLogChange
  then show ?thesis using u by (auto split: if_splits intro!: undone_field[OF inv[unfolded addLogChange]])
next
  case (accessListAddSlotChange a x)
  then obtain al where "DeleteSlot (accessList s) a x = Inr al" "w = (view K s)\<lparr>wAccess := al\<rparr>" using u by (auto split: sum.splits)
  then show ?thesis using accessListAddSlotChange by (auto intro!: undone_field[OF inv[unfolded accessListAddSlotChange]])
next
  case (precompileCallChange cms evs)
  have "view K (RevertMultiStore s cms evs) = (view K s)\<lparr>wCache := cms\<rparr>"
    by (auto simp: view_def RevertMultiStore_def fun_eq_iff split: option.split)
  then show ?thesis
    using u precompileCallChange by (auto intro!: undone_field[OF inv[unfolded precompileCallChange]] simp: RevertMultiStore_def)
next
  case (refundChange r)
  then show ?thesis using u by (auto intro!: undone_field[OF inv[unfolded refundChange]])
next
  case (accessListAddAccountChange a)
  then show ?thesis using u by (auto intro!: undone_field[OF inv[unfolded accessListAddAccountChange]])
qed

lemma revert_loop_ok:
  assumes "inv_es K s (xs @ ys)" "undo_all K (ctxStore s) ys (view K s) = Some w"
  shows "\<exists>s1. revert_loop K (rev ys) s = Inr s1 \<and> view K s1 = w \<and> inv_es K s1 xs \<and> jEntries (sJournal s1) = jEntries (sJournal s) \<and>
    ctxStore s1 = ctxStore s \<and> txConfig s1 = txConfig s \<and> validRevisions s1 = validRevisions s \<and> nextRevisionID s1 = nextRevisionID s"
  using assms
proof (induction ys arbitrary: s w rule: rev_induct)
  case (snoc e ys)
  obtain w1 where w1: "undo_view K (ctxStore s) e (view K s) = Some w1" "undo_all K (ctxStore s) ys w1 = Some w"
    using snoc.prems(2) by (cases "undo_view K (ctxStore s) e (view K s)") (auto simp: undo_all_append)
  obtain s1 where s1: "Revert_entry K e s = Inr s1" "view K s1 = w1" "inv_es K (s1\<lparr>sJournal := undirty e (sJournal s1)\<rparr>) (xs @ ys)"
    "sJournal s1 = sJournal s" "ctxStore s1 = ctxStore s" "txConfig s1 = txConfig s" "validRevisions s1 = validRevisions s" "nextRevisionID s1 = nextRevisionID s"
    using Revert_entry_ok[of K s "xs @ ys" e w1] snoc.prems(1) w1(1) by (auto simp: undone_def)
  from snoc.IH[OF s1(3), of w] show ?case using s1 w1(2) by simp
qed simp

lemma journal_Revert_ok:
  assumes ok: "sdb_ok K s" and i: "i \<le> length (jEntries (sJournal s))"
    and u: "undo_all K (ctxStore s) (drop i (jEntries (sJournal s))) (view K s) = Some w" and al: "al_ok (wAccess w)"
  shows "\<exists>s1. journal_Revert K s i = Inr s1 \<and> view K s1 = w \<and> sdb_ok K s1 \<and> jEntries (sJournal s1) = take i (jEntries (sJournal s)) \<and>
    ctxStore s1 = ctxStore s \<and> txConfig s1 = txConfig s \<and> validRevisions s1 = validRevisions s \<and> nextRevisionID s1 = nextRevisionID s"
proof -
  let ?es = "jEntries (sJournal s)"
  have "inv_es K s (take i ?es @ drop i ?es)" using ok by (simp add: sdb_ok_def)
  from revert_loop_ok[OF this u] obtain s1 where s1: "revert_loop K (rev (drop i ?es)) s = Inr s1" "view K s1 = w" "inv_es K s1 (take i ?es)"
    "jEntries (sJournal s1) = ?es" "ctxStore s1 = ctxStore s" "txConfig s1 = txConfig s" "validRevisions s1 = validRevisions s" "nextRevisionID s1 = nextRevisionID s" by blast
  have "accessList s1 = wAccess w" using s1(2) by auto
  then show ?thesis using s1 i al by (auto simp: journal_Revert_def sdb_ok_def inv_es_def)
qed

end
