(* ===== verification/StateDBSnapshots.thy ===== *)
theory StateDBSnapshots
  imports StateDBSpec
begin

text \<open>
  Snapshots, reverting and committing. The specification keeps a stack of saved worlds, where
  \<open>Snapshot\<close> pushes a copy and \<open>RevertToSnapshot\<close> pops one; \<open>sim\<close> relates a database to a
  world and such a stack.
\<close>

section \<open>Snapshots as saved worlds\<close>

text \<open>Binary search returns the boundary of a monotone predicate.\<close>

definition boundary :: "nat \<Rightarrow> (nat \<Rightarrow> bool) \<Rightarrow> nat \<Rightarrow> bool" where
  "boundary n f k \<longleftrightarrow> k \<le> n \<and> (\<forall>x < k. \<not> f x) \<and> (\<forall>x. k \<le> x \<longrightarrow> x < n \<longrightarrow> f x)"

lemma sort_Search_loop_ok:
  assumes mono: "\<And>x y. x \<le> y \<Longrightarrow> y < n \<Longrightarrow> f x \<Longrightarrow> f y"
  shows "i \<le> j \<Longrightarrow> j \<le> n \<Longrightarrow> (\<And>x. x < i \<Longrightarrow> \<not> f x) \<Longrightarrow> (\<And>x. j \<le> x \<Longrightarrow> x < n \<Longrightarrow> f x) \<Longrightarrow>
    boundary n f (sort_Search_loop f i j)"
proof (induction "j - i" arbitrary: i j rule: less_induct)
  case less
  show ?case
  proof (cases "i < j")
    case True
    let ?h = "(i + j) div 2"
    have h: "i \<le> ?h" "?h < j" using True by auto
    show ?thesis
    proof (cases "f ?h")
      case False
      have "\<not> f x" if "x < ?h + 1" for x using that False mono[of x ?h] h less.prems(2) by auto
      then have "boundary n f (sort_Search_loop f (?h + 1) j)" using h less.prems by (intro less.hyps) auto
      then show ?thesis by (subst sort_Search_loop.simps) (simp add: True False Let_def)
    next
      case hT: True
      have "f x" if "?h \<le> x" "x < n" for x using that hT mono by blast
      then have "boundary n f (sort_Search_loop f i ?h)" using h less.prems by (intro less.hyps) auto
      then show ?thesis by (subst sort_Search_loop.simps) (simp add: True hT Let_def)
    qed
  next
    case False
    then have "i = j" using less.prems(1) by simp
    then show ?thesis using less.prems by (subst sort_Search_loop.simps) (simp add: boundary_def)
  qed
qed

lemma boundary_find:
  assumes so: "sorted (map fst xs)" and b: "boundary (length xs) (\<lambda>i. fst (xs ! i) \<ge> r) i"
  shows "if (r :: int) \<in> fst ` set xs then i < length xs \<and> fst (xs ! i) = r else i = length xs \<or> fst (xs ! i) \<noteq> r"
proof (cases "r \<in> fst ` set xs")
  case True
  then obtain k where k: "k < length xs" "fst (xs ! k) = r" by (auto simp: in_set_conv_nth)
  have ik: "i \<le> k"
  proof (rule ccontr)
    assume "\<not> i \<le> k"
    then have "\<not> r \<le> fst (xs ! k)" using b by (simp add: boundary_def)
    then show False using k(2) by simp
  qed
  then have "fst (xs ! i) \<le> r" using k so sorted_nth_mono[of "map fst xs" i k] by simp
  moreover have "r \<le> fst (xs ! i)" using b k ik by (simp add: boundary_def)
  ultimately show ?thesis using True k ik by simp
next
  case False
  have "fst (xs ! i) \<noteq> r" if "i < length xs"
  proof
    assume "fst (xs ! i) = r"
    then show False using False nth_mem[OF that] by (metis image_eqI)
  qed
  then show ?thesis using False b by (auto simp: boundary_def)
qed

lemma sort_Search_find:
  assumes "sorted (map fst xs)" "i = sort_Search (length xs) (\<lambda>i. fst (xs ! i) \<ge> (r :: int))"
  shows "if r \<in> fst ` set xs then i < length xs \<and> fst (xs ! i) = r else i = length xs \<or> fst (xs ! i) \<noteq> r"
proof (rule boundary_find[OF assms(1)])
  have mono: "r \<le> fst (xs ! y)" if "x \<le> y" "y < length xs" "r \<le> fst (xs ! x)" for x y
    using that assms(1) sorted_nth_mono[of "map fst xs" x y] by simp
  show "boundary (length xs) (\<lambda>i. fst (xs ! i) \<ge> r) i"
    unfolding assms(2) sort_Search_def by (rule sort_Search_loop_ok) (simp_all add: mono)
qed

text \<open>A world with its stack of saved worlds, and the specification of the snapshot operations.\<close>

record 'k spec_state =
  spWorld :: "'k world"
  spSaved :: "(int \<times> 'k world) list"
  spNext :: int
  spBase :: "'k world"

definition spec_snapshot :: "'k spec_state \<Rightarrow> 'k spec_state" where
  "spec_snapshot a = a\<lparr>spSaved := spSaved a @ [(spNext a, spWorld a)], spNext := spNext a + 1\<rparr>"

definition spec_revert :: "int \<Rightarrow> 'k spec_state \<Rightarrow> 'k spec_state result" where
  "spec_revert r a = (case map_of (spSaved a) r of
     None \<Rightarrow> Inl (Panic ''revision id cannot be reverted'')
   | Some w \<Rightarrow> Inr (a\<lparr>spWorld := w, spSaved := takeWhile (\<lambda>p. fst p \<noteq> r) (spSaved a)\<rparr>))"

definition saved_ok :: "'k keeper_api \<Rightarrow> ('k, 'e) state_db \<Rightarrow> int \<times> nat \<Rightarrow> int \<times> 'k world \<Rightarrow> bool" where
  "saved_ok K c p q \<longleftrightarrow> fst p = fst q \<and> snd p \<le> length (jEntries (sJournal c)) \<and> al_ok (wAccess (snd q)) \<and>
     undo_all K (ctxStore c) (drop (snd p) (jEntries (sJournal c))) (view K c) = Some (snd q)"

definition sim :: "'k keeper_api \<Rightarrow> ('k, 'e) state_db \<Rightarrow> 'k spec_state \<Rightarrow> bool" where
  "sim K c a \<longleftrightarrow> sdb_ok K c \<and> view K c = spWorld a \<and> nextRevisionID c = spNext a \<and>
     saved_ok K c (0, 0) (0, spBase a) \<and>
     list_all2 (saved_ok K c) (validRevisions c) (spSaved a) \<and> sorted (map snd (validRevisions c)) \<and> sorted_wrt (<) (map fst (validRevisions c)) \<and> (\<forall>p\<in>set (validRevisions c). fst p < spNext a)"

definition spec_init :: "'k world \<Rightarrow> 'k spec_state" where
  "spec_init w = \<lparr>spWorld = w, spSaved = [], spNext = 0, spBase = w\<rparr>"

lemma sim_New: "sim K (New m ctx evs cfg) (spec_init (view K (New m ctx evs cfg)))"
  using New_ok[of K m ctx evs cfg] view_sel(3)[of K "New m ctx evs cfg"]
  by (auto simp: sim_def New_def spec_init_def saved_ok_def newJournal_def sdb_ok_def)

lemma saved_records:
  assumes r: "records K c c'" and sv: "saved_ok K c p q"
  shows "saved_ok K c' p q"
proof -
  obtain new where n: "jEntries (sJournal c') = jEntries (sJournal c) @ new" "undo_all K (ctxStore c) new (view K c') = Some (view K c)"
    using r by (auto simp: records_def)
  show ?thesis using sv r n by (auto simp: saved_ok_def records_def undo_all_append)
qed

lemma sim_op:
  assumes "sim K c a" "op_ok K c c' f"
  shows "sim K c' (a\<lparr>spWorld := f (spWorld a)\<rparr>)"
proof -
  have r: "records K c c'" and v: "view K c' = f (spWorld a)" using assms by (simp_all add: op_ok_def sim_def)
  have "list_all2 (saved_ok K c') (validRevisions c) (spSaved a)"
    using assms(1) by (auto simp: sim_def intro: list_all2_mono saved_records[OF r])
  moreover have "saved_ok K c' (0, 0) (0, spBase a)" using assms(1) by (auto simp: sim_def intro: saved_records[OF r])
  ultimately show ?thesis using assms(1) r v by (simp add: sim_def records_def)
qed

lemma sim_Snapshot:
  assumes "sim K c a" "Snapshot c = (c', rid)"
  shows "sim K c' (spec_snapshot a)" "rid = spNext a"
proof -
  have c': "c' = c\<lparr>nextRevisionID := nextRevisionID c + 1, validRevisions := validRevisions c @ [(nextRevisionID c, length (jEntries (sJournal c)))]\<rparr>"
    and rid: "rid = nextRevisionID c" using assms(2) by (auto simp: Snapshot_def Let_def)
  show "rid = spNext a" using assms(1) by (simp add: rid sim_def)
  have s: "saved_ok K c p q \<Longrightarrow> saved_ok K c' p q" for p q by (simp add: c' saved_ok_def)
  have "list_all2 (saved_ok K c') (validRevisions c) (spSaved a)"
    using assms(1) by (auto simp: sim_def intro: list_all2_mono s)
  moreover have "saved_ok K c' (nextRevisionID c, length (jEntries (sJournal c))) (spNext a, spWorld a)"
    using assms(1) view_sel(3)[of K c] by (auto simp: sim_def c' saved_ok_def sdb_ok_def)
  ultimately have l: "list_all2 (saved_ok K c') (validRevisions c') (spSaved (spec_snapshot a))"
    by (simp add: c' spec_snapshot_def list_all2_appendI)
  have "\<forall>p\<in>set (validRevisions c). snd p \<le> length (jEntries (sJournal c))"
    using assms(1) by (fastforce simp: sim_def saved_ok_def dest: list_all2_nthD in_set_conv_nth[THEN iffD1])
  moreover have "sdb_ok K c'" "saved_ok K c' (0, 0) (0, spBase a)" using assms(1) s by (auto simp: sim_def c' sdb_ok_def inv_es_def)
  ultimately show "sim K c' (spec_snapshot a)"
    using assms(1) l by (auto simp: sim_def c' spec_snapshot_def sorted_append sorted_wrt_append)
qed

lemma takeWhile_distinct:
  assumes "distinct (map fst xs)" "k < length xs" "fst (xs ! k) = r"
  shows "takeWhile (\<lambda>p. fst p \<noteq> r) xs = take k xs" "map_of xs r = Some (snd (xs ! k))"
proof -
  have "fst (xs ! j) \<noteq> r" if "j < k" for j
    using assms that nth_eq_iff_index_eq[of "map fst xs" j k] by auto
  then show "takeWhile (\<lambda>p. fst p \<noteq> r) xs = take k xs" using assms by (intro takeWhile_eq_take_P_nth) auto
  show "map_of xs r = Some (snd (xs ! k))"
    using assms by (metis map_of_eq_Some_iff nth_mem prod.collapse)
qed

lemma saved_reverted:
  assumes sv: "saved_ok K c p q" and i: "snd p \<le> i" "i \<le> length (jEntries (sJournal c))"
    and u: "undo_all K (ctxStore c) (drop i (jEntries (sJournal c))) (view K c) = Some w"
    and c': "jEntries (sJournal c') = take i (jEntries (sJournal c))" "ctxStore c' = ctxStore c" "view K c' = w"
  shows "saved_ok K c' p q"
proof -
  let ?es = "jEntries (sJournal c)"
  have "drop (snd p) ?es = drop (snd p) (take i ?es) @ drop i ?es"
    using i by (subst append_take_drop_id[of i ?es, symmetric], subst drop_append) simp
  then show ?thesis using sv u i c' by (auto simp: saved_ok_def undo_all_append)
qed

lemma sim_RevertToSnapshot:
  assumes "sim K c a"
  shows "case spec_revert r a of Inl e \<Rightarrow> RevertToSnapshot K c r = Inl e
    | Inr a' \<Rightarrow> \<exists>c'. RevertToSnapshot K c r = Inr c' \<and> sim K c' a' \<and> ctxStore c' = ctxStore c \<and> txConfig c' = txConfig c"
proof -
  let ?V = "validRevisions c" and ?S = "spSaved a"
  have sv: "list_all2 (saved_ok K c) ?V ?S" and wf: "sorted_wrt (<) (map fst ?V)" "sorted (map snd ?V)" "sdb_ok K c"
    "\<forall>p\<in>set ?V. fst p < spNext a" "nextRevisionID c = spNext a" "saved_ok K c (0, 0) (0, spBase a)" using assms by (auto simp: sim_def)
  have len: "length ?V = length ?S" and nth: "\<And>i. i < length ?V \<Longrightarrow> saved_ok K c (?V ! i) (?S ! i)" using sv by (auto simp: list_all2_conv_all_nth)
  have ids: "map fst ?V = map fst ?S" using len nth by (auto simp: saved_ok_def intro: nth_equalityI)
  have d: "sorted (map fst ?V)" "distinct (map fst ?V)" using wf(1) by (simp_all add: strict_sorted_iff)
  obtain i where idx: "i = sort_Search (length ?V) (\<lambda>i. fst (?V ! i) \<ge> r)" by blast
  note found = sort_Search_find[OF d(1) idx]
  have fs: "fst ` set ?V = fst ` set ?S" using ids by (metis list.set_map)
  show ?thesis
  proof (cases "r \<in> fst ` set ?V")
    case False
    then have "map_of ?S r = None" by (simp add: fs map_of_eq_None_iff)
    then show ?thesis using False found by (simp add: spec_revert_def RevertToSnapshot_def idx[symmetric])
  next
    case True
    then have ii: "i < length ?V" "fst (?V ! i) = r" using found by auto
    obtain w where w: "?S ! i = (r, w)" using nth[OF ii(1)] ii(2) by (cases "?S ! i") (simp add: saved_ok_def)
    let ?k = "snd (?V ! i)"
    have k: "?k \<le> length (jEntries (sJournal c))" "al_ok (wAccess w)" "undo_all K (ctxStore c) (drop ?k (jEntries (sJournal c))) (view K c) = Some w"
      using nth[OF ii(1)] w by (auto simp: saved_ok_def)
    obtain c1 where c1: "journal_Revert K c ?k = Inr c1" "view K c1 = w" "sdb_ok K c1" "jEntries (sJournal c1) = take ?k (jEntries (sJournal c))"
      "ctxStore c1 = ctxStore c" "txConfig c1 = txConfig c" "validRevisions c1 = ?V" "nextRevisionID c1 = nextRevisionID c"
      using journal_Revert_ok[OF wf(3) k(1,3,2)] by blast
    let ?c = "c1\<lparr>validRevisions := take i ?V\<rparr>"
    have r: "RevertToSnapshot K c r = Inr ?c" using ii c1(1,7) by (simp add: RevertToSnapshot_def idx[symmetric])
    have sp: "spec_revert r a = Inr (a\<lparr>spWorld := w, spSaved := take i ?S\<rparr>)"
      using takeWhile_distinct[of ?S i r] d(2) ii(1) w len ids by (simp add: spec_revert_def)
    have "saved_ok K ?c (?V ! j) (?S ! j)" if "j < i" for j
      using that ii(1) sorted_nth_mono[OF wf(2), of j i] k c1(2,4,5)
      by (intro saved_reverted[OF nth[of j], where w = w and i = ?k]) auto
    then have "list_all2 (saved_ok K ?c) (take i ?V) (take i ?S)" using ii(1) len by (auto simp: list_all2_conv_all_nth)
    moreover have "sdb_ok K ?c" using c1(3) by (simp add: sdb_ok_def inv_es_def)
    moreover have "saved_ok K ?c (0, 0) (0, spBase a)"
      using k c1(2,4,5) by (intro saved_reverted[OF wf(6), where w = w and i = ?k]) auto
    ultimately have "sim K ?c (a\<lparr>spWorld := w, spSaved := take i ?S\<rparr>)"
      using wf c1(2,8) by (auto simp: sim_def take_map[symmetric] sorted_wrt_take dest: in_set_takeD)
    then show ?thesis using r sp c1(5,6) by simp
  qed
qed

section \<open>Runs of operations\<close>

text \<open>The calls the EVM makes, and what each does to a database and to the specification.\<close>

datatype db_op =
    OpCreateAccount address
  | OpAddBalance address int
  | OpSubBalance address int
  | OpSetNonce address "64 word"
  | OpSetCode address "bytes option"
  | OpSetState address hash hash
  | OpSuicide address
  | OpAddRefund "64 word"
  | OpSubRefund "64 word"
  | OpAddLog eth_log
  | OpAddAddress address
  | OpAddSlot address hash
  | OpPrepareAccessList address "address option" "address list" "(address \<times> hash list) list"
  | OpSnapshot
  | OpRevertToSnapshot int

fun exec_op :: "'k keeper_api \<Rightarrow> db_op \<Rightarrow> ('k, 'e) state_db \<Rightarrow> ('k, 'e) state_db result" where
  "exec_op K (OpCreateAccount a) s = Inr (CreateAccount K s a)"
| "exec_op K (OpAddBalance a n) s = Inr (AddBalance K s a n)"
| "exec_op K (OpSubBalance a n) s = Inr (SubBalance K s a n)"
| "exec_op K (OpSetNonce a n) s = Inr (SetNonce K s a n)"
| "exec_op K (OpSetCode a c) s = Inr (SetCode K s a c)"
| "exec_op K (OpSetState a key v) s = Inr (SetState K s a key v)"
| "exec_op K (OpSuicide a) s = Inr (fst (Suicide K s a))"
| "exec_op K (OpAddRefund g) s = Inr (AddRefund s g)"
| "exec_op K (OpSubRefund g) s = SubRefund s g"
| "exec_op K (OpAddLog log) s = Inr (AddLog s log)"
| "exec_op K (OpAddAddress a) s = Inr (AddAddressToAccessList s a)"
| "exec_op K (OpAddSlot a x) s = AddSlotToAccessList s a x"
| "exec_op K (OpPrepareAccessList sender dst pre els) s = PrepareAccessList s sender dst pre els"
| "exec_op K OpSnapshot s = Inr (fst (Snapshot s))"
| "exec_op K (OpRevertToSnapshot r) s = RevertToSnapshot K s r"

fun world_op :: "'k keeper_api \<Rightarrow> 'k \<Rightarrow> TxConfig \<Rightarrow> db_op \<Rightarrow> 'k world \<Rightarrow> 'k world" where
  "world_op K ctx cfg (OpCreateAccount a) = w_create K ctx a"
| "world_op K ctx cfg (OpAddBalance a n) = w_upd K ctx a (\<lambda>v. v\<lparr>vBalance := vBalance v + n\<rparr>)"
| "world_op K ctx cfg (OpSubBalance a n) = w_upd K ctx a (\<lambda>v. v\<lparr>vBalance := vBalance v - n\<rparr>)"
| "world_op K ctx cfg (OpSetNonce a n) = w_upd K ctx a (\<lambda>v. v\<lparr>vNonce := n\<rparr>)"
| "world_op K ctx cfg (OpSetCode a c) =
     w_upd K ctx a (\<lambda>v. v\<lparr>vCodeHash := kKeccak256 K (case c of None \<Rightarrow> [] | Some b \<Rightarrow> b), vCode := c\<rparr>)"
| "world_op K ctx cfg (OpSetState a key x) = w_upd K ctx a (\<lambda>v. v\<lparr>vState := (vState v)(key := x)\<rparr>)"
| "world_op K ctx cfg (OpSuicide a) = w_suicide a"
| "world_op K ctx cfg (OpAddRefund g) = (\<lambda>w. w\<lparr>wRefund := wRefund w + g\<rparr>)"
| "world_op K ctx cfg (OpSubRefund g) = (\<lambda>w. w\<lparr>wRefund := wRefund w - g\<rparr>)"
| "world_op K ctx cfg (OpAddLog log) = w_log cfg log"
| "world_op K ctx cfg (OpAddAddress a) = w_address a"
| "world_op K ctx cfg (OpAddSlot a x) = w_slot a x"
| "world_op K ctx cfg (OpPrepareAccessList sender dst pre els) = w_prepare sender dst pre els"
| "world_op K ctx cfg _ = (\<lambda>w. w)"

fun spec_op :: "'k keeper_api \<Rightarrow> 'k \<Rightarrow> TxConfig \<Rightarrow> db_op \<Rightarrow> 'k spec_state \<Rightarrow> 'k spec_state result" where
  "spec_op K ctx cfg OpSnapshot a = Inr (spec_snapshot a)"
| "spec_op K ctx cfg (OpRevertToSnapshot r) a = spec_revert r a"
| "spec_op K ctx cfg op a =
     (case op of
        OpSubRefund g \<Rightarrow> if wRefund (spWorld a) < g then Inl (Panic ''Refund counter below zero'')
          else Inr (a\<lparr>spWorld := world_op K ctx cfg op (spWorld a)\<rparr>)
      | _ \<Rightarrow> Inr (a\<lparr>spWorld := world_op K ctx cfg op (spWorld a)\<rparr>))"

fun exec_ops :: "'k keeper_api \<Rightarrow> db_op list \<Rightarrow> ('k, 'e) state_db \<Rightarrow> ('k, 'e) state_db result" where
  "exec_ops K [] s = Inr s"
| "exec_ops K (op # ops) s = bind_r (exec_op K op s) (exec_ops K ops)"

fun spec_ops :: "'k keeper_api \<Rightarrow> 'k \<Rightarrow> TxConfig \<Rightarrow> db_op list \<Rightarrow> 'k spec_state \<Rightarrow> 'k spec_state result" where
  "spec_ops K ctx cfg [] a = Inr a"
| "spec_ops K ctx cfg (op # ops) a = bind_r (spec_op K ctx cfg op a) (spec_ops K ctx cfg ops)"

text \<open>Both sides fail alike or end in related states; the store and the configuration do not change.\<close>

definition agree :: "'k keeper_api \<Rightarrow> 'k \<Rightarrow> TxConfig \<Rightarrow> ('k, 'e) state_db result \<Rightarrow> 'k spec_state result \<Rightarrow> bool" where
  "agree K ctx cfg rc ra = (case ra of Inl e \<Rightarrow> rc = Inl e
     | Inr a \<Rightarrow> \<exists>c. rc = Inr c \<and> sim K c a \<and> ctxStore c = ctx \<and> txConfig c = cfg)"

lemma agree_op:
  assumes "sim K c a" "ctxStore c = ctx" "txConfig c = cfg" "op_ok K c c' f"
  shows "agree K ctx cfg (Inr c') (Inr (a\<lparr>spWorld := f (spWorld a)\<rparr>))"
  using sim_op[OF assms(1,4)] assms(2-4) recordsD[of K c c'] by (auto simp: agree_def op_ok_def)

lemma sim_exec_op:
  assumes "sim K c a" and fr: "ctxStore c = ctx" "txConfig c = cfg"
  shows "agree K ctx cfg (exec_op K op c) (spec_op K ctx cfg op a)"
proof -
  have ok: "sdb_ok K c" and rf: "refund c = wRefund (spWorld a)" using assms(1) view_sel(1)[of K c] by (auto simp: sim_def)
  note ag = agree_op[OF assms]
  show ?thesis
  proof (cases op)
    case (OpSuicide x)
    then show ?thesis using ag[OF Suicide_ok(1)[OF ok, of x "fst (Suicide K c x)" "snd (Suicide K c x)"]] by simp
  next
    case (OpSubRefund g)
    then show ?thesis using SubRefund_ok[OF ok, of g] ag rf by (auto simp: agree_def split: if_splits)
  next
    case (OpAddSlot x y)
    then show ?thesis using AddSlotToAccessList_ok[OF ok, of x y] ag by auto
  next
    case (OpPrepareAccessList x1 x2 x3 x4)
    then show ?thesis using PrepareAccessList_ok[OF ok, of x1 x2 x3 x4] ag by auto
  next
    case OpSnapshot
    then show ?thesis using sim_Snapshot(1)[OF assms(1), of "fst (Snapshot c)" "snd (Snapshot c)"] fr
      by (auto simp: agree_def Snapshot_def Let_def)
  next
    case (OpRevertToSnapshot r)
    then show ?thesis using sim_RevertToSnapshot[OF assms(1), of r] fr by (auto simp: agree_def split: sum.splits)
  next
    case (OpCreateAccount x)
    then show ?thesis using ag[OF CreateAccount_ok[OF ok, of x]] fr by simp
  next
    case (OpAddBalance x n)
    then show ?thesis using ag[OF AddBalance_ok[OF ok, of x n]] fr by simp
  next
    case (OpSubBalance x n)
    then show ?thesis using ag[OF SubBalance_ok[OF ok, of x n]] fr by simp
  next
    case (OpSetNonce x n)
    then show ?thesis using ag[OF SetNonce_ok[OF ok, of x n]] fr by simp
  next
    case (OpSetCode x n)
    then show ?thesis using ag[OF SetCode_ok[OF ok, of x n]] fr by simp
  next
    case (OpSetState x y z)
    then show ?thesis using ag[OF SetState_ok[OF ok, of x y z]] fr by simp
  next
    case (OpAddRefund g)
    then show ?thesis using ag[OF AddRefund_ok[OF ok, of g]] fr by simp
  next
    case (OpAddLog l)
    then show ?thesis using ag[OF AddLog_ok[OF ok, of l]] fr by simp
  next
    case (OpAddAddress x)
    then show ?thesis using ag[OF AddAddressToAccessList_ok[OF ok, of x]] fr by simp
  qed
qed

lemma sim_exec_ops:
  assumes "sim K c a" "ctxStore c = ctx" "txConfig c = cfg"
  shows "agree K ctx cfg (exec_ops K ops c) (spec_ops K ctx cfg ops a)"
  using assms
proof (induction ops arbitrary: c a)
  case (Cons op ops)
  show ?case
  proof (cases "spec_op K ctx cfg op a")
    case (Inl e)
    with sim_exec_op[OF Cons.prems, of op] show ?thesis by (simp add: agree_def)
  next
    case (Inr a')
    with sim_exec_op[OF Cons.prems, of op] obtain c' where
      "exec_op K op c = Inr c'" "sim K c' a'" "ctxStore c' = ctx" "txConfig c' = cfg" by (auto simp: agree_def)
    with Inr Cons.IH show ?thesis by simp
  qed
qed (simp add: agree_def)

end
