(* ===== verification/StateDBProps.thy ===== *)
theory StateDBProps
  imports StateDBSnapshots
begin

text \<open>
  The properties of the journalled database over whole runs: the getters read the world of
  the specification, a run of the EVM's calls refines the specification, a snapshot is
  restored by every later revert to it, and the limit on precompile calls.
\<close>

section \<open>The getters read the world\<close>

definition acc_get :: "'k world \<Rightarrow> address \<Rightarrow> (acct_view \<Rightarrow> 'a) \<Rightarrow> 'a \<Rightarrow> 'a" where
  "acc_get w a f d = (case wAcc w a of None \<Rightarrow> d | Some v \<Rightarrow> f v)"

definition shows_world :: "'k keeper_api \<Rightarrow> ('k, 'e) state_db \<Rightarrow> 'k world \<Rightarrow> bool" where
  "shows_world K c w \<longleftrightarrow>
     (\<forall>a. snd (Exist K c a) = (wAcc w a \<noteq> None) \<and>
        snd (Empty K c a) = acc_get w a (\<lambda>v. vNonce v = 0 \<and> vBalance v = 0 \<and> vCodeHash v = emptyHash K) True \<and>
        snd (GetBalance K c a) = acc_get w a vBalance 0 \<and> snd (GetNonce K c a) = acc_get w a vNonce 0 \<and>
        snd (GetCode K c a) = acc_get w a vCode None \<and>
        snd (GetCodeSize K c a) = acc_get w a (\<lambda>v. case vCode v of None \<Rightarrow> 0 | Some code \<Rightarrow> length code) 0 \<and>
        snd (GetCodeHash K c a) = acc_get w a vCodeHash 0 \<and> snd (HasSuicided K c a) = acc_get w a vSuicided False \<and>
        (\<forall>key. snd (GetState K c a key) = acc_get w a (\<lambda>v. vState v key) 0 \<and>
           snd (GetCommittedState K c a key) = acc_get w a (\<lambda>v. vCommitted v key) 0) \<and>
        AddressInAccessList c a = ContainsAddress (wAccess w) a \<and>
        (\<forall>slot. SlotInAccessList c a slot = Contains (wAccess w) a slot)) \<and>
     GetRefund c = wRefund w \<and> sLogs c = wLogs w"

lemma shows_view:
  assumes "sdb_ok K c"
  shows "shows_world K c (view K c)"
proof -
  have inv: "inv_es K c (jEntries (sJournal c))" using assms by (simp add: sdb_ok_def)
  have look: "wAcc (view K c) a = map_option (obj_view K (ctxStore c)) ob" "ctxStore s1 = ctxStore c"
    if "getStateObject K c a = (s1, ob)" for a s1 ob
    using getStateObject_ok(1,2)[OF inv that] reads_fields(1)[of K c s1] by simp_all
  show ?thesis
    unfolding shows_world_def Exist_def Empty_def GetBalance_def GetNonce_def GetCode_def GetCodeSize_def GetCodeHash_def
      HasSuicided_def GetState_def GetCommittedState_def GetRefund_def AddressInAccessList_def SlotInAccessList_def acc_get_def
    by (intro conjI allI; simp add: look obj_view_def so_empty_def view_sel split: prod.split option.split)
qed

section \<open>Refinement over runs\<close>

text \<open>
  \<^bold>\<open>C22.\<close> The journalled database refines the plain world. Whatever sequence of EVM calls is made
  on a new database, snapshots and reverts included, the code fails exactly where and how the
  specification fails, and otherwise every getter returns what the world of the specification
  holds. The specification has no cache, no journal and no dirty counters: a snapshot saves the
  whole world and a revert puts the saved world back.
\<close>

theorem statedb_refines_world:
  "case spec_ops K ctx cfg ops (spec_init (view K (New m ctx evs cfg))) of
     Inl e \<Rightarrow> exec_ops K ops (New m ctx evs cfg) = Inl e
   | Inr a \<Rightarrow> \<exists>c. exec_ops K ops (New m ctx evs cfg) = Inr c \<and> shows_world K c (spWorld a) \<and> nextRevisionID c = spNext a"
proof -
  have n: "ctxStore (New m ctx evs cfg) = ctx" "txConfig (New m ctx evs cfg) = cfg" by (simp_all add: New_def)
  from sim_exec_ops[OF sim_New n, of K ops] show ?thesis
    by (auto simp: agree_def sim_def split: sum.splits dest: shows_view)
qed

section \<open>Snapshots are restored\<close>

text \<open>A saved world stays saved until a revert to it or to an older one.\<close>

definition keeps :: "int \<Rightarrow> 'k world \<Rightarrow> 'k spec_state \<Rightarrow> bool" where
  "keeps r w a \<longleftrightarrow> map_of (spSaved a) r = Some w \<and> sorted_wrt (<) (map fst (spSaved a)) \<and> list_all (\<lambda>p. fst p < spNext a) (spSaved a)"

lemma map_of_takeWhile_sorted:
  assumes "sorted_wrt (<) (map fst xs)" "map_of xs k = Some w" "(k :: int) < r"
  shows "map_of (takeWhile (\<lambda>p. fst p \<noteq> r) xs) k = Some w"
  using assms
proof (induction xs)
  case (Cons x xs)
  then have "fst x \<le> k" using map_of_SomeD[of xs k w] by (fastforce split: if_splits)
  then show ?case using Cons by (auto split: if_splits)
qed simp

lemma sorted_takeWhile_fst: "sorted_wrt (<) (map fst xs) \<Longrightarrow> sorted_wrt (<) (map fst (takeWhile P xs))"
  by (metis takeWhile_eq_take take_map sorted_wrt_take)

lemma keeps_spec_op:
  assumes "keeps r w a" "spec_op K ctx cfg op a = Inr a'" "\<And>r'. op = OpRevertToSnapshot r' \<Longrightarrow> r < r'"
  shows "keeps r w a'"
proof (cases op)
  case OpSnapshot
  have "spNext a \<notin> fst ` set (spSaved a)" "list_all (\<lambda>p. fst p < spNext a + 1) (spSaved a)"
    using assms(1) by (force simp: keeps_def list_all_iff)+
  moreover have "a' = spec_snapshot a" using OpSnapshot assms(2) by simp
  ultimately show ?thesis using assms(1)
    by (auto simp: keeps_def spec_snapshot_def sorted_wrt_append map_add_Some_iff map_of_eq_None_iff list_all_iff)
next
  case (OpRevertToSnapshot r')
  have "list_all P xs \<Longrightarrow> list_all P (takeWhile Q xs)" for P Q :: "int \<times> 'a world \<Rightarrow> bool" and xs
    by (auto simp: list_all_iff dest: set_takeWhileD)
  with OpRevertToSnapshot show ?thesis using assms
    by (auto simp: keeps_def spec_revert_def map_of_takeWhile_sorted sorted_takeWhile_fst split: option.splits)
qed (use assms in \<open>auto simp: keeps_def split: if_splits\<close>)

lemma keeps_spec_ops:
  assumes "keeps r w a" "spec_ops K ctx cfg ops a = Inr a'" "\<And>r'. OpRevertToSnapshot r' \<in> set ops \<Longrightarrow> r < r'"
  shows "keeps r w a'"
  using assms
proof (induction ops arbitrary: a)
  case (Cons op ops)
  then obtain a1 where "spec_op K ctx cfg op a = Inr a1" "spec_ops K ctx cfg ops a1 = Inr a'" by (auto simp: bind_r_eq_Inr)
  then show ?case using Cons keeps_spec_op[of r w a K ctx cfg op a1] by fastforce
qed simp

lemma sim_runE:
  assumes "exec_ops K ops c = Inr c'" "sim K c a" "ctxStore c = ctx" "txConfig c = cfg"
  obtains a' where "spec_ops K ctx cfg ops a = Inr a'" "sim K c' a'" "ctxStore c' = ctx" "txConfig c' = cfg"
  using sim_exec_ops[OF assms(2-4), of ops] assms(1) by (auto simp: agree_def split: sum.splits)

lemma sim_runs_New:
  assumes "exec_ops K ops (New m ctx evs cfg) = Inr c"
  obtains a where "sim K c a" "ctxStore c = ctx" "txConfig c = cfg"
    "spec_ops K ctx cfg ops (spec_init (view K (New m ctx evs cfg))) = Inr a"
  by (rule sim_runE[OF assms sim_New, of ctx cfg]) (auto simp: New_def)

lemma sim_saved:
  assumes "sim K c a"
  shows "sorted_wrt (<) (map fst (spSaved a))" "\<forall>p\<in>set (spSaved a). fst p < spNext a"
proof -
  have l: "list_all2 (saved_ok K c) (validRevisions c) (spSaved a)" "sorted_wrt (<) (map fst (validRevisions c))"
    "\<forall>p\<in>set (validRevisions c). fst p < spNext a" using assms by (simp_all add: sim_def)
  then have ids: "map fst (validRevisions c) = map fst (spSaved a)"
    by (intro nth_equalityI) (auto simp: saved_ok_def list_all2_conv_all_nth)
  then have "fst ` set (validRevisions c) = fst ` set (spSaved a)" by (metis list.set_map)
  moreover have "fst p < spNext a" if "fst p \<in> fst ` set (validRevisions c)" for p :: "int \<times> 'a world"
    using that l(3) by (elim imageE) simp
  ultimately show "sorted_wrt (<) (map fst (spSaved a))" "\<forall>p\<in>set (spSaved a). fst p < spNext a" using ids l(2) by simp_all
qed

lemma keeps_snapshot:
  assumes "sim K c a" "Snapshot c = (c1, rid)"
  shows "keeps rid (spWorld a) (spec_snapshot a)"
  using sim_saved[OF assms(1)] sim_saved[OF sim_Snapshot(1)[OF assms]] sim_Snapshot(2)[OF assms]
  by (auto simp: keeps_def spec_snapshot_def map_add_Some_iff map_of_eq_None_iff list_all_iff)

text \<open>
  \<^bold>\<open>C23.\<close> Reverting a call frame undoes everything it did. Take a snapshot of any database the EVM can
  reach and run any calls after it, nested frames with their own snapshots and reverts included,
  as long as none of them reverts to this snapshot or an older one. Then the revert succeeds and
  every getter returns what it returned when the snapshot was taken.
\<close>

theorem RevertToSnapshot_restores:
  assumes "exec_ops K pre (New m ctx evs cfg) = Inr c" "Snapshot c = (c1, rid)" "exec_ops K ops c1 = Inr c2"
    "\<And>r. OpRevertToSnapshot r \<in> set ops \<Longrightarrow> rid < r"
  shows "\<exists>c3. RevertToSnapshot K c2 rid = Inr c3 \<and> shows_world K c (view K c) \<and> shows_world K c3 (view K c)"
proof (rule sim_runs_New[OF assms(1)])
  fix a assume a: "sim K c a" "ctxStore c = ctx" "txConfig c = cfg"
  note s1 = sim_Snapshot[OF a(1) assms(2)]
  have cs: "ctxStore c1 = ctx" "txConfig c1 = cfg" using assms(2) a(2,3) by (auto simp: Snapshot_def Let_def)
  obtain a2 where a2: "spec_ops K ctx cfg ops (spec_snapshot a) = Inr a2" "sim K c2 a2"
    by (rule sim_runE[OF assms(3) s1(1) cs])
  from keeps_spec_ops[OF keeps_snapshot[OF a(1) assms(2)] a2(1) assms(4)] have "map_of (spSaved a2) rid = Some (view K c)"
    using a(1) by (simp add: keeps_def sim_def)
  then show ?thesis using sim_RevertToSnapshot[OF a2(2), of rid] a(1)
    by (auto simp: spec_revert_def sim_def dest!: shows_view)
qed

text \<open>A store of balances for concrete runs: no code, no slots, and a hash that counts bytes.\<close>

definition memKeeper :: "(address \<times> int) list keeper_api" where
  "memKeeper = \<lparr>kGetAccount = (\<lambda>k a. map_option (\<lambda>b. \<lparr>rNonce = 0, rBalance = Some b, rCodeHash = None\<rparr>) (map_of k a)),
     kGetState = (\<lambda>k a key. 0), kGetCode = (\<lambda>k h. None), kStorage = (\<lambda>k a. []),
     kSetAccount = (\<lambda>k a acct. Inr (AList.update a (aBalance acct) k)), kSetState = (\<lambda>k a key v. k),
     kSetCode = (\<lambda>k h c. k), kDeleteAccount = (\<lambda>k a. Inr (AList.delete a k)),
     kKeccak256 = (\<lambda>c. of_nat (length c)), cmsWrite = (\<lambda>c k. c)\<rparr>"

definition demoDB :: "((address \<times> int) list, nat) state_db" where
  "demoDB = New True [(7, 100)] [] (NewEmptyTxConfig 0)"

definition demoPre :: "db_op list" where
  "demoPre = [OpSubBalance 7 30, OpAddBalance 8 30, OpSnapshot, OpSetState 8 1 5]"

definition demoFrame :: "db_op list" where
  "demoFrame = [OpSetState 8 1 9, OpSnapshot, OpSuicide 8, OpRevertToSnapshot 2, OpAddBalance 9 4]"

definition demoRun :: "((address \<times> int) list, nat) state_db result" where
  "demoRun = bind_r (exec_ops memKeeper demoPre demoDB) (\<lambda>c. exec_ops memKeeper demoFrame (fst (Snapshot c)))"

lemmas db_eval = New_def newJournal_def SubBalance_def so_SubBalance_def AddBalance_def so_AddBalance_def so_SetBalance_def getOrNewStateObject_def
  getStateObject_def createObject_def setStateObject_def newObject_def setBalance_def s_append_def journal_append_def dirty_count_def
  SetState_def so_SetState_def so_GetState_def so_GetCommittedState_def setState_def Snapshot_def Suicide_def bind_r_def Let_def
  journal_Revert_def on_object_def undirty_def RevertToSnapshot_def sort_Search_def sort_Search_loop.simps GetState_def GetBalance_def Exist_def
  memKeeper_def demoDB_def demoPre_def demoFrame_def demoRun_def

lemma demoRun_ok:
  "(case exec_ops memKeeper demoPre demoDB of Inl _ \<Rightarrow> False | Inr c \<Rightarrow> snd (Snapshot c) = 1 \<and> snd (GetState memKeeper c 8 1) = 5)"
  "(case demoRun of Inl _ \<Rightarrow> False | Inr c2 \<Rightarrow> snd (GetState memKeeper c2 8 1) = 9 \<and> snd (GetBalance memKeeper c2 9) = 4)"
  by (simp_all add: db_eval)

theorem RevertToSnapshot_restores_witness:
  "\<exists>c c2 c3. exec_ops memKeeper demoPre demoDB = Inr c \<and> exec_ops memKeeper demoFrame (fst (Snapshot c)) = Inr c2 \<and>
     snd (GetState memKeeper c2 8 1) = 9 \<and> RevertToSnapshot memKeeper c2 1 = Inr c3 \<and> snd (GetState memKeeper c3 8 1) = 5"
proof -
  from demoRun_ok(1) obtain c where c: "exec_ops memKeeper demoPre demoDB = Inr c" "snd (Snapshot c) = 1" "snd (GetState memKeeper c 8 1) = 5"
    by (auto split: sum.splits)
  from demoRun_ok(2) c(1) obtain c2 where c2: "exec_ops memKeeper demoFrame (fst (Snapshot c)) = Inr c2" "snd (GetState memKeeper c2 8 1) = 9"
    by (auto simp: demoRun_def split: sum.splits)
  have "\<exists>c3. RevertToSnapshot memKeeper c2 1 = Inr c3 \<and> shows_world memKeeper c (view memKeeper c) \<and> shows_world memKeeper c3 (view memKeeper c)"
    by (rule RevertToSnapshot_restores[OF c(1)[unfolded demoDB_def] _ c2(1)])
      (use c(2) in \<open>auto simp: demoFrame_def prod_eq_iff\<close>)
  then obtain c3 where c3: "RevertToSnapshot memKeeper c2 1 = Inr c3" "snd (GetState memKeeper c3 8 1) = snd (GetState memKeeper c 8 1)"
    by (auto simp: shows_world_def)
  with c c2 show ?thesis by auto
qed

section \<open>The limit on precompile calls\<close>

text \<open>The precompile calls of a transaction, with the error each of them gets.\<close>

fun add_precompiles :: "'k keeper_api \<Rightarrow> (address \<times> 'k \<times> 'e list) list \<Rightarrow> ('k, 'e) state_db \<Rightarrow> ('k, 'e) state_db \<times> err option list" where
  "add_precompiles K [] s = (s, [])"
| "add_precompiles K ((addr, cms, events) # calls) s =
     (case AddPrecompileFn K s addr cms events of
        (s1, e) \<Rightarrow> (case add_precompiles K calls s1 of (s2, es) \<Rightarrow> (s2, e # es)))"

lemma AddPrecompileFn_counter:
  "precompileCallsCounter (fst (AddPrecompileFn K s a cms evs)) = precompileCallsCounter s + 1"
  "snd (AddPrecompileFn K s a cms evs) \<noteq> None \<longleftrightarrow> MaxPrecompileCalls < precompileCallsCounter s + 1"
  by (auto simp: AddPrecompileFn_def getOrNewStateObject_def getStateObject_def createObject_def s_append_def setStateObject_def Let_def
    split: option.split prod.split)

lemma add_precompiles_nth:
  "i < length calls \<Longrightarrow> (snd (add_precompiles K calls s) ! i \<noteq> None) \<longleftrightarrow> MaxPrecompileCalls < precompileCallsCounter s + of_nat (Suc i)"
proof (induction calls arbitrary: s i)
  case (Cons p calls)
  obtain a cms evs where p: "p = (a, cms, evs)" by (cases p)
  obtain s1 e where s1: "AddPrecompileFn K s a cms evs = (s1, e)" by (cases "AddPrecompileFn K s a cms evs")
  note ct = AddPrecompileFn_counter[of K s a cms evs, unfolded s1 fst_conv snd_conv]
  show ?case
  proof (cases i)
    case (Suc j)
    have "snd (add_precompiles K (p # calls) s) ! i = snd (add_precompiles K calls s1) ! j" by (simp add: p s1 Suc split: prod.split)
    with Cons.IH[of j s1] Cons.prems ct(1) show ?thesis by (simp add: Suc add.assoc)
  qed (use ct in \<open>auto simp: p s1 split: prod.split\<close>)
qed simp

text \<open>
  \<^bold>\<open>C24.\<close> The limit of seven precompile calls per transaction wraps around. In a new database the call
  number n gets the error exactly when n modulo 256 is above seven: the eighth call is refused,
  but the counter is a byte that also counts refused calls, so the 256th and the seven calls after
  it are accepted again.
\<close>

theorem precompile_limit_wraps:
  assumes "i < length calls"
  shows "(snd (add_precompiles K calls (New m ctx evs cfg)) ! i \<noteq> None) \<longleftrightarrow> 7 < (i + 1) mod 256"
proof -
  have "(MaxPrecompileCalls < of_nat (Suc i)) \<longleftrightarrow> 7 < (i + 1) mod 256"
    by (simp add: MaxPrecompileCalls_def word_less_nat_alt unat_of_nat del: of_nat_Suc)
  then show ?thesis using add_precompiles_nth[OF assms, of K "New m ctx evs cfg"] by (simp add: New_def)
qed

theorem precompile_limit_wraps_witness:
  "snd (add_precompiles memKeeper (replicate 300 (4, [], [])) (New True [] [] (NewEmptyTxConfig 0))) ! 7 \<noteq> None \<and>
   snd (add_precompiles memKeeper (replicate 300 (4, [], [])) (New True [] [] (NewEmptyTxConfig 0))) ! 255 = None"
  using precompile_limit_wraps[of 7 "replicate 300 (4, [], [])" memKeeper True "[]" "[]" "NewEmptyTxConfig 0"]
    precompile_limit_wraps[of 255 "replicate 300 (4, [], [])" memKeeper True "[]" "[]" "NewEmptyTxConfig 0"] by simp

end
