(* ===== verification/StateDBCommit.thy ===== *)
theory StateDBCommit
  imports StateDBProps
begin

text \<open>
  What a commit leaves in the keeper. The locale \<open>keeper_laws\<close> is the contract of the
  \<^verbatim>\<open>Keeper\<close> interface; under it the commit of any database the EVM can reach stores
  exactly the world of the specification.
\<close>

section \<open>The contract of the keeper\<close>

abbreviation stored_account :: "64 word \<Rightarrow> int \<Rightarrow> hash \<Rightarrow> raw_account" where
  "stored_account n b h \<equiv> \<lparr>rNonce = n, rBalance = Some b, rCodeHash = Some h\<rparr>"

definition same_code :: "bytes \<Rightarrow> bytes option" where
  "same_code c = (if c = [] then None else Some c)"

definition stored :: "'k keeper_api \<Rightarrow> 'k \<Rightarrow> acct_view \<Rightarrow> address \<Rightarrow> bool" where
  "stored K k v a \<longleftrightarrow> (if vSuicided v then kGetAccount K k a = None
     else kGetAccount K k a = Some (stored_account (vNonce v) (vBalance v) (vCodeHash v)) \<and> kGetState K k a = vState v)"

definition obj_ok :: "'k keeper_api \<Rightarrow> 'k \<Rightarrow> (address \<Rightarrow> bool) \<Rightarrow> 'k \<Rightarrow> address \<Rightarrow> state_object \<Rightarrow> bool" where
  "obj_ok K ctx hc k a so \<longleftrightarrow> soAddress so = a \<and> kGetState K k a = vCommitted (obj_view K ctx so) \<and> (hc a \<or> aCodeHash (soAccount so) = emptyHash K)"

lemma obj_okD:
  assumes "obj_ok K ctx hc k a so"
  shows "soAddress so = a" "kGetState K k (soAddress so) = vCommitted (obj_view K ctx so)" "hc (soAddress so) \<or> aCodeHash (soAccount so) = emptyHash K"
  using assms by (auto simp: obj_ok_def)

lemma SortedKeys_set: "set (SortedKeys st) = dom (map_of st)"
  by (simp add: SortedKeys_def dom_map_of_conv_image_fst)

locale keeper_laws =
  fixes K :: "'k keeper_api" and kok :: "'k \<Rightarrow> bool" and holds_code :: "'k \<Rightarrow> address \<Rightarrow> bool"
  assumes SetAccount_law: "kok k \<Longrightarrow> holds_code k a \<or> aCodeHash acct = emptyHash K \<Longrightarrow> kSetAccount K k a acct = Inr k' \<Longrightarrow>
      kok k' \<and> holds_code k' = holds_code k \<and> kGetAccount K k' = (kGetAccount K k)(a \<mapsto> stored_account (aNonce acct) (aBalance acct) (aCodeHash acct)) \<and>
      kGetState K k' = kGetState K k \<and> kGetCode K k' = kGetCode K k"
    and SetState_law: "kok k \<Longrightarrow>
      kok (kSetState K k a key v) \<and> holds_code (kSetState K k a key v) = holds_code k \<and> kGetState K (kSetState K k a key v) = (kGetState K k)(a := (kGetState K k a)(key := v)) \<and>
      kGetAccount K (kSetState K k a key v) = kGetAccount K k \<and> kGetCode K (kSetState K k a key v) = kGetCode K k"
    and SetCode_law: "kok k \<Longrightarrow>
      kok (kSetCode K k h c) \<and> holds_code (kSetCode K k h c) = holds_code k \<and> kGetCode K (kSetCode K k h c) = (kGetCode K k)(h := same_code c) \<and>
      kGetAccount K (kSetCode K k h c) = kGetAccount K k \<and> kGetState K (kSetCode K k h c) = kGetState K k"
    and DeleteAccount_law: "kok k \<Longrightarrow> kDeleteAccount K k a = Inr k' \<Longrightarrow>
      kok k' \<and> holds_code k' = holds_code k \<and> kGetAccount K k' = (kGetAccount K k)(a := None) \<and> (\<forall>b. b \<noteq> a \<longrightarrow> kGetState K k' b = kGetState K k b) \<and>
      (kGetAccount K k a \<noteq> None \<longrightarrow> kGetState K k' a = (\<lambda>_. 0)) \<and> kGetCode K k' = kGetCode K k"
begin

lemma fold_SetState:
  assumes "kok k"
  shows "kok (foldl (\<lambda>c key. kSetState K c a key (f key)) k keys) \<and>
    holds_code (foldl (\<lambda>c key. kSetState K c a key (f key)) k keys) = holds_code k \<and>
    kGetState K (foldl (\<lambda>c key. kSetState K c a key (f key)) k keys) =
      (kGetState K k)(a := (\<lambda>key. if key \<in> set keys then f key else kGetState K k a key)) \<and>
    kGetAccount K (foldl (\<lambda>c key. kSetState K c a key (f key)) k keys) = kGetAccount K k \<and>
    kGetCode K (foldl (\<lambda>c key. kSetState K c a key (f key)) k keys) = kGetCode K k"
  using assms
proof (induction keys arbitrary: k)
  case (Cons key keys)
  note l = SetState_law[OF Cons.prems, of a key "f key"]
  then show ?case using Cons.IH[of "kSetState K k a key (f key)"] by (auto simp: fun_eq_iff)
qed auto

lemma commit_object_ok:
  assumes "kok k" "commit_object K k so = Inr k'" "kGetState K k (soAddress so) = vCommitted (obj_view K ctx so)"
    "holds_code k (soAddress so) \<or> aCodeHash (soAccount so) = emptyHash K"
  shows "kok k'" "stored K k' (obj_view K ctx so) (soAddress so)"
    "b \<noteq> soAddress so \<Longrightarrow> kGetAccount K k' b = kGetAccount K k b \<and> kGetState K k' b = kGetState K k b"
    "kGetCode K k' = (case soCode so of Some c \<Rightarrow> if \<not> suicided so \<and> dirtyCode so
       then (kGetCode K k)(aCodeHash (soAccount so) := same_code c) else kGetCode K k | None \<Rightarrow> kGetCode K k)"
    "holds_code k' = holds_code k"
proof -
  have v: "vSuicided (obj_view K ctx so) = suicided so" "vNonce (obj_view K ctx so) = aNonce (soAccount so)"
    "vBalance (obj_view K ctx so) = aBalance (soAccount so)" "vCodeHash (obj_view K ctx so) = aCodeHash (soAccount so)"
    "vState (obj_view K ctx so) = (\<lambda>key. case map_of (dirtyStorage so) key of Some x \<Rightarrow> x | None \<Rightarrow> vCommitted (obj_view K ctx so) key)"
    by (auto simp: obj_view_def so_GetState_def fun_eq_iff split: option.splits)
  have "kok k' \<and> stored K k' (obj_view K ctx so) (soAddress so) \<and>
    (\<forall>b. b \<noteq> soAddress so \<longrightarrow> kGetAccount K k' b = kGetAccount K k b \<and> kGetState K k' b = kGetState K k b) \<and>
    kGetCode K k' = (case soCode so of Some c \<Rightarrow> if \<not> suicided so \<and> dirtyCode so
       then (kGetCode K k)(aCodeHash (soAccount so) := same_code c) else kGetCode K k | None \<Rightarrow> kGetCode K k) \<and> holds_code k' = holds_code k"
  proof (cases "suicided so")
    case True
    then show ?thesis using assms(2) DeleteAccount_law[OF assms(1), of "soAddress so" k']
      by (auto simp: commit_object_def stored_def v split: option.splits)
  next
    case False
    define k1 where "k1 = (case soCode so of Some code \<Rightarrow> if dirtyCode so then kSetCode K k (aCodeHash (soAccount so)) code else k | None \<Rightarrow> k)"
    have k1: "kok k1" "holds_code k1 = holds_code k" "kGetAccount K k1 = kGetAccount K k" "kGetState K k1 = kGetState K k"
      "kGetCode K k1 = (case soCode so of Some c \<Rightarrow> if dirtyCode so then (kGetCode K k)(aCodeHash (soAccount so) := same_code c) else kGetCode K k | None \<Rightarrow> kGetCode K k)"
      using SetCode_law[OF assms(1)] assms(1) by (auto simp: k1_def split: option.split)
    obtain k2 where k2: "kSetAccount K k1 (soAddress so) (soAccount so) = Inr k2"
      "k' = foldl (\<lambda>c key. kSetState K c (soAddress so) key (the (map_of (dirtyStorage so) key))) k2 (SortedKeys (dirtyStorage so))"
      using assms(2) False by (auto simp: commit_object_def k1_def[symmetric] Let_def bind_r_eq_Inr)
    have "holds_code k1 (soAddress so) \<or> aCodeHash (soAccount so) = emptyHash K" using assms(4) k1(2) by simp
    note l2 = SetAccount_law[OF k1(1) this k2(1)]
    note l3 = fold_SetState[OF l2[THEN conjunct1], of "soAddress so" "\<lambda>key. the (map_of (dirtyStorage so) key)" "SortedKeys (dirtyStorage so)",
      folded k2(2)]
    have "kGetState K k' (soAddress so) = vState (obj_view K ctx so)"
      using l2 l3 k1 assms(3)
      by (simp add: v fun_eq_iff SortedKeys_set dom_def split: option.split)
    then show ?thesis using l2 l3 k1 False by (auto simp: stored_def v split: option.splits)
  qed
  then show "kok k'" "stored K k' (obj_view K ctx so) (soAddress so)"
    "b \<noteq> soAddress so \<Longrightarrow> kGetAccount K k' b = kGetAccount K k b \<and> kGetState K k' b = kGetState K k b"
    "kGetCode K k' = (case soCode so of Some c \<Rightarrow> if \<not> suicided so \<and> dirtyCode so
       then (kGetCode K k)(aCodeHash (soAccount so) := same_code c) else kGetCode K k | None \<Rightarrow> kGetCode K k)" "holds_code k' = holds_code k" by blast+
qed

lemma stored_cong: "kGetAccount K k' a = kGetAccount K k a \<Longrightarrow> kGetState K k' a = kGetState K k a \<Longrightarrow> stored K k' v a = stored K k v a"
  by (simp add: stored_def)

lemma commit_loop_ok:
  assumes "kok k" "commit_loop K objs addrs k = Inr k'" "distinct addrs"
    "\<And>a so. a \<in> set addrs \<Longrightarrow> objs a = Some so \<Longrightarrow> obj_ok K ctx (holds_code k) k a so"
  shows "kok k'" "a \<in> set addrs \<Longrightarrow> \<exists>so. objs a = Some so \<and> stored K k' (obj_view K ctx so) a"
    "a \<notin> set addrs \<Longrightarrow> kGetAccount K k' a = kGetAccount K k a \<and> kGetState K k' a = kGetState K k a"
proof -
  have "kok k' \<and> (a \<in> set addrs \<longrightarrow> (\<exists>so. objs a = Some so \<and> stored K k' (obj_view K ctx so) a)) \<and>
    (a \<notin> set addrs \<longrightarrow> kGetAccount K k' a = kGetAccount K k a \<and> kGetState K k' a = kGetState K k a)" for a
    using assms
  proof (induction addrs arbitrary: k)
    case (Cons x xs)
    obtain so k1 where so: "objs x = Some so" "commit_object K k so = Inr k1" "commit_loop K objs xs k1 = Inr k'"
      using Cons.prems(2) by (auto simp: bind_r_eq_Inr split: option.splits)
    have "obj_ok K ctx (holds_code k) k x so" using Cons.prems(4)[of x so] so(1) by simp
    note x = obj_okD[OF this]
    note o = commit_object_ok[OF Cons.prems(1) so(2) x(2,3)]
    have "obj_ok K ctx (holds_code k1) k1 b so'" if "b \<in> set xs" "objs b = Some so'" for b so'
      using Cons.prems(3,4) that o(3)[of b] o(5) x(1) by (auto simp: obj_ok_def)
    with Cons.IH[OF o(1) so(3)] Cons.prems(3) have ih: "kok k' \<and> (a \<in> set xs \<longrightarrow> (\<exists>so. objs a = Some so \<and> stored K k' (obj_view K ctx so) a)) \<and>
      (a \<notin> set xs \<longrightarrow> kGetAccount K k' a = kGetAccount K k1 a \<and> kGetState K k' a = kGetState K k1 a)" by simp
    show ?case
    proof (cases "a = x")
      case True
      then show ?thesis using ih Cons.prems(3) o(2) so(1) x(1) stored_cong[of k' a k1] by auto
    qed (use ih o(3)[of a] x(1) in auto)
  qed simp
  then show "kok k'" "a \<in> set addrs \<Longrightarrow> \<exists>so. objs a = Some so \<and> stored K k' (obj_view K ctx so) a"
    "a \<notin> set addrs \<Longrightarrow> kGetAccount K k' a = kGetAccount K k a \<and> kGetState K k' a = kGetState K k a" by blast+
qed

end

section \<open>What is dirty\<close>

text \<open>Undoing an entry leaves the accounts it neither dirties nor resets.\<close>

fun resets :: "('k, 'e) journal_entry \<Rightarrow> address option" where
  "resets (resetObjectChange prev) = Some (soAddress prev)"
| "resets _ = None"

lemma undo_view_clean:
  "undo_view K ctx e w = Some w' \<Longrightarrow> Dirtied e \<noteq> Some a \<Longrightarrow> resets e \<noteq> Some a \<Longrightarrow> wAcc w' a = wAcc w a"
  by (cases e) (auto simp: w_change_def split: if_splits option.splits sum.splits)

lemma undo_all_clean:
  assumes "undo_all K ctx es w = Some w'" "dirt a es = 0" "\<forall>e\<in>set es. resets e \<noteq> Some a"
  shows "wAcc w' a = wAcc w a"
  using assms
proof (induction es arbitrary: w')
  case (Cons e es)
  then obtain w1 where "undo_all K ctx es w = Some w1" "undo_view K ctx e w1 = Some w'" by (auto simp: Option.bind_eq_Some_conv)
  then show ?case using Cons undo_view_clean[of K ctx e w1 w' a] by (auto simp: dirt_def split: if_splits)
qed simp

lemma dirties_dirt:
  assumes "sdb_ok K s"
  shows "a \<in> set (sortedDirties (sJournal s)) \<longleftrightarrow> dirt a (jEntries (sJournal s)) \<noteq> 0"
proof -
  have "a \<in> set (sortedDirties (sJournal s)) \<longleftrightarrow> map_of (dirties (sJournal s)) a \<noteq> None"
    by (simp add: sortedDirties_def map_of_eq_None_iff)
  then show ?thesis using assms by (simp add: sdb_ok_def inv_es_def)
qed

lemma dirty_object:
  assumes "sdb_ok K s" "a \<in> set (sortedDirties (sJournal s))"
  obtains so where "stateObjects s a = Some so" "soAddress so = a"
proof -
  have "dirt a (jEntries (sJournal s)) \<noteq> 0" using assms by (simp add: dirties_dirt)
  then obtain e where "e \<in> set (jEntries (sJournal s))" "Dirtied e = Some a" by (auto simp: dirt_def filter_empty_conv)
  then show ?thesis using assms(1) that unfolding sdb_ok_def inv_es_def by blast
qed

section \<open>Committed slots stay those of the store\<close>

definition committed_w :: "'k keeper_api \<Rightarrow> 'k \<Rightarrow> 'k world \<Rightarrow> bool" where
  "committed_w K ctx w \<longleftrightarrow> (\<forall>a v. wAcc w a = Some v \<longrightarrow> vCommitted v = kGetState K ctx a)"

definition committed_sp :: "'k keeper_api \<Rightarrow> 'k \<Rightarrow> 'k spec_state \<Rightarrow> bool" where
  "committed_sp K ctx a \<longleftrightarrow> committed_w K ctx (spWorld a) \<and> (\<forall>p\<in>set (spSaved a). committed_w K ctx (snd p))"

lemma new_committed: "vCommitted (obj_view K ctx (newObject K a r)) = kGetState K ctx a"
  by (auto simp: obj_view_def so_GetCommittedState_def newObject_def Let_def)

lemma committed_view_New: "committed_w K ctx (view K (New m ctx evs cfg))"
  by (auto simp: committed_w_def view_def New_def new_committed)

lemma committed_upd:
  assumes "\<And>v. vCommitted (f v) = vCommitted v" "committed_w K ctx w"
  shows "committed_w K ctx (w_upd K ctx a f w)"
  using assms by (auto simp: committed_w_def w_upd_def w_touch_def new_committed split: option.splits)

lemma committed_create: "committed_w K ctx w \<Longrightarrow> committed_w K ctx (w_create K ctx a w)"
  by (auto simp: committed_w_def w_create_def new_committed)

lemma committed_suicide: "committed_w K ctx w \<Longrightarrow> committed_w K ctx (w_suicide a w)"
  by (auto simp: committed_w_def w_suicide_def split: if_splits)

lemma committed_keep: "committed_w K ctx w \<Longrightarrow> wAcc w' = wAcc w \<Longrightarrow> committed_w K ctx w'"
  by (simp add: committed_w_def)

lemma access_wAcc [simp]:
  "wAcc (w_address a w) = wAcc w" "wAcc (w_slot a x w) = wAcc w" "wAcc (fold (w_slot a) xs w) = wAcc w"
  "wAcc (w_tuple el w) = wAcc w" "wAcc (fold w_address as w) = wAcc w" "wAcc (fold w_tuple els w) = wAcc w" "wAcc (w_log cfg log w) = wAcc w"
proof -
  show slot: "wAcc (w_slot a x w) = wAcc w" for w :: "'a world" and a x by (simp add: w_slot_def)
  show slots: "wAcc (fold (w_slot a) xs w) = wAcc w" for w :: "'a world" and a xs
    by (induction xs arbitrary: w) (simp_all add: slot)
  show ad: "wAcc (w_address a w) = wAcc w" for w :: "'a world" and a by (simp add: w_address_def)
  show tup: "wAcc (w_tuple el w) = wAcc w" for w :: "'a world" and el by (simp add: w_tuple_def slots ad)
  show "wAcc (fold w_address as w) = wAcc w" by (induction as arbitrary: w) (simp_all add: ad)
  show "wAcc (fold w_tuple els w) = wAcc w" by (induction els arbitrary: w) (simp_all add: tup)
  show "wAcc (w_log cfg log w) = wAcc w" by (simp add: w_log_def)
qed

lemma committed_world_op: "committed_w K ctx w \<Longrightarrow> committed_w K ctx (world_op K ctx cfg op w)"
  by (cases op) (simp_all add: committed_upd committed_create committed_suicide w_prepare_def committed_keep[of K ctx w])

lemma committed_spec_op:
  assumes "committed_sp K ctx a" "spec_op K ctx cfg op a = Inr a'"
  shows "committed_sp K ctx a'"
proof (cases op)
  case (OpRevertToSnapshot r)
  then show ?thesis using assms
    by (auto simp: committed_sp_def spec_revert_def split: option.splits dest!: map_of_SomeD dest: set_takeWhileD) (metis set_takeWhileD snd_conv)+
qed (use assms committed_world_op[of K ctx "spWorld a" cfg op] in \<open>auto simp: committed_sp_def spec_snapshot_def split: if_splits\<close>)

lemma committed_spec_ops: "spec_ops K ctx cfg ops a = Inr a' \<Longrightarrow> committed_sp K ctx a \<Longrightarrow> committed_sp K ctx a'"
  by (induction ops arbitrary: a) (auto simp: bind_r_eq_Inr dest: committed_spec_op)

lemma base_spec_op: "spec_op K ctx cfg op a = Inr a' \<Longrightarrow> spBase a' = spBase a"
  by (cases op) (auto simp: spec_snapshot_def spec_revert_def split: if_splits option.splits)

lemma base_spec_ops: "spec_ops K ctx cfg ops a = Inr a' \<Longrightarrow> spBase a' = spBase a"
  by (induction ops arbitrary: a) (auto simp: bind_r_eq_Inr dest: base_spec_op)

section \<open>Reading a committed database again\<close>

definition rereads :: "'k keeper_api \<Rightarrow> ('k, 'e) state_db \<Rightarrow> ('k, 'e) state_db \<Rightarrow> address \<Rightarrow> bool" where
  "rereads K c c2 a \<longleftrightarrow>
     snd (Exist K c2 a) = (snd (Exist K c a) \<and> \<not> snd (HasSuicided K c a)) \<and>
     (\<not> snd (HasSuicided K c a) \<longrightarrow>
        snd (GetBalance K c2 a) = snd (GetBalance K c a) \<and> snd (GetNonce K c2 a) = snd (GetNonce K c a) \<and>
        snd (GetCodeHash K c2 a) = snd (GetCodeHash K c a) \<and> (\<forall>key. snd (GetState K c2 a key) = snd (GetState K c a key)))"

definition fresh_acc :: "'k keeper_api \<Rightarrow> 'k \<Rightarrow> address \<Rightarrow> acct_view option" where
  "fresh_acc K k a = map_option (\<lambda>r. obj_view K k (newObject K a r)) (kGetAccount K k a)"

lemma fresh_acc_New: "wAcc (view K (New m k evs cfg)) a = fresh_acc K k a"
  by (simp add: view_def New_def fresh_acc_def)

lemma fresh_view:
  "vNonce (obj_view K k (newObject K a r)) = rNonce r" "vBalance (obj_view K k (newObject K a r)) = (case rBalance r of None \<Rightarrow> 0 | Some b \<Rightarrow> b)"
  "vCodeHash (obj_view K k (newObject K a r)) = (case rCodeHash r of None \<Rightarrow> emptyHash K | Some h \<Rightarrow> h)"
  "vState (obj_view K k (newObject K a r)) = kGetState K k a" "\<not> vSuicided (obj_view K k (newObject K a r))"
  by (auto simp: obj_view_def newObject_def so_GetState_def so_GetCommittedState_def Let_def)

lemma shows_getters:
  assumes "shows_world K c w"
  shows "snd (Exist K c a) = (wAcc w a \<noteq> None)" "snd (HasSuicided K c a) = acc_get w a vSuicided False"
    "snd (GetBalance K c a) = acc_get w a vBalance 0" "snd (GetNonce K c a) = acc_get w a vNonce 0"
    "snd (GetCodeHash K c a) = acc_get w a vCodeHash 0" "snd (GetState K c a key) = acc_get w a (\<lambda>v. vState v key) 0"
  using assms by (simp_all add: shows_world_def)

lemma rereads_stored:
  assumes "sdb_ok K c" "wAcc (view K c) a = Some v" "stored K k v a"
  shows "rereads K c (New m k evs cfg) a"
  using assms(2,3) unfolding rereads_def shows_getters[OF shows_view[OF assms(1)]] shows_getters[OF shows_view[OF New_ok[of K m k evs cfg]]]
  by (auto simp: acc_get_def fresh_acc_New fresh_acc_def stored_def fresh_view split: if_splits)

lemma rereads_clean:
  assumes "sdb_ok K c" "wAcc (view K c) a = fresh_acc K ctx a" "kGetAccount K k a = kGetAccount K ctx a" "kGetState K k a = kGetState K ctx a"
  shows "rereads K c (New m k evs cfg) a"
  using assms(2-4) unfolding rereads_def shows_getters[OF shows_view[OF assms(1)]] shows_getters[OF shows_view[OF New_ok[of K m k evs cfg]]]
  by (auto simp: acc_get_def fresh_acc_New fresh_acc_def fresh_view split: option.splits)

definition tracked :: "('k, 'e) state_db \<Rightarrow> address \<Rightarrow> bool" where
  "tracked c a \<longleftrightarrow> a \<in> set (sortedDirties (sJournal c)) \<or> (\<forall>e\<in>set (jEntries (sJournal c)). resets e \<noteq> Some a)"

context keeper_laws
begin

lemma commit_rereads:
  assumes run: "exec_ops K ops (New m ctx evs cfg) = Inr c" and ok: "kok ctx" and cm: "commitWithCtx K c ctx = Inr k'" and t: "tracked c a"
    and hc: "\<And>b so. stateObjects c b = Some so \<Longrightarrow> holds_code ctx b \<or> aCodeHash (soAccount so) = emptyHash K"
  shows "kok k'" "rereads K c (New m' k' evs' cfg') a"
proof -
  obtain sp where sp: "sim K c sp" "ctxStore c = ctx" "spec_ops K ctx cfg ops (spec_init (view K (New m ctx evs cfg))) = Inr sp"
    by (rule sim_runs_New[OF run])
  have c: "sdb_ok K c" using sp(1) by (simp add: sim_def)
  have com: "committed_w K ctx (view K c)"
    using committed_spec_ops[OF sp(3)] sp(1) by (simp add: committed_sp_def spec_init_def committed_view_New sim_def)
  have objs: "obj_ok K ctx (holds_code ctx) ctx b so" if "b \<in> set (sortedDirties (sJournal c))" "stateObjects c b = Some so" for b so
    using that(2) c com view_acc[OF that(2), of K] sp(2) hc[OF that(2)] by (auto simp: sdb_ok_def inv_es_def committed_w_def obj_ok_def)
  have d: "distinct (sortedDirties (sJournal c))" by (simp add: sortedDirties_def)
  note l = commit_loop_ok[OF ok cm[unfolded commitWithCtx_def] d, where ctx = ctx, OF objs]
  show "kok k'" by (rule l(1))
  show "rereads K c (New m' k' evs' cfg') a"
  proof (cases "a \<in> set (sortedDirties (sJournal c))")
    case True
    then show ?thesis using l(2) view_acc[of c a _ K] sp(2) by (auto intro: rereads_stored[OF c])
  next
    case False
    have "undo_all K ctx (jEntries (sJournal c)) (view K c) = Some (spBase sp)" using sp(1,2) by (auto simp: sim_def saved_ok_def)
    moreover have "spBase sp = view K (New m ctx evs cfg)" using base_spec_ops[OF sp(3)] by (simp add: spec_init_def)
    ultimately have "wAcc (view K c) a = fresh_acc K ctx a"
      using undo_all_clean[of K ctx "jEntries (sJournal c)" "view K c" _ a] False t dirties_dirt[OF c] by (simp add: tracked_def fresh_acc_New)
    then show ?thesis using l(3)[OF _ _ False] by (intro rereads_clean[OF c]) auto
  qed
qed

lemma commit_loop_code_kept:
  assumes "kok k" "commit_loop K objs addrs k = Inr k'" "distinct addrs" "kGetCode K k h = same_code c"
    "\<And>a so. a \<in> set addrs \<Longrightarrow> objs a = Some so \<Longrightarrow> obj_ok K ctx (holds_code k) k a so"
    "\<And>b so c'. b \<in> set addrs \<Longrightarrow> objs b = Some so \<Longrightarrow> dirtyCode so \<Longrightarrow> soCode so = Some c' \<Longrightarrow> aCodeHash (soAccount so) = h \<Longrightarrow> c' = c"
  shows "kGetCode K k' h = same_code c"
  using assms
proof (induction addrs arbitrary: k)
  case (Cons x xs)
  obtain so k1 where so: "objs x = Some so" "commit_object K k so = Inr k1" "commit_loop K objs xs k1 = Inr k'"
    using Cons.prems(2) by (auto simp: bind_r_eq_Inr split: option.splits)
  have "obj_ok K ctx (holds_code k) k x so" using Cons.prems(5)[of x so] so(1) by simp
  note x = obj_okD[OF this]
  note o = commit_object_ok[OF Cons.prems(1) so(2) x(2,3)]
  have c1: "obj_ok K ctx (holds_code k1) k1 b so'" if "b \<in> set xs" "objs b = Some so'" for b so'
    using Cons.prems(3,5) that o(3)[of b] o(5) x(1) by (auto simp: obj_ok_def)
  have code: "kGetCode K k1 h = same_code c" using o(4) Cons.prems(4) Cons.prems(6)[of x so] so(1) by (auto split: option.splits if_splits)
  have c6: "c' = c" if "b \<in> set xs" "objs b = Some so" "dirtyCode so" "soCode so = Some c'" "aCodeHash (soAccount so) = h" for b so c'
    using Cons.prems(6)[OF _ that(2-5)] that(1) by simp
  show ?case by (rule Cons.IH[OF o(1) so(3) _ code c1 c6]) (use Cons.prems(3) in simp_all)
qed simp

lemma commit_loop_code:
  assumes "kok k" "commit_loop K objs addrs k = Inr k'" "distinct addrs" "a \<in> set addrs" "objs a = Some so"
    "\<not> suicided so" "dirtyCode so" "soCode so = Some c"
    "\<And>a so. a \<in> set addrs \<Longrightarrow> objs a = Some so \<Longrightarrow> obj_ok K ctx (holds_code k) k a so"
    "\<And>b so' c'. b \<in> set addrs \<Longrightarrow> objs b = Some so' \<Longrightarrow> dirtyCode so' \<Longrightarrow> soCode so' = Some c' \<Longrightarrow>
       aCodeHash (soAccount so') = aCodeHash (soAccount so) \<Longrightarrow> c' = c"
  shows "kGetCode K k' (aCodeHash (soAccount so)) = same_code c"
  using assms
proof (induction addrs arbitrary: k)
  case (Cons x xs)
  obtain sx k1 where sx: "objs x = Some sx" "commit_object K k sx = Inr k1" "commit_loop K objs xs k1 = Inr k'"
    using Cons.prems(2) by (auto simp: bind_r_eq_Inr split: option.splits)
  have "obj_ok K ctx (holds_code k) k x sx" using Cons.prems(9)[of x sx] sx(1) by simp
  note x = obj_okD[OF this]
  note o = commit_object_ok[OF Cons.prems(1) sx(2) x(2,3)]
  have c1: "obj_ok K ctx (holds_code k1) k1 b so'" if "b \<in> set xs" "objs b = Some so'" for b so'
    using Cons.prems(3,9) that o(3)[of b] o(5) x(1) by (auto simp: obj_ok_def)
  have c6: "c' = c" if "b \<in> set xs" "objs b = Some so'" "dirtyCode so'" "soCode so' = Some c'"
    "aCodeHash (soAccount so') = aCodeHash (soAccount so)" for b so' c'
    using Cons.prems(10)[OF _ that(2-5)] that(1) by simp
  show ?case
  proof (cases "a = x")
    case True
    then have code: "kGetCode K k1 (aCodeHash (soAccount so)) = same_code c" using o(4) sx(1) Cons.prems(5-8) by simp
    have "distinct xs" using Cons.prems(3) by simp
    then show ?thesis by (rule commit_loop_code_kept[OF o(1) sx(3) _ code c1]) (assumption+, erule (4) c6)
  next
    case False
    then have "distinct xs" "a \<in> set xs" using Cons.prems(3,4) by simp_all
    then show ?thesis by (rule Cons.IH[OF o(1) sx(3) _ _ Cons.prems(5-8) c1]) (assumption+, erule (4) c6)
  qed
qed simp

end

end
