(* ===== verification/Bytes.thy ===== *)
theory Bytes
  imports Addresses
begin

text \<open>
  Integers as bytes: the fixed-width big-endian form of machine words and hashes, and the
  \<^verbatim>\<open>Bytes\<close> and \<^verbatim>\<open>SetBytes\<close> of a \<^verbatim>\<open>big.Int\<close>, with their
  round trips; and the overflow test of unsigned addition.
\<close>

unbundle bit_operations_syntax

text \<open>Fixed-width big-endian bytes, as \<^verbatim>\<open>Hash.Bytes\<close>, \<^verbatim>\<open>Address.Bytes\<close> and \<^verbatim>\<open>Uint64ToBigEndian\<close> give them.\<close>

fun be_bytes :: "nat \<Rightarrow> 'a::len word \<Rightarrow> bytes" where
  "be_bytes 0 w = []"
| "be_bytes (Suc n) w = be_bytes n (drop_bit 8 w) @ [ucast w]"

definition be_word :: "bytes \<Rightarrow> 'a::len word" where
  "be_word bs = foldl (\<lambda>acc b. push_bit 8 acc OR ucast b) 0 bs"

lemma word_add_wraps:
  fixes u g :: "64 word"
  shows "u + g < g \<longleftrightarrow> 2 ^ 64 \<le> unat u + unat g" "\<not> u + g < g \<Longrightarrow> unat (u + g) = unat u + unat g"
proof -
  have b: "unat u < 2 ^ 64" "unat g < 2 ^ 64" using unsigned_less[of u] unsigned_less[of g] by simp_all
  have s: "unat (u + g) = (if unat u + unat g < 2 ^ 64 then unat u + unat g else unat u + unat g - 2 ^ 64)"
    using b by (simp add: unat_word_ariths mod_if)
  show "u + g < g \<longleftrightarrow> 2 ^ 64 \<le> unat u + unat g" using b s by (auto simp: word_less_nat_alt)
  then show "\<not> u + g < g \<Longrightarrow> unat (u + g) = unat u + unat g" using s by simp
qed

lemma length_be_bytes [simp]: "length (be_bytes n w) = n"
  by (induction n w rule: be_bytes.induct) simp_all

lemma be_word_bytes: "be_word (be_bytes n w) = take_bit (8 * n) w"
proof (induction n w rule: be_bytes.induct)
  case (2 n w)
  have "be_word (be_bytes (Suc n) w) = push_bit 8 (be_word (be_bytes n (drop_bit 8 w))) OR (ucast (ucast w :: 8 word) :: 'a word)"
    by (simp add: be_word_def)
  also have "\<dots> = take_bit (8 * Suc n) w"
    unfolding 2 by (rule bit_eqI) (auto simp: bit_simps)
  finally show ?case .
qed (simp add: be_word_def)

lemma be_bytes_inj: "LENGTH('a) \<le> 8 * n \<Longrightarrow> be_bytes n (v :: 'a::len word) = be_bytes n w \<longleftrightarrow> v = w"
  by (metis be_word_bytes take_bit_word_eq_self)

text \<open>\<^verbatim>\<open>big.Int.Bytes\<close>: the absolute value in big-endian bytes without leading zeros.\<close>

fun nat_bytes :: "nat \<Rightarrow> bytes" where
  "nat_bytes n = (if n = 0 then [] else nat_bytes (n div 256) @ [of_nat (n mod 256)])"

declare nat_bytes.simps [simp del]

definition SetBytes :: "bytes \<Rightarrow> nat" where
  "SetBytes bz = foldl (\<lambda>acc b. 256 * acc + unat b) 0 bz"

lemma SetBytes_nat_bytes: "SetBytes (nat_bytes n) = n"
proof (induction n rule: nat_bytes.induct)
  case (1 n)
  have "unat (of_nat (n mod 256) :: 8 word) = n mod 256" by (simp add: unat_of_nat)
  then show ?case using 1 by (cases "n = 0") (simp_all add: SetBytes_def nat_bytes.simps[of n] nat_bytes.simps[of 0])
qed

lemma nat_bytes_Nil: "nat_bytes n = [] \<longleftrightarrow> n = 0"
  by (simp add: nat_bytes.simps[of n])

end
