(* ===== verification/EvmKeeper.thy ===== *)
theory EvmKeeper
  imports StateDBCommit Bytes
begin

text \<open>
  The keeper of x/evm as the store behind the state database: x/evm/keeper/statedb.go, the
  account and transient-store parts of keeper.go, and the key layout of x/evm/types/key.go.
  The SDK's stores, account keeper and bank keeper are the record \<open>evm_env\<close>; \<open>evm_laws\<close> is
  what the module relies on. Logging is left out.
\<close>

section \<open>Bytes and keys\<close>

definition BytesToHash :: "bytes \<Rightarrow> hash" where
  "BytesToHash b = be_word (drop (length b - 32) b)"

abbreviation hash_bytes :: "hash \<Rightarrow> bytes" where
  "hash_bytes h \<equiv> be_bytes 32 h"

abbreviation addr_bytes :: "address \<Rightarrow> bytes" where
  "addr_bytes a \<equiv> be_bytes 20 a"

lemma BytesToHash_bytes [simp]: "BytesToHash (p @ hash_bytes h) = h"
  by (simp add: BytesToHash_def be_word_bytes take_bit_word_eq_self)

definition KeyPrefixCode :: bytes where "KeyPrefixCode = [1]"
definition KeyPrefixStorage :: bytes where "KeyPrefixStorage = [2]"
definition KeyPrefixParams :: bytes where "KeyPrefixParams = [3]"
definition KeyPrefixTransientBloom :: bytes where "KeyPrefixTransientBloom = [1]"
definition KeyPrefixTransientTxIndex :: bytes where "KeyPrefixTransientTxIndex = [2]"
definition KeyPrefixTransientLogSize :: bytes where "KeyPrefixTransientLogSize = [3]"
definition KeyPrefixTransientGasUsed :: bytes where "KeyPrefixTransientGasUsed = [4]"

definition AddressStoragePrefix :: "address \<Rightarrow> bytes" where
  "AddressStoragePrefix address = KeyPrefixStorage @ addr_bytes address"

definition StateKey :: "address \<Rightarrow> bytes \<Rightarrow> bytes" where
  "StateKey address key = AddressStoragePrefix address @ key"

lemma StateKey_inj: "StateKey a (hash_bytes k) = StateKey b (hash_bytes l) \<longleftrightarrow> a = b \<and> k = l"
  by (simp add: StateKey_def AddressStoragePrefix_def be_bytes_inj)

section \<open>The SDK behind the module\<close>

text \<open>
  \<open>accCodeHash\<close> is \<open>None\<close> for an account that is not an \<^verbatim>\<open>EthAccountI\<close>. A context is the
  state \<open>'s\<close>; the module's store and its transient store are maps of byte strings.
\<close>

record sdk_account =
  accAddress :: bytes
  accSequence :: "64 word"
  accCodeHash :: "hash option"

record evm_params =
  EvmDenom :: string
  ActiveStaticPrecompiles :: "string list"
  ExtraEIPs :: "string list"

record 's evm_env =
  eGetAccount :: "'s \<Rightarrow> bytes \<Rightarrow> sdk_account option"
  eSetAccount :: "'s \<Rightarrow> sdk_account \<Rightarrow> 's"
  eNewAccountWithAddress :: "'s \<Rightarrow> bytes \<Rightarrow> 's \<times> sdk_account"
  eRemoveAccount :: "'s \<Rightarrow> sdk_account \<Rightarrow> 's"
  eModuleAddress :: "string \<Rightarrow> bytes"
  eBankBalance :: "'s \<Rightarrow> bytes \<Rightarrow> string \<Rightarrow> int"
  eMintCoins :: "'s \<Rightarrow> string \<Rightarrow> string \<times> int \<Rightarrow> 's result"
  eBurnCoins :: "'s \<Rightarrow> string \<Rightarrow> string \<times> int \<Rightarrow> 's result"
  eSendFromModule :: "'s \<Rightarrow> string \<Rightarrow> bytes \<Rightarrow> string \<times> int \<Rightarrow> 's result"
  eSendToModule :: "'s \<Rightarrow> bytes \<Rightarrow> string \<Rightarrow> string \<times> int \<Rightarrow> 's result"
  eStoreGet :: "'s \<Rightarrow> bytes \<Rightarrow> bytes option"
  eStoreSet :: "'s \<Rightarrow> bytes \<Rightarrow> bytes \<Rightarrow> 's"
  eStoreDelete :: "'s \<Rightarrow> bytes \<Rightarrow> 's"
  eStoreIterator :: "'s \<Rightarrow> bytes \<Rightarrow> (bytes \<times> bytes) list"
  eTransientGet :: "'s \<Rightarrow> bytes \<Rightarrow> bytes option"
  eTransientSet :: "'s \<Rightarrow> bytes \<Rightarrow> bytes \<Rightarrow> 's"
  eTransientDelete :: "'s \<Rightarrow> bytes \<Rightarrow> 's"
  eUnmarshalParams :: "bytes \<Rightarrow> evm_params"
  eLegacyParams :: "'s \<Rightarrow> evm_params"
  eKeccak256 :: "bytes \<Rightarrow> hash"
  eCacheWrite :: "'s \<Rightarrow> 's \<Rightarrow> 's"

abbreviation evm_module :: string where
  "evm_module \<equiv> ''evm''"

definition Keeper_GetParams :: "'s evm_env \<Rightarrow> 's \<Rightarrow> evm_params" where
  "Keeper_GetParams E s =
     (case eStoreGet E s KeyPrefixParams of
        None \<Rightarrow> eLegacyParams E s
      | Some bz \<Rightarrow> if bz = [] then eLegacyParams E s else eUnmarshalParams E bz)"

section \<open>Accounts\<close>

definition GetAccountWithoutBalance :: "'s evm_env \<Rightarrow> 's \<Rightarrow> address \<Rightarrow> raw_account option" where
  "GetAccountWithoutBalance E s addr =
     (case eGetAccount E s (addr_bytes addr) of
        None \<Rightarrow> None
      | Some acct \<Rightarrow> Some \<lparr>rNonce = accSequence acct, rBalance = None,
          rCodeHash = Some (case accCodeHash acct of Some h \<Rightarrow> h | None \<Rightarrow> eKeccak256 E [])\<rparr>)"

definition Keeper_GetBalance :: "'s evm_env \<Rightarrow> 's \<Rightarrow> address \<Rightarrow> int" where
  "Keeper_GetBalance E s addr =
     (let evmDenom = EvmDenom (Keeper_GetParams E s) in
      if evmDenom = '''' then -1 else eBankBalance E s (addr_bytes addr) evmDenom)"

definition Keeper_GetAccount :: "'s evm_env \<Rightarrow> 's \<Rightarrow> address \<Rightarrow> raw_account option" where
  "Keeper_GetAccount E s addr =
     (case GetAccountWithoutBalance E s addr of
        None \<Rightarrow> None
      | Some acct \<Rightarrow> Some (acct\<lparr>rBalance := Some (Keeper_GetBalance E s addr)\<rparr>))"

definition GetAccountOrEmpty :: "'s evm_env \<Rightarrow> 's \<Rightarrow> address \<Rightarrow> raw_account" where
  "GetAccountOrEmpty E s addr =
     (case Keeper_GetAccount E s addr of
        Some acct \<Rightarrow> acct
      | None \<Rightarrow> \<lparr>rNonce = 0, rBalance = Some 0, rCodeHash = Some (eKeccak256 E [])\<rparr>)"

definition Keeper_GetNonce :: "'s evm_env \<Rightarrow> 's \<Rightarrow> address \<Rightarrow> 64 word" where
  "Keeper_GetNonce E s addr = (case eGetAccount E s (addr_bytes addr) of None \<Rightarrow> 0 | Some acct \<Rightarrow> accSequence acct)"

text \<open>\<^verbatim>\<open>SetBalance\<close> mints or burns the difference to the current balance.\<close>

definition Keeper_SetBalance :: "'s evm_env \<Rightarrow> 's \<Rightarrow> address \<Rightarrow> int \<Rightarrow> 's result" where
  "Keeper_SetBalance E s addr amount =
     (let cosmosAddr = addr_bytes addr;
          denom = EvmDenom (Keeper_GetParams E s);
          delta = amount - eBankBalance E s cosmosAddr denom in
      if delta > 0 then
        bind_r (eMintCoins E s evm_module (denom, delta)) (\<lambda>s1. eSendFromModule E s1 evm_module cosmosAddr (denom, delta))
      else if delta < 0 then
        bind_r (eSendToModule E s cosmosAddr evm_module (denom, - delta)) (\<lambda>s1. eBurnCoins E s1 evm_module (denom, - delta))
      else Inr s)"

definition Keeper_SetAccount :: "'s evm_env \<Rightarrow> 's \<Rightarrow> address \<Rightarrow> acct \<Rightarrow> 's result" where
  "Keeper_SetAccount E s addr account =
     (let cosmosAddr = addr_bytes addr;
          (s1, acct) = (case eGetAccount E s cosmosAddr of Some acct \<Rightarrow> (s, acct) | None \<Rightarrow> eNewAccountWithAddress E s cosmosAddr);
          acct1 = acct\<lparr>accSequence := aNonce account\<rparr>;
          acct2 = (case accCodeHash acct1 of Some _ \<Rightarrow> acct1\<lparr>accCodeHash := Some (aCodeHash account)\<rparr> | None \<Rightarrow> acct1) in
      Keeper_SetBalance E (eSetAccount E s1 acct2) addr (aBalance account))"

section \<open>Storage and code\<close>

definition Keeper_GetState :: "'s evm_env \<Rightarrow> 's \<Rightarrow> address \<Rightarrow> hash \<Rightarrow> hash" where
  "Keeper_GetState E s addr key =
     (case eStoreGet E s (AddressStoragePrefix addr @ hash_bytes key) of
        None \<Rightarrow> 0
      | Some value \<Rightarrow> if value = [] then 0 else BytesToHash value)"

definition Keeper_SetState :: "'s evm_env \<Rightarrow> 's \<Rightarrow> address \<Rightarrow> hash \<Rightarrow> bytes \<Rightarrow> 's" where
  "Keeper_SetState E s addr key value =
     (if value = [] then eStoreDelete E s (AddressStoragePrefix addr @ hash_bytes key)
      else eStoreSet E s (AddressStoragePrefix addr @ hash_bytes key) value)"

definition Keeper_GetCode :: "'s evm_env \<Rightarrow> 's \<Rightarrow> hash \<Rightarrow> bytes option" where
  "Keeper_GetCode E s codeHash = eStoreGet E s (KeyPrefixCode @ hash_bytes codeHash)"

definition Keeper_SetCode :: "'s evm_env \<Rightarrow> 's \<Rightarrow> hash \<Rightarrow> bytes \<Rightarrow> 's" where
  "Keeper_SetCode E s codeHash code =
     (if code = [] then eStoreDelete E s (KeyPrefixCode @ hash_bytes codeHash)
      else eStoreSet E s (KeyPrefixCode @ hash_bytes codeHash) code)"

text \<open>The iteration over the slots of a contract, with a callback that may stop it.\<close>

fun iterate_storage :: "(bytes \<times> bytes) list \<Rightarrow> (hash \<Rightarrow> hash \<Rightarrow> 'a \<Rightarrow> 'a \<times> bool) \<Rightarrow> 'a \<Rightarrow> 'a" where
  "iterate_storage [] cb acc = acc"
| "iterate_storage ((key, value) # rest) cb acc =
     (case cb (BytesToHash key) (BytesToHash value) acc of (acc1, goOn) \<Rightarrow> if goOn then iterate_storage rest cb acc1 else acc1)"

definition Keeper_ForEachStorage :: "'s evm_env \<Rightarrow> 's \<Rightarrow> address \<Rightarrow> (hash \<Rightarrow> hash \<Rightarrow> 'a \<Rightarrow> 'a \<times> bool) \<Rightarrow> 'a \<Rightarrow> 'a" where
  "Keeper_ForEachStorage E s addr cb acc = iterate_storage (eStoreIterator E s (AddressStoragePrefix addr)) cb acc"

definition GetAccountStorage :: "'s evm_env \<Rightarrow> 's \<Rightarrow> address \<Rightarrow> (hash \<times> hash) list" where
  "GetAccountStorage E s address = Keeper_ForEachStorage E s address (\<lambda>key value storage. (storage @ [(key, value)], True)) []"

definition Keeper_DeleteAccount :: "'s evm_env \<Rightarrow> 's \<Rightarrow> address \<Rightarrow> 's result" where
  "Keeper_DeleteAccount E s addr =
     (case eGetAccount E s (addr_bytes addr) of
        None \<Rightarrow> Inr s
      | Some acct \<Rightarrow>
          if accCodeHash acct = None then Inl (Wrapf ErrInvalidAccount ''type, address'')
          else bind_r (Keeper_SetBalance E s addr 0) (\<lambda>s1.
            let s2 = Keeper_ForEachStorage E s1 addr (\<lambda>key _ st. (Keeper_SetState E st addr key [], True)) s1 in
            Inr (eRemoveAccount E s2 acct)))"

section \<open>The transient store\<close>

definition GetBlockBloomTransient :: "'s evm_env \<Rightarrow> 64 word \<Rightarrow> 's \<Rightarrow> nat" where
  "GetBlockBloomTransient E height s =
     (case eTransientGet E s (KeyPrefixTransientBloom @ be_bytes 8 height) of
        None \<Rightarrow> 0
      | Some bz \<Rightarrow> SetBytes bz)"

definition SetBlockBloomTransient :: "'s evm_env \<Rightarrow> 64 word \<Rightarrow> 's \<Rightarrow> nat \<Rightarrow> 's" where
  "SetBlockBloomTransient E height s bloom = eTransientSet E s (KeyPrefixTransientBloom @ be_bytes 8 height) (nat_bytes bloom)"

definition transient_uint64 :: "'s evm_env \<Rightarrow> 's \<Rightarrow> bytes \<Rightarrow> 64 word" where
  "transient_uint64 E s key = (case eTransientGet E s key of None \<Rightarrow> 0 | Some bz \<Rightarrow> if bz = [] then 0 else be_word bz)"

definition SetTxIndexTransient :: "'s evm_env \<Rightarrow> 's \<Rightarrow> 64 word \<Rightarrow> 's" where
  "SetTxIndexTransient E s index = eTransientSet E s KeyPrefixTransientTxIndex (be_bytes 8 index)"

definition GetTxIndexTransient :: "'s evm_env \<Rightarrow> 's \<Rightarrow> 64 word" where
  "GetTxIndexTransient E s = transient_uint64 E s KeyPrefixTransientTxIndex"

definition GetLogSizeTransient :: "'s evm_env \<Rightarrow> 's \<Rightarrow> 64 word" where
  "GetLogSizeTransient E s = transient_uint64 E s KeyPrefixTransientLogSize"

definition SetLogSizeTransient :: "'s evm_env \<Rightarrow> 's \<Rightarrow> 64 word \<Rightarrow> 's" where
  "SetLogSizeTransient E s logSize = eTransientSet E s KeyPrefixTransientLogSize (be_bytes 8 logSize)"

definition ResetTransientGasUsed :: "'s evm_env \<Rightarrow> 's \<Rightarrow> 's" where
  "ResetTransientGasUsed E s = eTransientDelete E s KeyPrefixTransientGasUsed"

definition GetTransientGasUsed :: "'s evm_env \<Rightarrow> 's \<Rightarrow> 64 word" where
  "GetTransientGasUsed E s = transient_uint64 E s KeyPrefixTransientGasUsed"

definition SetTransientGasUsed :: "'s evm_env \<Rightarrow> 's \<Rightarrow> 64 word \<Rightarrow> 's" where
  "SetTransientGasUsed E s gasUsed = eTransientSet E s KeyPrefixTransientGasUsed (be_bytes 8 gasUsed)"

definition AddTransientGasUsed :: "'s evm_env \<Rightarrow> 's \<Rightarrow> 64 word \<Rightarrow> ('s \<times> 64 word) result" where
  "AddTransientGasUsed E s gasUsed =
     (let result = GetTransientGasUsed E s + gasUsed in
      if result < gasUsed then Inl (Wrapf ErrGasOverflow ''transient gas used'')
      else Inr (SetTransientGasUsed E s result, result))"

section \<open>The keeper as the store of the state database\<close>

definition evmKeeper :: "'s evm_env \<Rightarrow> 's keeper_api" where
  "evmKeeper E = \<lparr>kGetAccount = Keeper_GetAccount E, kGetState = Keeper_GetState E, kGetCode = Keeper_GetCode E,
     kStorage = GetAccountStorage E, kSetAccount = Keeper_SetAccount E,
     kSetState = (\<lambda>s addr key value. Keeper_SetState E s addr key (hash_bytes value)), kSetCode = Keeper_SetCode E,
     kDeleteAccount = Keeper_DeleteAccount E, kKeccak256 = eKeccak256 E, cmsWrite = eCacheWrite E\<rparr>"

section \<open>What the module relies on\<close>

text \<open>
  A bank operation moves coins as documented and changes accounts only by creating missing ones
  for the parties of a transfer. Account and store operations do not touch balances.
\<close>

definition keeps_others :: "'s evm_env \<Rightarrow> bytes set \<Rightarrow> 's \<Rightarrow> 's \<Rightarrow> bool" where
  "keeps_others E parties s s' \<longleftrightarrow> eStoreGet E s' = eStoreGet E s \<and> eLegacyParams E s' = eLegacyParams E s \<and>
     (\<forall>a. a \<notin> parties \<or> eGetAccount E s a \<noteq> None \<longrightarrow> eGetAccount E s' a = eGetAccount E s a)"

definition moved :: "'s evm_env \<Rightarrow> 's \<Rightarrow> 's \<Rightarrow> string \<Rightarrow> (bytes \<Rightarrow> int) \<Rightarrow> bool" where
  "moved E s s' d f \<longleftrightarrow> (\<forall>a d'. eBankBalance E s' a d' = eBankBalance E s a d' + (if d' = d then f a else 0))"

locale evm_laws =
  fixes E :: "'s evm_env"
  assumes account_set: "eGetAccount E (eSetAccount E s acc) = (eGetAccount E s)(accAddress acc \<mapsto> acc)"
    "eBankBalance E (eSetAccount E s acc) = eBankBalance E s" "eStoreGet E (eSetAccount E s acc) = eStoreGet E s"
    "eLegacyParams E (eSetAccount E s acc) = eLegacyParams E s"
    and account_remove: "eGetAccount E (eRemoveAccount E s acc) = (eGetAccount E s)(accAddress acc := None)"
    "eBankBalance E (eRemoveAccount E s acc) = eBankBalance E s" "eStoreGet E (eRemoveAccount E s acc) = eStoreGet E s"
    "eLegacyParams E (eRemoveAccount E s acc) = eLegacyParams E s"
    and account_address: "eGetAccount E s a = Some acc \<Longrightarrow> accAddress acc = a"
    and account_new: "eNewAccountWithAddress E s a = (s', acc) \<Longrightarrow> accAddress acc = a \<and> accCodeHash acc \<noteq> None \<and>
      eGetAccount E s' = eGetAccount E s \<and> eBankBalance E s' = eBankBalance E s \<and> eStoreGet E s' = eStoreGet E s \<and> eLegacyParams E s' = eLegacyParams E s"
    and store_set: "eStoreGet E (eStoreSet E s k v) = (eStoreGet E s)(k \<mapsto> v)" "eGetAccount E (eStoreSet E s k v) = eGetAccount E s"
    "eBankBalance E (eStoreSet E s k v) = eBankBalance E s" "eLegacyParams E (eStoreSet E s k v) = eLegacyParams E s"
    and store_delete: "eStoreGet E (eStoreDelete E s k) = (eStoreGet E s)(k := None)" "eGetAccount E (eStoreDelete E s k) = eGetAccount E s"
    "eBankBalance E (eStoreDelete E s k) = eBankBalance E s" "eLegacyParams E (eStoreDelete E s k) = eLegacyParams E s"
    and store_iterator: "set (eStoreIterator E s p) = {(k, v). eStoreGet E s k = Some v \<and> take (length p) k = p}"
    and transient_set: "eTransientGet E (eTransientSet E s k v) = (eTransientGet E s)(k \<mapsto> v)"
    and transient_delete: "eTransientGet E (eTransientDelete E s k) = (eTransientGet E s)(k := None)"
    and mint: "eMintCoins E s m (d, n) = Inr s' \<Longrightarrow> keeps_others E {eModuleAddress E m} s s' \<and> moved E s s' d (\<lambda>a. if a = eModuleAddress E m then n else 0)"
    and burn: "eBurnCoins E s m (d, n) = Inr s' \<Longrightarrow> keeps_others E {eModuleAddress E m} s s' \<and> moved E s s' d (\<lambda>a. if a = eModuleAddress E m then - n else 0)"
    and send_from: "eSendFromModule E s m b (d, n) = Inr s' \<Longrightarrow> keeps_others E {eModuleAddress E m, b} s s' \<and>
      moved E s s' d (\<lambda>a. (if a = b then n else 0) - (if a = eModuleAddress E m then n else 0))"
    and send_to: "eSendToModule E s b m (d, n) = Inr s' \<Longrightarrow> keeps_others E {eModuleAddress E m, b} s s' \<and>
      moved E s s' d (\<lambda>a. (if a = eModuleAddress E m then n else 0) - (if a = b then n else 0))"

text \<open>The stores a node works with: a denomination is set and the module's account exists, which is
  not an Ethereum account.\<close>

definition evm_ok :: "'s evm_env \<Rightarrow> 's \<Rightarrow> bool" where
  "evm_ok E s \<longleftrightarrow> EvmDenom (Keeper_GetParams E s) \<noteq> '''' \<and>
     (\<exists>acc. eGetAccount E s (eModuleAddress E evm_module) = Some acc \<and> accCodeHash acc = None)"

definition can_hold_code :: "'s evm_env \<Rightarrow> 's \<Rightarrow> address \<Rightarrow> bool" where
  "can_hold_code E s a \<longleftrightarrow> (\<forall>acc. eGetAccount E s (addr_bytes a) = Some acc \<longrightarrow> accCodeHash acc \<noteq> None)"

lemma Keeper_GetParams_cong:
  "eStoreGet E s' KeyPrefixParams = eStoreGet E s KeyPrefixParams \<Longrightarrow> eLegacyParams E s' = eLegacyParams E s \<Longrightarrow> Keeper_GetParams E s' = Keeper_GetParams E s"
  by (simp add: Keeper_GetParams_def split: option.split)

lemma Keeper_GetState_cong: "eStoreGet E s' = eStoreGet E s \<Longrightarrow> Keeper_GetState E s' = Keeper_GetState E s"
  by (simp add: Keeper_GetState_def fun_eq_iff)

lemma Keeper_GetCode_cong: "eStoreGet E s' = eStoreGet E s \<Longrightarrow> Keeper_GetCode E s' = Keeper_GetCode E s"
  by (simp add: Keeper_GetCode_def fun_eq_iff)

lemma addr_eq [simp]: "addr_bytes a = addr_bytes b \<longleftrightarrow> a = b"
  by (simp add: be_bytes_inj)

lemma prefix_neq [simp]: "AddressStoragePrefix a @ k \<noteq> KeyPrefixParams" "KeyPrefixCode @ k \<noteq> KeyPrefixParams"
  "AddressStoragePrefix a @ k \<noteq> KeyPrefixCode @ l" "KeyPrefixCode @ l \<noteq> AddressStoragePrefix a @ k"
  "KeyPrefixParams \<noteq> AddressStoragePrefix a @ k" "KeyPrefixParams \<noteq> KeyPrefixCode @ k"
  by (simp_all add: AddressStoragePrefix_def KeyPrefixStorage_def KeyPrefixParams_def KeyPrefixCode_def)

lemma slot_eq [simp]: "AddressStoragePrefix a @ hash_bytes k = AddressStoragePrefix b @ hash_bytes l \<longleftrightarrow> a = b \<and> k = l"
  using StateKey_inj[of a k b l] by (simp add: StateKey_def)

lemma hash_eq [simp]: "hash_bytes k = hash_bytes l \<longleftrightarrow> k = l" "hash_bytes k \<noteq> []" "addr_bytes a \<noteq> []" "[] \<noteq> addr_bytes a"
  by (simp_all add: be_bytes_inj flip: length_0_conv) (metis length_be_bytes list.size(3) zero_neq_numeral)

lemma keeps_mono: "keeps_others E P s s' \<Longrightarrow> P \<subseteq> Q \<Longrightarrow> keeps_others E Q s s'"
  unfolding keeps_others_def by blast

lemma keeps_trans:
  assumes "keeps_others E P s s1" "keeps_others E P s1 s2"
  shows "keeps_others E P s s2"
  using assms by (auto simp: keeps_others_def)

lemma keeps_existing:
  assumes "keeps_others E P s s'" "\<And>a. a \<in> P \<Longrightarrow> eGetAccount E s a \<noteq> None"
  shows "eGetAccount E s' = eGetAccount E s"
  using assms by (auto simp: keeps_others_def fun_eq_iff)

context evm_laws
begin

lemma Keeper_SetBalance_ok:
  assumes "evm_ok E s" "eGetAccount E s (addr_bytes a) \<noteq> None" "Keeper_SetBalance E s a amount = Inr s'"
  shows "eGetAccount E s' = eGetAccount E s" "eStoreGet E s' = eStoreGet E s" "Keeper_GetParams E s' = Keeper_GetParams E s"
    "Keeper_GetBalance E s' b = (if b = a then amount else Keeper_GetBalance E s b)"
proof -
  let ?P = "{eModuleAddress E evm_module, addr_bytes a}" and ?d = "EvmDenom (Keeper_GetParams E s)"
  let ?delta = "amount - eBankBalance E s (addr_bytes a) ?d"
  have sub: "keeps_others E {eModuleAddress E evm_module} x y \<Longrightarrow> keeps_others E ?P x y" for x y by (rule keeps_mono) auto
  have "keeps_others E ?P s s' \<and> moved E s s' ?d (\<lambda>x. if x = addr_bytes a then ?delta else 0)"
  proof (cases "?delta > 0")
    case True
    then obtain s1 where "eMintCoins E s evm_module (?d, ?delta) = Inr s1" "eSendFromModule E s1 evm_module (addr_bytes a) (?d, ?delta) = Inr s'"
      using assms(3) by (auto simp: Keeper_SetBalance_def Let_def bind_r_eq_Inr)
    with mint[of s evm_module ?d ?delta s1] send_from[of s1 evm_module "addr_bytes a" ?d ?delta s'] show ?thesis
      by (auto simp: moved_def intro: keeps_trans[OF sub])
  next
    case False
    show ?thesis
    proof (cases "?delta < 0")
      case True
      then obtain s1 where "eSendToModule E s (addr_bytes a) evm_module (?d, - ?delta) = Inr s1" "eBurnCoins E s1 evm_module (?d, - ?delta) = Inr s'"
        using assms(3) by (auto simp: Keeper_SetBalance_def Let_def bind_r_eq_Inr)
      with send_to[of s "addr_bytes a" evm_module ?d "- ?delta" s1] burn[of s1 evm_module ?d "- ?delta" s'] show ?thesis
        by (auto simp: moved_def intro: keeps_trans[OF _ sub])
    next
      case neg: False
      then have "s' = s" using assms(3) False by (simp add: Keeper_SetBalance_def Let_def)
      then show ?thesis using False neg by (simp add: keeps_others_def moved_def)
    qed
  qed
  then have k: "keeps_others E ?P s s'" and m: "moved E s s' ?d (\<lambda>x. if x = addr_bytes a then ?delta else 0)" by auto
  show "eGetAccount E s' = eGetAccount E s" using assms(1,2) by (intro keeps_existing[OF k]) (auto simp: evm_ok_def)
  show st: "eStoreGet E s' = eStoreGet E s" using k by (simp add: keeps_others_def)
  show p: "Keeper_GetParams E s' = Keeper_GetParams E s" using k by (intro Keeper_GetParams_cong) (simp_all add: keeps_others_def)
  show "Keeper_GetBalance E s' b = (if b = a then amount else Keeper_GetBalance E s b)"
    using m assms(1) by (auto simp: Keeper_GetBalance_def p moved_def evm_ok_def Let_def)
qed

lemma Keeper_SetAccount_ok:
  assumes ok: "evm_ok E s" and hc: "can_hold_code E s a \<or> aCodeHash acct = eKeccak256 E []" and r: "Keeper_SetAccount E s a acct = Inr s'"
  shows "evm_ok E s'" "can_hold_code E s' = can_hold_code E s" "eStoreGet E s' = eStoreGet E s"
    "Keeper_GetAccount E s' = (Keeper_GetAccount E s)(a \<mapsto> stored_account (aNonce acct) (aBalance acct) (aCodeHash acct))"
proof -
  let ?ca = "addr_bytes a"
  obtain s1 ac where ac: "(case eGetAccount E s ?ca of Some ac \<Rightarrow> (s, ac) | None \<Rightarrow> eNewAccountWithAddress E s ?ca) = (s1, ac)"
    by (cases "case eGetAccount E s ?ca of Some ac \<Rightarrow> (s, ac) | None \<Rightarrow> eNewAccountWithAddress E s ?ca")
  have s1: "eGetAccount E s1 = eGetAccount E s" "eBankBalance E s1 = eBankBalance E s" "eStoreGet E s1 = eStoreGet E s"
    "eLegacyParams E s1 = eLegacyParams E s" "accAddress ac = ?ca" "accCodeHash ac \<noteq> None \<longleftrightarrow> can_hold_code E s a"
    using ac account_new[of s ?ca s1 ac] account_address[of s ?ca ac] by (auto simp: can_hold_code_def split: option.splits)
  define ac2 where "ac2 = (case accCodeHash ac of Some _ \<Rightarrow> ac\<lparr>accSequence := aNonce acct, accCodeHash := Some (aCodeHash acct)\<rparr>
    | None \<Rightarrow> ac\<lparr>accSequence := aNonce acct\<rparr>)"
  have ac2: "accAddress ac2 = ?ca" "accSequence ac2 = aNonce acct" "accCodeHash ac2 \<noteq> None \<longleftrightarrow> can_hold_code E s a"
    "(case accCodeHash ac2 of Some h \<Rightarrow> h | None \<Rightarrow> eKeccak256 E []) = aCodeHash acct"
    using s1(5,6) hc by (auto simp: ac2_def split: option.splits)
  let ?s2 = "eSetAccount E s1 ac2"
  have r2: "Keeper_SetBalance E ?s2 a (aBalance acct) = Inr s'"
    using r ac by (auto simp: Keeper_SetAccount_def Let_def ac2_def split: option.splits)
  have g2: "eGetAccount E ?s2 = (eGetAccount E s)(?ca \<mapsto> ac2)" by (simp add: account_set ac2 s1)
  have p2: "Keeper_GetParams E ?s2 = Keeper_GetParams E s" by (rule Keeper_GetParams_cong) (simp_all add: account_set s1)
  have ok2: "evm_ok E ?s2"
    using ok ac2(3) by (auto simp: evm_ok_def p2 g2 can_hold_code_def)
  note sb = Keeper_SetBalance_ok[OF ok2 _ r2, unfolded g2, simplified]
  show "evm_ok E s'" using ok2 sb(1,3) by (simp add: evm_ok_def g2)
  show "can_hold_code E s' = can_hold_code E s"
    using ac2(3) sb(1) by (auto simp: can_hold_code_def fun_eq_iff)
  show "eStoreGet E s' = eStoreGet E s" using sb(2) by (simp add: account_set s1)
  have b2: "Keeper_GetBalance E ?s2 b = Keeper_GetBalance E s b" for b by (simp add: Keeper_GetBalance_def p2 account_set s1 Let_def)
  have "Keeper_GetAccount E s' b = ((Keeper_GetAccount E s)(a \<mapsto> stored_account (aNonce acct) (aBalance acct) (aCodeHash acct))) b" for b
    using sb(1) sb(4)[of b] ac2 b2[of b] by (auto simp: Keeper_GetAccount_def GetAccountWithoutBalance_def split: option.split)
  then show "Keeper_GetAccount E s' = (Keeper_GetAccount E s)(a \<mapsto> stored_account (aNonce acct) (aBalance acct) (aCodeHash acct))" by blast
qed

text \<open>A write below the storage or the code prefix.\<close>

lemma store_frame:
  assumes "eGetAccount E s' = eGetAccount E s" "eBankBalance E s' = eBankBalance E s" "eLegacyParams E s' = eLegacyParams E s"
    "eStoreGet E s' KeyPrefixParams = eStoreGet E s KeyPrefixParams"
  shows "Keeper_GetAccount E s' = Keeper_GetAccount E s" "can_hold_code E s' = can_hold_code E s" "evm_ok E s' = evm_ok E s"
proof -
  have p: "Keeper_GetParams E s' = Keeper_GetParams E s" using assms(3,4) by (intro Keeper_GetParams_cong)
  have "Keeper_GetBalance E s' = Keeper_GetBalance E s" "GetAccountWithoutBalance E s' = GetAccountWithoutBalance E s"
    by (simp_all add: Keeper_GetBalance_def GetAccountWithoutBalance_def p assms(1,2) fun_eq_iff Let_def)
  then show "Keeper_GetAccount E s' = Keeper_GetAccount E s" by (auto simp: Keeper_GetAccount_def fun_eq_iff split: option.split)
  show "can_hold_code E s' = can_hold_code E s" "evm_ok E s' = evm_ok E s"
    by (simp_all add: can_hold_code_def evm_ok_def p assms(1,2) fun_eq_iff)
qed

lemma SetState_store:
  "eStoreGet E (Keeper_SetState E s a key v) = (eStoreGet E s)(AddressStoragePrefix a @ hash_bytes key := same_code v)"
  "eGetAccount E (Keeper_SetState E s a key v) = eGetAccount E s" "eBankBalance E (Keeper_SetState E s a key v) = eBankBalance E s"
  "eLegacyParams E (Keeper_SetState E s a key v) = eLegacyParams E s"
  by (simp_all add: Keeper_SetState_def same_code_def store_set store_delete)

lemma SetCode_store:
  "eStoreGet E (Keeper_SetCode E s h c) = (eStoreGet E s)(KeyPrefixCode @ hash_bytes h := same_code c)"
  "eGetAccount E (Keeper_SetCode E s h c) = eGetAccount E s" "eBankBalance E (Keeper_SetCode E s h c) = eBankBalance E s"
  "eLegacyParams E (Keeper_SetCode E s h c) = eLegacyParams E s"
  by (simp_all add: Keeper_SetCode_def same_code_def store_set store_delete)

lemma SetState_reads:
  "Keeper_GetState E (Keeper_SetState E s a key (hash_bytes v)) = (Keeper_GetState E s)(a := (Keeper_GetState E s a)(key := v))"
  "Keeper_GetCode E (Keeper_SetState E s a key bs) = Keeper_GetCode E s"
  using BytesToHash_bytes[of "[]" v]
  by (auto simp: Keeper_GetState_def Keeper_GetCode_def SetState_store same_code_def fun_eq_iff)

lemma SetCode_reads:
  "Keeper_GetCode E (Keeper_SetCode E s h c) = (Keeper_GetCode E s)(h := same_code c)" "Keeper_GetState E (Keeper_SetCode E s h c) = Keeper_GetState E s"
  by (auto simp: Keeper_GetState_def Keeper_GetCode_def SetCode_store fun_eq_iff)

lemma write_frame:
  "Keeper_GetAccount E (Keeper_SetState E s a key v) = Keeper_GetAccount E s" "can_hold_code E (Keeper_SetState E s a key v) = can_hold_code E s"
  "evm_ok E (Keeper_SetState E s a key v) = evm_ok E s" "Keeper_GetAccount E (Keeper_SetCode E s h c) = Keeper_GetAccount E s"
  "can_hold_code E (Keeper_SetCode E s h c) = can_hold_code E s" "evm_ok E (Keeper_SetCode E s h c) = evm_ok E s"
  by (rule store_frame; simp add: SetState_store SetCode_store)+

lemma iterate_all: "iterate_storage xs (\<lambda>key value st. (f key value st, True)) acc = fold (\<lambda>(k, v). f (BytesToHash k) (BytesToHash v)) xs acc"
  by (induction xs arbitrary: acc) auto

definition clear :: "address \<Rightarrow> (bytes \<times> bytes) list \<Rightarrow> 's \<Rightarrow> 's" where
  "clear a = fold (\<lambda>(k, v) st. Keeper_SetState E st a (BytesToHash k) [])"

lemma clear_slots:
  "eStoreGet E (clear a xs s) k = (if \<exists>x\<in>set xs. k = AddressStoragePrefix a @ hash_bytes (BytesToHash (fst x)) then None else eStoreGet E s k)"
  "eGetAccount E (clear a xs s) = eGetAccount E s" "eBankBalance E (clear a xs s) = eBankBalance E s"
  "eLegacyParams E (clear a xs s) = eLegacyParams E s"
  unfolding clear_def by (induction xs arbitrary: s) (auto simp: SetState_store same_code_def split: prod.splits)

lemma clear_all:
  "Keeper_GetState E (clear a (eStoreIterator E s (AddressStoragePrefix a)) s) a = (\<lambda>_. 0)"
proof
  fix key
  let ?k = "AddressStoragePrefix a @ hash_bytes key"
  have "\<exists>x\<in>set (eStoreIterator E s (AddressStoragePrefix a)). ?k = AddressStoragePrefix a @ hash_bytes (BytesToHash (fst x))" if "eStoreGet E s ?k = Some v" for v
    unfolding store_iterator using that by (intro bexI[of _ "(?k, v)"]) auto
  then show "Keeper_GetState E (clear a (eStoreIterator E s (AddressStoragePrefix a)) s) a key = 0"
    by (cases "eStoreGet E s ?k") (auto simp: Keeper_GetState_def clear_slots)
qed

lemma Keeper_DeleteAccount_ok:
  assumes ok: "evm_ok E s" and r: "Keeper_DeleteAccount E s a = Inr s'"
  shows "evm_ok E s'" "can_hold_code E s' = can_hold_code E s" "Keeper_GetAccount E s' = (Keeper_GetAccount E s)(a := None)"
    "\<forall>b. b \<noteq> a \<longrightarrow> Keeper_GetState E s' b = Keeper_GetState E s b" "Keeper_GetAccount E s a \<noteq> None \<longrightarrow> Keeper_GetState E s' a = (\<lambda>_. 0)"
    "Keeper_GetCode E s' = Keeper_GetCode E s"
proof -
  have "evm_ok E s' \<and> can_hold_code E s' = can_hold_code E s \<and> Keeper_GetAccount E s' = (Keeper_GetAccount E s)(a := None) \<and>
    (\<forall>b. b \<noteq> a \<longrightarrow> Keeper_GetState E s' b = Keeper_GetState E s b) \<and> (Keeper_GetAccount E s a \<noteq> None \<longrightarrow> Keeper_GetState E s' a = (\<lambda>_. 0)) \<and>
    Keeper_GetCode E s' = Keeper_GetCode E s"
  proof (cases "eGetAccount E s (addr_bytes a)")
    case None
    then have "Keeper_GetAccount E s a = None" by (simp add: Keeper_GetAccount_def GetAccountWithoutBalance_def)
    then show ?thesis using r None ok by (simp add: Keeper_DeleteAccount_def fun_upd_idem)
  next
    case (Some ac)
    obtain s1 where s1: "Keeper_SetBalance E s a 0 = Inr s1" and h: "accCodeHash ac \<noteq> None" and s': "s' = eRemoveAccount E
        (clear a (eStoreIterator E s1 (AddressStoragePrefix a)) s1) ac"
      using r Some by (auto simp: Keeper_DeleteAccount_def Let_def bind_r_eq_Inr Keeper_ForEachStorage_def iterate_all clear_def split: if_splits)
    have ne: "eGetAccount E s (addr_bytes a) \<noteq> None" using Some by simp
    note sb = Keeper_SetBalance_ok[OF ok ne s1]
    have mod: "eModuleAddress E evm_module \<noteq> addr_bytes a" using ok Some h by (auto simp: evm_ok_def)
    have ga: "eGetAccount E s' = (eGetAccount E s)(addr_bytes a := None)" using account_address[OF Some] by (simp add: s' account_remove clear_slots sb)
    have st: "eStoreGet E s' = eStoreGet E (clear a (eStoreIterator E s1 (AddressStoragePrefix a)) s1)" by (simp add: s' account_remove)
    have other: "eStoreGet E s' k = eStoreGet E s k" if "\<And>h. k \<noteq> AddressStoragePrefix a @ hash_bytes h" for k
      using that by (simp add: st clear_slots sb)
    have lp: "eLegacyParams E s' = eLegacyParams E s1" "eBankBalance E s' = eBankBalance E s1" by (simp_all add: s' account_remove clear_slots)
    have p: "Keeper_GetParams E s' = Keeper_GetParams E s1" using lp other[of KeyPrefixParams] by (intro Keeper_GetParams_cong) (simp_all add: sb)
    have bal: "Keeper_GetBalance E s' b = Keeper_GetBalance E s1 b" for b by (simp add: Keeper_GetBalance_def p lp Let_def)
    have "evm_ok E s'" using ok mod by (simp add: evm_ok_def p sb ga)
    moreover have "can_hold_code E s' = can_hold_code E s" using h Some by (auto simp: can_hold_code_def ga fun_eq_iff)
    moreover have "Keeper_GetAccount E s' = (Keeper_GetAccount E s)(a := None)"
      by (auto simp: Keeper_GetAccount_def GetAccountWithoutBalance_def ga bal sb(4) fun_eq_iff split: option.split)
    moreover have "Keeper_GetState E s' b = Keeper_GetState E s b" if "b \<noteq> a" for b
      using that other by (simp add: Keeper_GetState_def fun_eq_iff)
    moreover have "Keeper_GetState E s' a = (\<lambda>_. 0)" using clear_all[of a s1] Keeper_GetState_cong[OF st] by simp
    moreover have "Keeper_GetCode E s' = Keeper_GetCode E s" using other by (simp add: Keeper_GetCode_def fun_eq_iff)
    ultimately show ?thesis by blast
  qed
  then show "evm_ok E s'" "can_hold_code E s' = can_hold_code E s" "Keeper_GetAccount E s' = (Keeper_GetAccount E s)(a := None)"
    "\<forall>b. b \<noteq> a \<longrightarrow> Keeper_GetState E s' b = Keeper_GetState E s b" "Keeper_GetAccount E s a \<noteq> None \<longrightarrow> Keeper_GetState E s' a = (\<lambda>_. 0)"
    "Keeper_GetCode E s' = Keeper_GetCode E s" by blast+
qed

end

sublocale evm_laws \<subseteq> kp: keeper_laws "evmKeeper E" "evm_ok E" "can_hold_code E"
proof
  fix s s' a acct
  assume "evm_ok E s" "can_hold_code E s a \<or> aCodeHash acct = emptyHash (evmKeeper E)" "kSetAccount (evmKeeper E) s a acct = Inr s'"
  then show "evm_ok E s' \<and> can_hold_code E s' = can_hold_code E s \<and>
      kGetAccount (evmKeeper E) s' = (kGetAccount (evmKeeper E) s)(a \<mapsto> stored_account (aNonce acct) (aBalance acct) (aCodeHash acct)) \<and>
      kGetState (evmKeeper E) s' = kGetState (evmKeeper E) s \<and> kGetCode (evmKeeper E) s' = kGetCode (evmKeeper E) s"
    using Keeper_SetAccount_ok[of s a acct s'] Keeper_GetState_cong[of E s' s] Keeper_GetCode_cong[of E s' s] by (simp add: evmKeeper_def)
next
  fix s s' a
  assume "evm_ok E s" "kDeleteAccount (evmKeeper E) s a = Inr s'"
  with Keeper_DeleteAccount_ok[of s a s'] show "evm_ok E s' \<and> can_hold_code E s' = can_hold_code E s \<and>
      kGetAccount (evmKeeper E) s' = (kGetAccount (evmKeeper E) s)(a := None) \<and>
      (\<forall>b. b \<noteq> a \<longrightarrow> kGetState (evmKeeper E) s' b = kGetState (evmKeeper E) s b) \<and>
      (kGetAccount (evmKeeper E) s a \<noteq> None \<longrightarrow> kGetState (evmKeeper E) s' a = (\<lambda>_. 0)) \<and> kGetCode (evmKeeper E) s' = kGetCode (evmKeeper E) s"
    by (simp add: evmKeeper_def)
qed (simp_all add: evmKeeper_def SetState_reads SetCode_reads write_frame)

context evm_laws
begin

lemma keeper: "keeper_laws (evmKeeper E) (evm_ok E) (can_hold_code E)"
  by (rule kp.keeper_laws_axioms)

end

section \<open>Commits are read back\<close>

lemma Commit_without_precompiles:
  assumes "writeCache c = None" "Commit K c = Inr c'"
  shows "commitWithCtx K c (ctxStore c) = Inr (ctxStore c')"
  using assms by (auto simp: Commit_def bind_r_eq_Inr)

text \<open>
  \<^bold>\<open>C25.\<close> A commit through the keeper is read back. After any run of EVM calls on a new database over the
  chain's store, a successful commit leaves a store on which a new database sees exactly the accounts
  of the old one: a self-destructed account is gone, and any other has the balance, nonce, code hash
  and storage it had, whether the balance was adjusted by minting or by burning. It is stated for an
  account with a journalled change or none at all; resetting an account is not such a change. An
  account the chain holds as a module or base account cannot take a code hash, so its object must have
  the empty one.
\<close>

theorem committed_state_is_read_back:
  assumes "evm_laws E" "evm_ok E ctx" "exec_ops (evmKeeper E) ops (New m ctx evs cfg) = Inr c" "writeCache c = None"
    "Commit (evmKeeper E) c = Inr c'" "tracked c a"
    "\<And>b so. stateObjects c b = Some so \<Longrightarrow> can_hold_code E ctx b \<or> aCodeHash (soAccount so) = eKeccak256 E []"
  shows "evm_ok E (ctxStore c') \<and> rereads (evmKeeper E) c (New m' (ctxStore c') evs' cfg') a"
proof -
  have ctx: "ctxStore c = ctx" by (rule sim_runs_New[OF assms(3)])
  have cm: "commitWithCtx (evmKeeper E) c ctx = Inr (ctxStore c')" using Commit_without_precompiles[OF assms(4,5)] by (simp add: ctx)
  have hc: "stateObjects c b = Some so \<Longrightarrow> can_hold_code E ctx b \<or> aCodeHash (soAccount so) = emptyHash (evmKeeper E)" for b so
    using assms(7) by (simp add: evmKeeper_def)
  note k = keeper_laws.commit_rereads[OF evm_laws.keeper[OF assms(1)] assms(3,2) cm assms(6) hc]
  show ?thesis by (rule conjI[OF k(1) k(2)])
qed

section \<open>A ledger in memory\<close>

text \<open>A concrete SDK for the witnesses: accounts and store as lists, balances as a function.\<close>

record mem_sdk =
  mAccounts :: "sdk_account list"
  mBank :: "bytes \<Rightarrow> string \<Rightarrow> int"
  mStore :: "(bytes \<times> bytes) list"
  mTransient :: "(bytes \<times> bytes) list"

definition mem_add :: "mem_sdk \<Rightarrow> bytes \<Rightarrow> string \<Rightarrow> int \<Rightarrow> mem_sdk" where
  "mem_add s a d n = s\<lparr>mBank := (mBank s)(a := (mBank s a)(d := mBank s a d + n))\<rparr>"

definition mem_module :: "string \<Rightarrow> bytes" where
  "mem_module m = []"

definition mem_move :: "mem_sdk \<Rightarrow> bytes \<Rightarrow> bytes \<Rightarrow> string \<times> int \<Rightarrow> mem_sdk result" where
  "mem_move s a b c = (if mBank s a (fst c) < snd c then Inl (Wrapf ErrInsufficientFunds ''spendable balance'')
     else Inr (mem_add (mem_add s a (fst c) (- snd c)) b (fst c) (snd c)))"

definition memEnv :: "mem_sdk evm_env" where
  "memEnv = \<lparr>eGetAccount = (\<lambda>s a. find (\<lambda>x. accAddress x = a) (mAccounts s)),
     eSetAccount = (\<lambda>s acc. s\<lparr>mAccounts := acc # filter (\<lambda>x. accAddress x \<noteq> accAddress acc) (mAccounts s)\<rparr>),
     eNewAccountWithAddress = (\<lambda>s a. (s, \<lparr>accAddress = a, accSequence = 0, accCodeHash = Some 0\<rparr>)),
     eRemoveAccount = (\<lambda>s acc. s\<lparr>mAccounts := filter (\<lambda>x. accAddress x \<noteq> accAddress acc) (mAccounts s)\<rparr>),
     eModuleAddress = mem_module, eBankBalance = mBank,
     eMintCoins = (\<lambda>s m c. Inr (mem_add s (mem_module m) (fst c) (snd c))),
     eBurnCoins = (\<lambda>s m c. if mBank s (mem_module m) (fst c) < snd c then Inl (Wrapf ErrInsufficientFunds ''burn'')
        else Inr (mem_add s (mem_module m) (fst c) (- snd c))),
     eSendFromModule = (\<lambda>s m b c. mem_move s (mem_module m) b c), eSendToModule = (\<lambda>s b m c. mem_move s b (mem_module m) c),
     eStoreGet = (\<lambda>s. map_of (mStore s)), eStoreSet = (\<lambda>s k v. s\<lparr>mStore := AList.update k v (mStore s)\<rparr>),
     eStoreDelete = (\<lambda>s k. s\<lparr>mStore := AList.delete k (mStore s)\<rparr>),
     eStoreIterator = (\<lambda>s p. filter (\<lambda>x. take (length p) (fst x) = p) (map (\<lambda>k. (k, the (map_of (mStore s) k))) (remdups (map fst (mStore s))))),
     eTransientGet = (\<lambda>s. map_of (mTransient s)), eTransientSet = (\<lambda>s k v. s\<lparr>mTransient := AList.update k v (mTransient s)\<rparr>),
     eTransientDelete = (\<lambda>s k. s\<lparr>mTransient := AList.delete k (mTransient s)\<rparr>),
     eUnmarshalParams = (\<lambda>bz. \<lparr>EvmDenom = map (\<lambda>b. char_of (unat b)) bz, ActiveStaticPrecompiles = [], ExtraEIPs = []\<rparr>),
     eLegacyParams = (\<lambda>s. \<lparr>EvmDenom = ''aISLM'', ActiveStaticPrecompiles = [], ExtraEIPs = []\<rparr>),
     eKeccak256 = (\<lambda>bz. of_nat (length bz)), eCacheWrite = (\<lambda>c s. c)\<rparr>"

lemma find_upd: "find (\<lambda>x. accAddress x = a) (filter (\<lambda>x. accAddress x \<noteq> b) xs) = (if a = b then None else find (\<lambda>x. accAddress x = a) xs)"
  by (induction xs) auto

lemma mem_iterator: "(k, v) \<in> (\<lambda>k. (k, the (map_of xs k))) ` set (map fst xs) \<longleftrightarrow> map_of xs k = Some v"
  by (auto simp: image_iff) (metis map_of_is_SomeI map_of_SomeD option.sel map_of_eq_None_iff image_iff not_None_eq fst_conv)+

interpretation mem: evm_laws memEnv
proof (unfold_locales, goal_cases)
  case (9 s a acc)
  then show ?case by (auto simp: memEnv_def find_Some_iff)
next
  case (19 s p)
  then show ?case using mem_iterator[of _ _ "mStore s"] by (auto simp: memEnv_def)
qed (auto simp: memEnv_def find_upd fun_eq_iff keeps_others_def moved_def mem_move_def mem_add_def update_conv' delete_conv' split: if_splits)

definition demoChain :: mem_sdk where
  "demoChain = \<lparr>mAccounts = [\<lparr>accAddress = mem_module evm_module, accSequence = 0, accCodeHash = None\<rparr>,
       \<lparr>accAddress = addr_bytes 7, accSequence = 3, accCodeHash = Some 0\<rparr>],
     mBank = (\<lambda>a d. if a = addr_bytes 7 then 100 else 0), mStore = [], mTransient = []\<rparr>"

definition demoDeploy :: "db_op list" where
  "demoDeploy = [OpSubBalance 7 30, OpAddBalance 8 30, OpSetNonce 8 1, OpSetCode 8 (Some [96, 1]), OpSetState 8 1 5]"

definition demoDeployed :: "(mem_sdk, nat) state_db result" where
  "demoDeployed = exec_ops (evmKeeper memEnv) demoDeploy (New True demoChain [] (NewEmptyTxConfig 0))"

lemmas keeper_eval = db_eval evmKeeper_def memEnv_def Keeper_GetAccount_def GetAccountWithoutBalance_def Keeper_GetBalance_def Keeper_GetParams_def
  Keeper_GetState_def Keeper_GetCode_def demoChain_def mem_module_def SetNonce_def so_SetNonce_def setNonce_def SetCode_def so_SetCode_def setCode_def so_Code_def

lemma demoDeployed_ok:
  "(case demoDeployed of Inl _ \<Rightarrow> False | Inr c \<Rightarrow> writeCache c = None \<and> snd (GetBalance (evmKeeper memEnv) c 8) = 30 \<and>
     8 \<in> set (sortedDirties (sJournal c)) \<and> dom (stateObjects c) = {8, 7})"
  "(case bind_r demoDeployed (Commit (evmKeeper memEnv)) of Inl _ \<Rightarrow> False | Inr c' \<Rightarrow> mBank (ctxStore c') (addr_bytes 8) ''aISLM'' = 30)"
  by (simp_all add: demoDeployed_def demoDeploy_def keeper_eval sortedDirties_def Commit_def commitWithCtx_def commit_object_def SortedKeys_def
    Keeper_SetAccount_def Keeper_SetBalance_def Keeper_SetCode_def Keeper_SetState_def mem_move_def mem_add_def)

theorem committed_state_is_read_back_witness:
  "\<exists>c c'. demoDeployed = Inr c \<and> Commit (evmKeeper memEnv) c = Inr c' \<and> snd (GetBalance (evmKeeper memEnv) c 8) = 30 \<and>
     evm_ok memEnv (ctxStore c') \<and> rereads (evmKeeper memEnv) c (New True (ctxStore c') [] (NewEmptyTxConfig 0)) 8"
proof -
  from demoDeployed_ok(1) obtain c where c: "demoDeployed = Inr c" "writeCache c = None" "snd (GetBalance (evmKeeper memEnv) c 8) = 30"
    "8 \<in> set (sortedDirties (sJournal c))" "dom (stateObjects c) = {8, 7}" by (auto split: sum.splits)
  obtain c' where c': "Commit (evmKeeper memEnv) c = Inr c'"
    using demoDeployed_ok(2) by (cases "Commit (evmKeeper memEnv) c") (auto simp: c(1))
  have "can_hold_code memEnv demoChain b \<or> aCodeHash (soAccount so) = eKeccak256 memEnv []" if "stateObjects c b = Some so" for b so
  proof -
    have "b = 8 \<or> b = 7" using c(5) that by blast
    then show ?thesis by (auto simp: can_hold_code_def memEnv_def demoChain_def mem_module_def)
  qed
  then have "evm_ok memEnv (ctxStore c') \<and> rereads (evmKeeper memEnv) c (New True (ctxStore c') [] (NewEmptyTxConfig 0)) 8"
    using c(4) by (intro committed_state_is_read_back[OF mem.evm_laws_axioms _ c(1)[unfolded demoDeployed_def] c(2) c'])
      (auto simp: evm_ok_def tracked_def memEnv_def demoChain_def Keeper_GetParams_def)
  with c c' show ?thesis by auto
qed

section \<open>Gas used by the messages of a transaction\<close>

fun add_gas_all :: "'s evm_env \<Rightarrow> 's \<Rightarrow> 64 word list \<Rightarrow> 's result" where
  "add_gas_all E s [] = Inr s"
| "add_gas_all E s (gas # rest) = bind_r (AddTransientGasUsed E s gas) (\<lambda>(s1, _). add_gas_all E s1 rest)"

context evm_laws
begin

lemma transient_gas: "GetTransientGasUsed E (SetTransientGasUsed E s g) = g"
proof -
  have "be_bytes 8 g \<noteq> []" by (simp flip: length_0_conv)
  then show ?thesis
    by (simp add: GetTransientGasUsed_def SetTransientGasUsed_def transient_uint64_def transient_set be_word_bytes take_bit_word_eq_self)
qed

lemma add_gas_all_sums:
  "case add_gas_all E s gs of
     Inr s' \<Rightarrow> unat (GetTransientGasUsed E s') = unat (GetTransientGasUsed E s) + sum_list (map unat gs)
   | Inl e \<Rightarrow> e = Wrapf ErrGasOverflow ''transient gas used'' \<and> 2 ^ 64 \<le> unat (GetTransientGasUsed E s) + sum_list (map unat gs)"
proof (induction gs arbitrary: s)
  case (Cons g gs)
  let ?u = "GetTransientGasUsed E s"
  show ?case
  proof (cases "?u + g < g")
    case True
    then have "2 ^ 64 \<le> unat ?u + unat g" by (simp only: word_add_wraps)
    then show ?thesis using True by (simp add: AddTransientGasUsed_def Let_def)
  next
    case False
    then have u: "unat (?u + g) = unat ?u + unat g" by (rule word_add_wraps)
    show ?thesis using False Cons.IH[of "SetTransientGasUsed E s (?u + g)"]
      by (auto simp: AddTransientGasUsed_def Let_def transient_gas u split: sum.splits)
  qed
qed simp

end

text \<open>
  The gas used by the Ethereum messages of a transaction is summed without overflow. After a
  reset, adding the gas of the messages one by one leaves their exact sum in the transient store, or
  fails with the overflow error, and it fails only when the sum does not fit 64 bits.
\<close>

theorem transient_gas_used_sums:
  assumes "evm_laws E"
  shows "case add_gas_all E (ResetTransientGasUsed E s) gs of
     Inr s' \<Rightarrow> unat (GetTransientGasUsed E s') = sum_list (map unat gs)
   | Inl e \<Rightarrow> e = Wrapf ErrGasOverflow ''transient gas used'' \<and> 2 ^ 64 \<le> sum_list (map unat gs)"
proof -
  have "GetTransientGasUsed E (ResetTransientGasUsed E s) = 0"
    by (simp add: GetTransientGasUsed_def ResetTransientGasUsed_def transient_uint64_def evm_laws.transient_delete[OF assms])
  then show ?thesis using evm_laws.add_gas_all_sums[OF assms, of "ResetTransientGasUsed E s" gs] by (simp split: sum.splits)
qed

theorem transient_gas_used_sums_witness:
  "case add_gas_all memEnv (ResetTransientGasUsed memEnv demoChain) [21000, 50000] of
     Inr s' \<Rightarrow> unat (GetTransientGasUsed memEnv s') = 71000 | Inl e \<Rightarrow> False"
  using transient_gas_used_sums[OF mem.evm_laws_axioms, of "[21000, 50000]" demoChain] by (simp split: sum.splits)

end
