(* ===== verification/Precompile.thy ===== *)
theory Precompile
  imports EvmKeeper
begin

text \<open>
  The frame every stateful precompile runs in, precompiles/common/precompile.go: the setup that
  commits the database to the cached context, the choice of the ABI method, and the undoing of
  failed calls. The ABI decoder and the SDK's gas meter are parameters.
\<close>

section \<open>Data\<close>

record abi_method =
  mName :: string
  mIsFunction :: bool

record 'a abi_api =
  HasReceive :: bool
  HasFallback :: bool
  Receive :: abi_method
  Fallback :: abi_method
  MethodById :: "bytes \<Rightarrow> abi_method option"
  UnpackInputs :: "abi_method \<Rightarrow> bytes \<Rightarrow> 'a option"

record gas_config =
  WriteCostFlat :: "64 word"
  WriteCostPerByte :: "64 word"
  ReadCostFlat :: "64 word"
  ReadCostPerByte :: "64 word"

datatype Operation = Sub | Add

record balanceChangeEntry =
  beAccount :: address
  beAmount :: int
  beOp :: Operation

definition NewBalanceChangeEntry :: "address \<Rightarrow> int \<Rightarrow> Operation \<Rightarrow> balanceChangeEntry" where
  "NewBalanceChangeEntry acc amt op = \<lparr>beAccount = acc, beAmount = amt, beOp = op\<rparr>"

record 'a precompile =
  pABI :: "'a abi_api"
  KvGasConfig :: gas_config
  pAddress :: address
  journalEntries :: "balanceChangeEntry list"

record ('k, 'e) snapshot =
  MultiStore :: 'k
  Events :: "'e list"

text \<open>The parts of \<^verbatim>\<open>vm.Contract\<close> the precompiles use.\<close>

record vm_contract =
  cInput :: bytes
  cValue :: int
  cGas :: "64 word"

definition UseGas :: "vm_contract \<Rightarrow> 64 word \<Rightarrow> vm_contract \<times> bool" where
  "UseGas c gas = (if cGas c < gas then (c, False) else (c\<lparr>cGas := cGas c - gas\<rparr>, True))"

text \<open>Consuming gas on a new meter: it can run out, or the sum can overflow.\<close>

datatype gas_panic = OutOfGas | GasOverflow

abbreviation "ErrExecutionReverted \<equiv> Errorf ''execution reverted''"
abbreviation "ErrWriteProtection \<equiv> Errorf ''write protection''"
abbreviation "VmErrOutOfGas \<equiv> Errorf ''out of gas''"

section \<open>Gas and methods\<close>

definition RequiredGas :: "'a precompile \<Rightarrow> bytes \<Rightarrow> bool \<Rightarrow> 64 word result" where
  "RequiredGas p input isTransaction =
     (if length input < 4 then Inl (Panic ''slice bounds out of range'')
      else let argsBz = drop 4 input; g = KvGasConfig p in
        Inr (if isTransaction then WriteCostFlat g + WriteCostPerByte g * of_nat (length argsBz)
             else ReadCostFlat g + ReadCostPerByte g * of_nat (length argsBz)))"

definition emptyCallData :: "'a precompile \<Rightarrow> vm_contract \<Rightarrow> abi_method result" where
  "emptyCallData p contract =
     (if cValue contract > 0 \<and> HasReceive (pABI p) then Inr (Receive (pABI p))
      else if HasFallback (pABI p) then Inr (Fallback (pABI p))
      else Inl ErrExecutionReverted)"

definition methodIDCallData :: "'a precompile \<Rightarrow> abi_method result" where
  "methodIDCallData p = (if \<not> HasFallback (pABI p) then Inl ErrExecutionReverted else Inr (Fallback (pABI p)))"

definition standardCallData :: "'a precompile \<Rightarrow> vm_contract \<Rightarrow> abi_method result" where
  "standardCallData p contract =
     (case MethodById (pABI p) (take 4 (cInput contract)) of
        None \<Rightarrow> if \<not> HasFallback (pABI p) then Inl (Errorf ''no method with id'') else Inr (Fallback (pABI p))
      | Some method \<Rightarrow> Inr method)"

section \<open>Running a precompile\<close>

text \<open>\<^verbatim>\<open>RunAtomic\<close>: what the call returns and the database after it, rolled back on an error.\<close>

definition RunAtomic :: "('k, 'e) snapshot \<Rightarrow> ('k, 'e) state_db \<Rightarrow>
    (('k, 'e) state_db \<Rightarrow> ('k, 'e) state_db \<times> bytes result) \<Rightarrow> ('k, 'e) state_db \<times> bytes result" where
  "RunAtomic s stateDB fn =
     (case fn stateDB of
        (db1, Inl e) \<Rightarrow> (RevertMultiStore db1 (MultiStore s) (Events s), Inl e)
      | (db1, Inr bz) \<Rightarrow> (db1, Inr bz))"

text \<open>
  The deferred handler of gas panics. Its context is the one before the new gas meter, so the
  gas it charges is what that meter has consumed above \<open>initialGas\<close>.
\<close>

definition HandleGasError :: "64 word \<Rightarrow> vm_contract \<Rightarrow> 64 word \<Rightarrow> ('k, 'e) state_db \<Rightarrow> ('k, 'e) snapshot \<Rightarrow> gas_panic \<Rightarrow>
    (('k, 'e) state_db \<times> vm_contract \<times> err) result" where
  "HandleGasError consumed contract initialGas stateDB s r =
     (case r of
        OutOfGas \<Rightarrow>
          (let usedGas = consumed - initialGas in
           Inr (RevertMultiStore stateDB (MultiStore s) (Events s), fst (UseGas contract usedGas), VmErrOutOfGas))
      | GasOverflow \<Rightarrow> Inl (Panic ''gas overflow''))"

record ('k, 'e, 'a) run_setup =
  stCtx :: 'k
  stSnapshot :: "('k, 'e) snapshot"
  stMethod :: abi_method
  stInitialGas :: "64 word"
  stArgs :: "'a option"

text \<open>
  \<^verbatim>\<open>RunSetup\<close>. An outer error is a failed commit to the cached context or a panic, for which the
  database is not tracked; otherwise the database after the setup comes with the inner error or
  with the setup. \<open>consume\<close> is \<^verbatim>\<open>NewGasMeter(limit).ConsumeGas\<close>, \<open>consumed\<close> the gas already consumed.
\<close>

definition choose_method :: "'a precompile \<Rightarrow> vm_contract \<Rightarrow> abi_method result" where
  "choose_method p contract =
     (if cInput contract = [] then emptyCallData p contract
      else if length (cInput contract) < 4 then methodIDCallData p
      else standardCallData p contract)"

definition RunSetup :: "'k keeper_api \<Rightarrow> (64 word \<Rightarrow> 64 word \<Rightarrow> gas_panic option) \<Rightarrow> 'a precompile \<Rightarrow> ('k, 'e) state_db \<Rightarrow>
    vm_contract \<Rightarrow> bool \<Rightarrow> (string \<Rightarrow> bool) \<Rightarrow> 64 word \<Rightarrow> (('k, 'e) state_db \<times> ('k, 'e, 'a) run_setup result) result" where
  "RunSetup K consume p db contract readOnly isTransaction consumed =
     (case GetCacheContext db of
        Inl e \<Rightarrow> Inr (db, Inl e)
      | Inr db1 \<Rightarrow>
          bind_r (MultiStoreSnapshot db1) (\<lambda>(db2, cms).
          let s = \<lparr>MultiStore = cms, Events = cacheEvents db2\<rparr> in
          bind_r (CommitWithCacheCtx K db2) (\<lambda>db3.
          case choose_method p contract of
            Inl e \<Rightarrow> Inr (db3, Inl e)
          | Inr method \<Rightarrow>
              if readOnly \<and> isTransaction (mName method) then Inr (db3, Inl ErrWriteProtection)
              else
                let args = (if mIsFunction method then UnpackInputs (pABI p) method (drop 4 (cInput contract)) else None) in
                if mIsFunction method \<and> args = None then Inr (db3, Inl (Errorf ''abi: cannot unmarshal''))
                else
                  let initialGas = consumed in
                  case consume (cGas contract) initialGas of
                    None \<Rightarrow> Inr (db3, Inr \<lparr>stCtx = the (cacheStore db3), stSnapshot = s, stMethod = method,
                       stInitialGas = initialGas, stArgs = args\<rparr>)
                  | Some r \<Rightarrow>
                      bind_r (HandleGasError consumed contract initialGas db3 s r) (\<lambda>(db4, contract1, e). Inr (db4, Inl e)))))"

definition apply_entry :: "'k keeper_api \<Rightarrow> balanceChangeEntry \<Rightarrow> ('k, 'e) state_db \<Rightarrow> ('k, 'e) state_db" where
  "apply_entry K entry stateDB =
     (case beOp entry of
        Sub \<Rightarrow> SubBalance K stateDB (beAccount entry) (beAmount entry)
      | Add \<Rightarrow> AddBalance K stateDB (beAccount entry) (beAmount entry))"

definition AddJournalEntries :: "'k keeper_api \<Rightarrow> 'a precompile \<Rightarrow> ('k, 'e) state_db \<Rightarrow> ('k, 'e) snapshot \<Rightarrow> ('k, 'e) state_db \<times> err option" where
  "AddJournalEntries K p stateDB s =
     AddPrecompileFn K (fold (apply_entry K) (journalEntries p) stateDB) (pAddress p) (MultiStore s) (Events s)"

definition SetBalanceChangeEntries :: "'a precompile \<Rightarrow> balanceChangeEntry list \<Rightarrow> 'a precompile" where
  "SetBalanceChangeEntries p entries = p\<lparr>journalEntries := entries\<rparr>"

definition AddBalanceChangeEntries :: "'a precompile \<Rightarrow> balanceChangeEntry list \<Rightarrow> 'a precompile" where
  "AddBalanceChangeEntries p entries = p\<lparr>journalEntries := journalEntries p @ entries\<rparr>"

section \<open>What a failed setup leaves behind\<close>

lemma cache_ready:
  assumes "GetCacheContext db = Inr db1" "writeCache db \<noteq> None \<Longrightarrow> cacheStore db \<noteq> None"
  obtains cms where "cacheStore db1 = Some cms" "MultiStoreSnapshot db1 = Inr (db1, cms)" "writeCache db1 \<noteq> None"
    "sJournal db1 = sJournal db" "stateObjects db1 = stateObjects db" "validRevisions db1 = validRevisions db"
  using assms by (cases "writeCache db") (auto simp: GetCacheContext_def MultiStoreSnapshot_def cache_def split: if_splits)

text \<open>
  \<^bold>\<open>C27.\<close> A precompile call that fails in its setup leaves the uncommitted state of the transaction in the
  cached store. When the calldata selects no method, the setup has already written every dirty account
  of the database to the cached context; it returns the error with that write in place and with an
  unchanged journal, so nothing on the journal will take the write back.
\<close>

theorem failed_setup_keeps_commit:
  assumes "GetCacheContext db = Inr db1" "writeCache db \<noteq> None \<Longrightarrow> cacheStore db \<noteq> None"
    "commitWithCtx K db1 (the (cacheStore db1)) = Inr cms'" "choose_method p contract = Inl e"
  shows "\<exists>db'. RunSetup K consume p db contract readOnly isTx consumed = Inr (db', Inl e) \<and>
    cacheStore db' = Some cms' \<and> writeCache db' \<noteq> None \<and> sJournal db' = sJournal db \<and> validRevisions db' = validRevisions db"
proof -
  obtain c where c: "cacheStore db1 = Some c" "MultiStoreSnapshot db1 = Inr (db1, c)" "writeCache db1 \<noteq> None"
    "sJournal db1 = sJournal db" "validRevisions db1 = validRevisions db" by (rule cache_ready[OF assms(1,2)])
  have "CommitWithCacheCtx K db1 = Inr (db1\<lparr>cacheStore := Some cms'\<rparr>)" using assms(3) c(1) by (simp add: CommitWithCacheCtx_def)
  then show ?thesis using assms(1,4) c by (simp add: RunSetup_def)
qed

text \<open>
  A run that shows what this means. Account 7 holds 100 coins. In a call frame it sends 30 to account
  8, the frame calls a precompile with an unknown selector and is then reverted; later in the
  transaction the nonce of account 7 is set, and the transaction is committed.
\<close>

definition demoPrecompile :: "unit precompile" where
  "demoPrecompile = \<lparr>pABI = \<lparr>HasReceive = False, HasFallback = False, Receive = \<lparr>mName = [], mIsFunction = False\<rparr>,
       Fallback = \<lparr>mName = [], mIsFunction = False\<rparr>, MethodById = (\<lambda>_. None), UnpackInputs = (\<lambda>_ _. Some ())\<rparr>,
     KvGasConfig = \<lparr>WriteCostFlat = 2000, WriteCostPerByte = 30, ReadCostFlat = 1000, ReadCostPerByte = 3\<rparr>,
     pAddress = 2048, journalEntries = []\<rparr>"

definition demoCall :: vm_contract where
  "demoCall = \<lparr>cInput = [1, 2, 3, 4], cValue = 0, cGas = 100000\<rparr>"

definition demoSent :: "(mem_sdk, nat) state_db result" where
  "demoSent = exec_ops (evmKeeper memEnv) [OpSnapshot, OpSubBalance 7 30, OpAddBalance 8 30] (New True demoChain [] (NewEmptyTxConfig 0))"

definition demoSetup :: "(mem_sdk, nat) state_db \<Rightarrow> ((mem_sdk, nat) state_db \<times> (mem_sdk, nat, unit) run_setup result) result" where
  "demoSetup db = RunSetup (evmKeeper memEnv) (\<lambda>_ _. None) demoPrecompile db demoCall False (\<lambda>_. True) 0"

definition demoReverted :: "(mem_sdk, nat) state_db result" where
  "demoReverted = bind_r demoSent (\<lambda>db. bind_r (demoSetup db) (\<lambda>(db', _).
     bind_r (exec_ops (evmKeeper memEnv) [OpRevertToSnapshot 0, OpSetNonce 7 4] db') (Commit (evmKeeper memEnv))))"

lemmas setup_eval = keeper_eval demoSent_def demoSetup_def demoPrecompile_def demoCall_def RunSetup_def GetCacheContext_def MultiStoreSnapshot_def
  CommitWithCacheCtx_def cache_def choose_method_def standardCallData_def sortedDirties_def Commit_def commitWithCtx_def commit_object_def SortedKeys_def
  Keeper_SetAccount_def Keeper_SetBalance_def Keeper_SetCode_def Keeper_SetState_def mem_move_def mem_add_def

lemma demoSent_ok:
  "(case demoSent of Inl _ \<Rightarrow> False | Inr db \<Rightarrow> writeCache db = None \<and>
     (case GetCacheContext db of Inl _ \<Rightarrow> False | Inr db1 \<Rightarrow> (case commitWithCtx (evmKeeper memEnv) db1 (the (cacheStore db1)) of Inl _ \<Rightarrow> False
        | Inr cms \<Rightarrow> mBank cms (addr_bytes 8) ''aISLM'' = 30)))"
  by (simp add: setup_eval)

lemma demoReverted_ok:
  "(case demoReverted of Inl _ \<Rightarrow> False | Inr c \<Rightarrow> mBank (ctxStore c) (addr_bytes 7) ''aISLM'' = 100 \<and> mBank (ctxStore c) (addr_bytes 8) ''aISLM'' = 30)"
  by (simp add: demoReverted_def setup_eval)

text \<open>The reverted transfer is half undone: account 7 has its 100 coins back and account 8 keeps 30.\<close>

theorem failed_setup_keeps_commit_witness:
  "(\<exists>db db' cms. demoSent = Inr db \<and> demoSetup db = Inr (db', Inl (Errorf ''no method with id'')) \<and> sJournal db' = sJournal db \<and>
      cacheStore db' = Some cms \<and> mBank cms (addr_bytes 8) ''aISLM'' = 30) \<and>
   (\<exists>c. demoReverted = Inr c \<and> mBank (ctxStore c) (addr_bytes 7) ''aISLM'' = 100 \<and> mBank (ctxStore c) (addr_bytes 8) ''aISLM'' = 30)"
proof -
  from demoSent_ok obtain db db1 cms where db: "demoSent = Inr db" "writeCache db = None" "GetCacheContext db = Inr db1"
    "commitWithCtx (evmKeeper memEnv) db1 (the (cacheStore db1)) = Inr cms" "mBank cms (addr_bytes 8) ''aISLM'' = 30" by (auto split: sum.splits)
  have m: "choose_method demoPrecompile demoCall = Inl (Errorf ''no method with id'')"
    by (simp add: choose_method_def demoPrecompile_def demoCall_def standardCallData_def)
  have "\<exists>db'. demoSetup db = Inr (db', Inl (Errorf ''no method with id'')) \<and> cacheStore db' = Some cms \<and> writeCache db' \<noteq> None \<and>
      sJournal db' = sJournal db \<and> validRevisions db' = validRevisions db"
    unfolding demoSetup_def by (rule failed_setup_keeps_commit[OF db(3) _ db(4) m]) (use db(2) in simp)
  with db(1,5) demoReverted_ok show ?thesis by (auto split: sum.splits)
qed

section \<open>Successful calls can be undone\<close>

text \<open>Balance changes and new objects put no precompile entry on the journal.\<close>

fun plain :: "('k, 'e) journal_entry \<Rightarrow> bool" where
  "plain (precompileCallChange cms events) = False"
| "plain _ = True"

definition appends_plain :: "('k, 'e) state_db \<Rightarrow> ('k, 'e) state_db \<Rightarrow> bool" where
  "appends_plain s s' \<longleftrightarrow> writeCache s' = writeCache s \<and> ctxEvents s' = ctxEvents s \<and>
     (\<exists>new. jEntries (sJournal s') = jEntries (sJournal s) @ new \<and> list_all plain new)"

lemma events_frame [simp]: "ctxEvents (s_append e s) = ctxEvents s" "ctxEvents (setStateObject s so) = ctxEvents s"
  by (simp_all add: s_append_def setStateObject_def)

lemma appends_plain_refl: "appends_plain s s"
  by (simp add: appends_plain_def)

lemma appends_plain_trans: "appends_plain s s1 \<Longrightarrow> appends_plain s1 s2 \<Longrightarrow> appends_plain s s2"
  by (auto simp: appends_plain_def)

lemma appends_plain_put: "plain e \<Longrightarrow> appends_plain s (setStateObject (s_append e s) so)"
  by (simp add: appends_plain_def)

lemma getStateObject_plain: "appends_plain s (fst (getStateObject K s a))"
  by (auto simp: appends_plain_def getStateObject_def Let_def split: option.split)

lemma createObject_plain: "appends_plain s (fst (createObject K s a))"
proof -
  obtain s1 prev where g: "getStateObject K s a = (s1, prev)" by (cases "getStateObject K s a")
  then have "appends_plain s s1" using getStateObject_plain[of s K a] by simp
  then show ?thesis using appends_plain_put[of "case prev of None \<Rightarrow> createObjectChange a | Some p \<Rightarrow> resetObjectChange p" s1]
    by (auto simp: createObject_def g Let_def intro: appends_plain_trans split: option.split)
qed

lemma getOrNewStateObject_plain: "appends_plain s (fst (getOrNewStateObject K s a))"
proof -
  obtain s1 ob where g: "getStateObject K s a = (s1, ob)" by (cases "getStateObject K s a")
  then have "appends_plain s s1" using getStateObject_plain[of s K a] by simp
  then show ?thesis using createObject_plain[of s1 K a]
    by (auto simp: getOrNewStateObject_def g intro: appends_plain_trans split: option.split prod.split)
qed

lemma apply_entry_plain: "appends_plain s (apply_entry K entry s)"
proof -
  obtain s1 so where g: "getOrNewStateObject K s (beAccount entry) = (s1, so)" by (cases "getOrNewStateObject K s (beAccount entry)")
  then have "appends_plain s s1" using getOrNewStateObject_plain[of s K "beAccount entry"] by simp
  moreover have "appends_plain s1 (so_SetBalance s1 so n)" for n by (simp add: so_SetBalance_def appends_plain_put)
  ultimately show ?thesis
    by (auto simp: apply_entry_def AddBalance_def SubBalance_def g so_AddBalance_def so_SubBalance_def intro: appends_plain_trans split: Operation.split)
qed

lemma entries_plain: "appends_plain s (fold (apply_entry K) es s)"
proof (induction es arbitrary: s)
  case (Cons e es)
  show ?case using appends_plain_trans[OF apply_entry_plain Cons, of s K e] by simp
qed (simp add: appends_plain_refl)

lemma apply_entry_records: "sdb_ok K s \<Longrightarrow> records K s (apply_entry K entry s)"
  using AddBalance_ok[of K s "beAccount entry" "beAmount entry"] SubBalance_ok[of K s "beAccount entry" "beAmount entry"]
  by (simp add: apply_entry_def op_ok_def split: Operation.split)

lemma entries_records: "sdb_ok K s \<Longrightarrow> records K s (fold (apply_entry K) es s)"
proof (induction es arbitrary: s)
  case (Cons e es)
  note r = apply_entry_records[OF Cons.prems, of e]
  then show ?case using Cons.IH[OF recordsD(1)[OF r]] records_trans[OF r] by simp
qed (simp add: records_refl)

lemma undo_plain_cache:
  assumes "plain e"
  shows "undo_view K ctx e (w\<lparr>wCache := c\<rparr>) = map_option (\<lambda>w. w\<lparr>wCache := c\<rparr>) (undo_view K ctx e w)"
  using assms by (cases e) (auto simp: w_change_def split: option.split sum.split)

lemma undo_all_plain_cache:
  assumes "list_all plain es"
  shows "undo_all K ctx es (w\<lparr>wCache := c\<rparr>) = map_option (\<lambda>w. w\<lparr>wCache := c\<rparr>) (undo_all K ctx es w)"
  using assms by (induction es) (auto simp: undo_plain_cache split: bind_splits)

lemma precompile_entry_ok:
  assumes "sdb_ok K s"
  shows "sdb_ok K ((s_append (precompileCallChange cms evs) s)\<lparr>precompileCallsCounter := n\<rparr>)"
proof -
  have "inv_es K s (jEntries (sJournal s))" using assms by (simp add: sdb_ok_def)
  then have "inv_es K ((s_append (precompileCallChange cms evs) s)\<lparr>precompileCallsCounter := n\<rparr>) (jEntries (sJournal s) @ [precompileCallChange cms evs])"
    by (auto simp: inv_es_def s_append_journal fresh_creates_snoc append_dirties)
  then show ?thesis using assms by (simp add: sdb_ok_def)
qed

text \<open>The part of a call after its setup: the method has left \<open>cms2\<close> and \<open>evs2\<close> in the cached context.\<close>

lemma journalled_call_records:
  assumes ok: "sdb_ok K db" and g: "GetCacheContext db = Inr db1" and c: "cacheStore db1 = Some cms" "wCache (view K db) = cms"
    and db4: "db4 = db1\<lparr>cacheStore := Some cms2, cacheEvents := evs2\<rparr>"
    and j: "AddJournalEntries K p db4 \<lparr>MultiStore = cms, Events = evs\<rparr> = (db7, e)"
  shows "records K db db7"
proof -
  have db1: "db1 = db \<or> db1 = db\<lparr>cacheStore := Some (ctxStore db), cacheEvents := [], writeCache := Some CacheWrite\<rparr>" "writeCache db1 \<noteq> None"
    using g by (auto simp: GetCacheContext_def cache_def split: if_splits)
  then have ok4: "sdb_ok K db4" using ok by (auto simp: sdb_ok_def inv_es_def db4)
  have v4: "view K db4 = (view K db)\<lparr>wCache := cms2\<rparr>" and fr4: "ctxStore db4 = ctxStore db" "sJournal db4 = sJournal db"
    "validRevisions db4 = validRevisions db" "nextRevisionID db4 = nextRevisionID db" "txConfig db4 = txConfig db"
    using db1 by (auto simp: db4 view_def split: option.splits)
  obtain db6 so where db6: "getOrNewStateObject K (fold (apply_entry K) (journalEntries p) db4) (pAddress p) = (db6, so)"
    by (cases "getOrNewStateObject K (fold (apply_entry K) (journalEntries p) db4) (pAddress p)")
  note r5 = entries_records[OF ok4, of "journalEntries p"]
  have r6: "records K db4 db6" using records_trans[OF r5 getOrNewStateObject_ok(1)[OF recordsD(1)[OF r5] db6]] .
  have "appends_plain db4 db6"
    using appends_plain_trans[OF entries_plain[of db4 K "journalEntries p"] getOrNewStateObject_plain[of _ K "pAddress p"]] db6 by simp
  then obtain new where new: "jEntries (sJournal db6) = jEntries (sJournal db4) @ new" "list_all plain new" by (auto simp: appends_plain_def)
  have u6: "undo_all K (ctxStore db) new (view K db6) = Some ((view K db)\<lparr>wCache := cms2\<rparr>)" using r6 new(1) by (auto simp: records_def v4 fr4)
  have db7: "db7 = (s_append (precompileCallChange cms evs) db6)\<lparr>precompileCallsCounter := precompileCallsCounter db6 + 1\<rparr>"
    using j db6 by (auto simp: AddJournalEntries_def AddPrecompileFn_def Let_def s_append_def)
  have "undo_all K (ctxStore db) (new @ [precompileCallChange cms evs]) (view K db7) = Some (view K db)"
    using u6 c(2) by (auto simp: undo_all_append undo_all_plain_cache[OF new(2)] db7)
  then show ?thesis using precompile_entry_ok[OF recordsD(1)[OF r6]] r6 new(1) fr4
    by (auto simp: records_def db7 intro!: exI[of _ "new @ [precompileCallChange cms evs]"])
qed

lemma RunSetup_success:
  assumes "RunSetup K consume p db contract readOnly isTx consumed = Inr (db3, Inr st)" "writeCache db \<noteq> None \<Longrightarrow> cacheStore db \<noteq> None"
  obtains db1 cms cms' where "GetCacheContext db = Inr db1" "cacheStore db1 = Some cms" "wCache (view K db) = cms"
    "db3 = db1\<lparr>cacheStore := Some cms'\<rparr>" "stSnapshot st = \<lparr>MultiStore = cms, Events = cacheEvents db1\<rparr>"
proof -
  obtain db1 where g: "GetCacheContext db = Inr db1" using assms(1) by (auto simp: RunSetup_def split: sum.splits)
  obtain cms where c: "cacheStore db1 = Some cms" "MultiStoreSnapshot db1 = Inr (db1, cms)" by (rule cache_ready[OF g assms(2)])
  have w: "wCache (view K db) = cms"
    using g c(1) assms(2) by (auto simp: GetCacheContext_def cache_def view_def split: if_splits option.splits)
  obtain d3 where d3: "CommitWithCacheCtx K db1 = Inr d3"
    using assms(1) g c by (cases "CommitWithCacheCtx K db1") (auto simp: RunSetup_def)
  then obtain cms' where cms': "d3 = db1\<lparr>cacheStore := Some cms'\<rparr>" using c(1) by (auto simp: CommitWithCacheCtx_def bind_r_eq_Inr)
  obtain mt where m: "choose_method p contract = Inr mt"
    using assms(1) g c d3 by (cases "choose_method p contract") (auto simp: RunSetup_def)
  have "db3 = d3 \<and> stSnapshot st = \<lparr>MultiStore = cms, Events = cacheEvents db1\<rparr>"
    using assms(1) g c d3 m by (auto simp: RunSetup_def Let_def HandleGasError_def split: if_splits option.splits gas_panic.splits)
  with g c(1) w cms' show ?thesis using that by blast
qed

text \<open>
  \<^bold>\<open>C26.\<close> A successful precompile call is undone with its frame. Take a snapshot, run a precompile whose setup
  succeeds and whose method leaves any store in the cached context, and journal it; go on with any calls
  that do not revert below the snapshot. Then reverting to the snapshot succeeds and gives back the
  world of the snapshot, the cached store included, so neither the balance changes of the call nor
  what the native module wrote survive.
\<close>

theorem reverted_precompile_call_is_undone:
  assumes "exec_ops K pre (New m ctx evs cfg) = Inr c" "Snapshot c = (c1, rid)" "writeCache c1 \<noteq> None \<Longrightarrow> cacheStore c1 \<noteq> None"
    "RunSetup K consume p c1 contract readOnly isTx consumed = Inr (c2, Inr st)"
    "AddJournalEntries K p (c2\<lparr>cacheStore := Some cms2, cacheEvents := evs2\<rparr>) (stSnapshot st) = (c3, None)"
    "exec_ops K ops c3 = Inr c4" "\<And>r. OpRevertToSnapshot r \<in> set ops \<Longrightarrow> rid < r"
  shows "\<exists>c5. RevertToSnapshot K c4 rid = Inr c5 \<and> view K c5 = view K c"
proof (rule sim_runs_New[OF assms(1)])
  fix a assume a: "sim K c a" "ctxStore c = ctx" "txConfig c = cfg"
  note s1 = sim_Snapshot[OF a(1) assms(2)]
  have ok1: "sdb_ok K c1" using s1(1) by (simp add: sim_def)
  obtain db1 cms cms' where su: "GetCacheContext c1 = Inr db1" "cacheStore db1 = Some cms" "wCache (view K c1) = cms"
    "c2 = db1\<lparr>cacheStore := Some cms'\<rparr>" "stSnapshot st = \<lparr>MultiStore = cms, Events = cacheEvents db1\<rparr>" by (rule RunSetup_success[OF assms(4,3)])
  have "c2\<lparr>cacheStore := Some cms2, cacheEvents := evs2\<rparr> = db1\<lparr>cacheStore := Some cms2, cacheEvents := evs2\<rparr>" by (simp add: su(4))
  from journalled_call_records[OF ok1 su(1-3) this assms(5)[unfolded su(5)]] have r: "records K c1 c3" .
  then have o: "op_ok K c1 c3 (\<lambda>_. view K c3)" by (simp add: op_ok_def)
  note s3 = sim_op[OF s1(1) o]
  have cs: "ctxStore c3 = ctx" "txConfig c3 = cfg" using r assms(2) a(2,3) by (auto simp: records_def Snapshot_def Let_def)
  obtain a4 where a4: "spec_ops K ctx cfg ops (spec_snapshot a\<lparr>spWorld := view K c3\<rparr>) = Inr a4" "sim K c4 a4" by (rule sim_runE[OF assms(6) s3 cs])
  have "keeps rid (spWorld a) (spec_snapshot a\<lparr>spWorld := view K c3\<rparr>)" using keeps_snapshot[OF a(1) assms(2)] by (simp add: keeps_def)
  from keeps_spec_ops[OF this a4(1) assms(7)] have "map_of (spSaved a4) rid = Some (view K c)" using a(1) by (simp add: keeps_def sim_def)
  then show ?thesis using sim_RevertToSnapshot[OF a4(2), of rid] by (auto simp: spec_revert_def sim_def)
qed

definition demoStaking :: "unit precompile" where
  "demoStaking = demoPrecompile\<lparr>pABI := (pABI demoPrecompile)\<lparr>MethodById := (\<lambda>_. Some \<lparr>mName = ''delegate'', mIsFunction = True\<rparr>)\<rparr>,
     journalEntries := [NewBalanceChangeEntry 7 3 Sub]\<rparr>"

definition demoFrameStart :: "((address \<times> int) list, nat) state_db" where
  "demoFrameStart = fst (Snapshot (AddBalance memKeeper demoDB 8 5))"

definition demoStakingSetup :: "((address \<times> int) list, nat) state_db \<times> ((address \<times> int) list, nat, unit) run_setup" where
  "demoStakingSetup = (case RunSetup memKeeper (\<lambda>_ _. None) demoStaking demoFrameStart demoCall False (\<lambda>_. True) 0 of
     Inr (db, Inr st) \<Rightarrow> (db, st))"

definition demoStaked :: "((address \<times> int) list, nat) state_db \<times> err option" where
  "demoStaked = AddJournalEntries memKeeper demoStaking (fst demoStakingSetup\<lparr>cacheStore := Some [(7, 97), (8, 5), (10, 3)], cacheEvents := [1]\<rparr>)
     (stSnapshot (snd demoStakingSetup))"

lemmas staking_eval = db_eval demoStaking_def demoFrameStart_def demoStakingSetup_def demoStaked_def demoPrecompile_def demoCall_def RunSetup_def GetCacheContext_def
  MultiStoreSnapshot_def CommitWithCacheCtx_def cache_def choose_method_def standardCallData_def sortedDirties_def commitWithCtx_def commit_object_def
  SortedKeys_def AddJournalEntries_def apply_entry_def AddPrecompileFn_def NewBalanceChangeEntry_def MaxPrecompileCalls_def

lemma demoStaked_ok:
  "RunSetup memKeeper (\<lambda>_ _. None) demoStaking demoFrameStart demoCall False (\<lambda>_. True) 0 = Inr (fst demoStakingSetup, Inr (snd demoStakingSetup))"
  "snd demoStaked = None \<and> snd (GetBalance memKeeper (fst demoStaked) 7) = 97 \<and> wCache (view memKeeper (fst demoStaked)) = [(7, 97), (8, 5), (10, 3)]"
  "snd (Snapshot (AddBalance memKeeper demoDB 8 5)) = 0 \<and> writeCache demoFrameStart = None"
  by (simp_all add: staking_eval view_def)

theorem reverted_precompile_call_is_undone_witness:
  "wCache (view memKeeper (fst demoStaked)) = [(7, 97), (8, 5), (10, 3)] \<and>
   (\<exists>c5. RevertToSnapshot memKeeper (fst demoStaked) 0 = Inr c5 \<and> view memKeeper c5 = view memKeeper (AddBalance memKeeper demoDB 8 5))"
proof -
  have "\<exists>c5. RevertToSnapshot memKeeper (fst demoStaked) 0 = Inr c5 \<and> view memKeeper c5 = view memKeeper (AddBalance memKeeper demoDB 8 5)"
  proof (rule reverted_precompile_call_is_undone)
    show "exec_ops memKeeper [OpAddBalance 8 5] (New True [(7, 100)] [] (NewEmptyTxConfig 0)) = Inr (AddBalance memKeeper demoDB 8 5)"
      by (simp add: demoDB_def)
    show "Snapshot (AddBalance memKeeper demoDB 8 5) = (demoFrameStart, 0)" using demoStaked_ok(3) by (simp add: demoFrameStart_def prod_eq_iff)
    show "RunSetup memKeeper (\<lambda>_ _. None) demoStaking demoFrameStart demoCall False (\<lambda>_. True) 0 = Inr (fst demoStakingSetup, Inr (snd demoStakingSetup))"
      by (rule demoStaked_ok(1))
    show "AddJournalEntries memKeeper demoStaking (fst demoStakingSetup\<lparr>cacheStore := Some [(7, 97), (8, 5), (10, 3)], cacheEvents := [1]\<rparr>)
       (stSnapshot (snd demoStakingSetup)) = (fst demoStaked, None)" using demoStaked_ok(2) by (simp add: demoStaked_def prod_eq_iff)
    show "exec_ops memKeeper [] (fst demoStaked) = Inr (fst demoStaked)" by simp
  qed (use demoStaked_ok(3) in simp_all)
  then show ?thesis using demoStaked_ok(2) by simp
qed

section \<open>Events\<close>

text \<open>
  \<^bold>\<open>C28.\<close> After a rollback of the cached context, the events of later precompile calls are lost. The function
  that writes the cache back emits the events saved with the rollback; when a later call in the same
  transaction succeeds and emits further events, committing still emits only the saved ones.
\<close>

theorem events_after_rollback_are_lost:
  assumes "RunSetup K consume p (RevertMultiStore db cms evs) contract readOnly isTx consumed = Inr (db2, Inr st)"
    "AddJournalEntries K p (db2\<lparr>cacheStore := Some cms2, cacheEvents := evs2\<rparr>) (stSnapshot st) = (db3, None)"
    "Commit K db3 = Inr db4"
  shows "ctxEvents db4 = ctxEvents db @ evs"
proof -
  let ?r = "RevertMultiStore db cms evs"
  obtain db1 c' where su: "GetCacheContext ?r = Inr db1" "db2 = db1\<lparr>cacheStore := Some c'\<rparr>"
    by (rule RunSetup_success[OF assms(1)]) (simp_all add: RevertMultiStore_def)
  then have d2: "writeCache db2 = Some (RevertWrite evs)" "ctxEvents db2 = ctxEvents db" by (auto simp: GetCacheContext_def RevertMultiStore_def)
  let ?d = "db2\<lparr>cacheStore := Some cms2, cacheEvents := evs2\<rparr>"
  let ?f = "fold (apply_entry K) (journalEntries p) ?d"
  obtain db6 so where db6: "getOrNewStateObject K ?f (pAddress p) = (db6, so)" by (cases "getOrNewStateObject K ?f (pAddress p)")
  have "appends_plain ?d db6"
    using appends_plain_trans[OF entries_plain[of ?d K "journalEntries p"] getOrNewStateObject_plain[of _ K "pAddress p"]] db6 by simp
  then have "writeCache db3 = Some (RevertWrite evs)" "ctxEvents db3 = ctxEvents db"
    using assms(2) db6 d2 by (auto simp: AddJournalEntries_def AddPrecompileFn_def Let_def s_append_def appends_plain_def)
  then show ?thesis using assms(3) by (auto simp: Commit_def bind_r_eq_Inr split: option.splits)
qed

definition demoRolledBack :: "((address \<times> int) list, nat) state_db" where
  "demoRolledBack = RevertMultiStore demoDB [(7, 100)] [5]"

definition demoAgain :: "((address \<times> int) list, nat) state_db \<times> ((address \<times> int) list, nat, unit) run_setup" where
  "demoAgain = (case RunSetup memKeeper (\<lambda>_ _. None) demoStaking demoRolledBack demoCall False (\<lambda>_. True) 0 of Inr (db, Inr st) \<Rightarrow> (db, st))"

definition demoAgainJournalled :: "((address \<times> int) list, nat) state_db \<times> err option" where
  "demoAgainJournalled = AddJournalEntries memKeeper demoStaking (fst demoAgain\<lparr>cacheStore := Some [(7, 97)], cacheEvents := [5, 6]\<rparr>) (stSnapshot (snd demoAgain))"

lemma demoAgain_ok:
  "RunSetup memKeeper (\<lambda>_ _. None) demoStaking demoRolledBack demoCall False (\<lambda>_. True) 0 = Inr (fst demoAgain, Inr (snd demoAgain))"
  "snd demoAgainJournalled = None \<and> cacheEvents (fst demoAgainJournalled) = [5, 6]"
  "\<exists>db. Commit memKeeper (fst demoAgainJournalled) = Inr db"
  by (simp_all add: staking_eval demoRolledBack_def demoAgain_def demoAgainJournalled_def RevertMultiStore_def Commit_def)

theorem events_after_rollback_are_lost_witness:
  "\<exists>db. cacheEvents (fst demoAgainJournalled) = [5, 6] \<and> Commit memKeeper (fst demoAgainJournalled) = Inr db \<and> ctxEvents db = [5]"
proof -
  obtain db where db: "Commit memKeeper (fst demoAgainJournalled) = Inr db" using demoAgain_ok(3) by blast
  have j: "AddJournalEntries memKeeper demoStaking (fst demoAgain\<lparr>cacheStore := Some [(7, 97)], cacheEvents := [5, 6]\<rparr>) (stSnapshot (snd demoAgain)) =
    (fst demoAgainJournalled, None)" using demoAgain_ok(2) by (simp add: demoAgainJournalled_def prod_eq_iff)
  have "ctxEvents db = ctxEvents demoDB @ [5]"
    by (rule events_after_rollback_are_lost[OF demoAgain_ok(1)[unfolded demoRolledBack_def] j db])
  then show ?thesis using db demoAgain_ok(2) by (simp add: demoDB_def New_def)
qed

end
