(* ===== verification/EvmTx.thy ===== *)
theory EvmTx
  imports AccessList Bytes
begin

text \<open>
  The Ethereum transactions of x/evm/types: the three kinds of transaction data (legacy_tx.go,
  access_list_tx.go, dynamic_fee_tx.go) with their conversion from and to go-ethereum's
  transactions, their validation and their costs; types/int.go, utils/eth.go and access_list.go.
  A nil pointer to a \<^verbatim>\<open>big.Int\<close> or an \<^verbatim>\<open>Int\<close> is \<open>None\<close>, and so is a nil
  slice where the code asks for it. go-ethereum's
  hexadecimal notation and the SDK's integer constructor are the record \<open>tx_env\<close>.
\<close>

section \<open>Integers and addresses\<close>

record tx_env =
  hxAddress :: "address \<Rightarrow> string"
  hxToAddress :: "string \<Rightarrow> address"
  hxIsAddress :: "string \<Rightarrow> bool"
  hxHash :: "hash \<Rightarrow> string"
  hxToHash :: "string \<Rightarrow> hash"
  sdkNewInt :: "int \<Rightarrow> int result"

text \<open>
  What is documented of these: reading what was written gives it back, and
  \<^verbatim>\<open>sdkmath.NewIntFromBigInt\<close> keeps an integer of 256 bits and panics beyond.
\<close>

locale tx_laws =
  fixes H :: tx_env
  assumes address_roundtrip: "hxToAddress H (hxAddress H a) = a"
    and address_nonempty: "hxAddress H a \<noteq> []"
    and slot_roundtrip: "hxToHash H (hxHash H h) = h"
    and new_int: "\<bar>i\<bar> < 2 ^ 256 \<Longrightarrow> sdkNewInt H i = Inr i"
    and new_int_panics: "2 ^ 256 \<le> \<bar>i\<bar> \<Longrightarrow> \<exists>m. sdkNewInt H i = Inl (Panic m)"

definition IsValidInt256 :: "int option \<Rightarrow> bool" where
  "IsValidInt256 i = (case i of None \<Rightarrow> True | Some n \<Rightarrow> \<bar>n\<bar> < 2 ^ 256)"

definition SafeNewIntFromBigInt :: "tx_env \<Rightarrow> int \<Rightarrow> int result" where
  "SafeNewIntFromBigInt H i = (if \<not> IsValidInt256 (Some i) then Inl (Errorf ''big int out of bound'') else sdkNewInt H i)"

definition ValidateAddress :: "tx_env \<Rightarrow> string \<Rightarrow> unit result" where
  "ValidateAddress H address = guard_r (hxIsAddress H address) (Wrapf ErrInvalidAddress ''is not a valid ethereum hex address'')"

definition DeriveChainID :: "int option \<Rightarrow> int option" where
  "DeriveChainID v =
     (case v of
        None \<Rightarrow> None
      | Some n \<Rightarrow>
          if n < 1 then None
          else if n < 2 ^ 64 then
            (if n = 27 \<or> n = 28 then Some 0
             else if n < 35 then None
             else Some ((n - 35) div 2))
          else Some ((n - 35) div 2))"

definition opt_SetBytes :: "bytes \<Rightarrow> int option" where
  "opt_SetBytes bz = (if length bz > 0 then Some (int (SetBytes bz)) else None)"

definition RawSignatureValues :: "bytes \<Rightarrow> bytes \<Rightarrow> bytes \<Rightarrow> int option \<times> int option \<times> int option" where
  "RawSignatureValues vBz rBz sBz = (opt_SetBytes vBz, opt_SetBytes rBz, opt_SetBytes sBz)"

definition big_Bytes :: "int \<Rightarrow> bytes" where
  "big_Bytes i = nat_bytes (nat \<bar>i\<bar>)"

section \<open>Access lists\<close>

text \<open>An Ethereum access list has addresses and slots, the stored one their strings.\<close>

type_synonym eth_access_list = "(address \<times> hash list) list"
type_synonym tx_access_list = "(string \<times> string list) list"

definition NewAccessList :: "tx_env \<Rightarrow> eth_access_list option \<Rightarrow> tx_access_list option" where
  "NewAccessList H ethAccessList =
     (case ethAccessList of
        None \<Rightarrow> None
      | Some al \<Rightarrow> Some (map (\<lambda>tuple. (hxAddress H (fst tuple), map (hxHash H) (snd tuple))) al))"

text \<open>The list starts as a nil slice and is appended to, so it stays nil when there are no tuples.\<close>

definition ToEthAccessList :: "tx_env \<Rightarrow> tx_access_list \<Rightarrow> eth_access_list option" where
  "ToEthAccessList H al =
     (if al = [] then None
      else Some (map (\<lambda>tuple. (hxToAddress H (fst tuple), map (hxToHash H) (snd tuple))) al))"

section \<open>Transactions\<close>

text \<open>
  go-ethereum's transactions: the fields every kind has, then those of each kind. What the
  accessors of a transaction return for its kind are these fields.
\<close>

record eth_base =
  etNonce :: "64 word"
  etGas :: "64 word"
  etTo :: "address option"
  etValue :: "int option"
  etData :: bytes
  etV :: "int option"
  etR :: "int option"
  etS :: "int option"

datatype eth_tx =
    EthLegacyTx eth_base (ethGasPrice: "int option")
  | EthAccessListTx eth_base (ethChainID: "int option") (ethGasPrice: "int option") (ethAccessList: "eth_access_list option")
  | EthDynamicFeeTx eth_base (ethChainID: "int option") (ethGasTipCap: "int option") (ethGasFeeCap: "int option")
      (ethAccessList: "eth_access_list option")

record LegacyTx =
  ltNonce :: "64 word"
  ltGasPrice :: "int option"
  ltGasLimit :: "64 word"
  ltTo :: string
  ltAmount :: "int option"
  ltData :: bytes
  ltV :: bytes
  ltR :: bytes
  ltS :: bytes

record AccessListTx =
  alChainID :: "int option"
  alNonce :: "64 word"
  alGasPrice :: "int option"
  alGasLimit :: "64 word"
  alTo :: string
  alAmount :: "int option"
  alData :: bytes
  alAccesses :: "tx_access_list option"
  alV :: bytes
  alR :: bytes
  alS :: bytes

record DynamicFeeTx =
  dfChainID :: "int option"
  dfNonce :: "64 word"
  dfGasTipCap :: "int option"
  dfGasFeeCap :: "int option"
  dfGasLimit :: "64 word"
  dfTo :: string
  dfAmount :: "int option"
  dfData :: bytes
  dfAccesses :: "tx_access_list option"
  dfV :: bytes
  dfR :: bytes
  dfS :: bytes

text \<open>The interface \<^verbatim>\<open>TxData\<close> and its three implementations.\<close>

datatype TxData = Legacy LegacyTx | AccessTx AccessListTx | Dynamic DynamicFeeTx

section \<open>From a transaction\<close>

text \<open>The optional integers and the recipient are converted alike in the three constructors.\<close>

definition conv_int :: "tx_env \<Rightarrow> int option \<Rightarrow> int option result" where
  "conv_int H i = (case i of None \<Rightarrow> Inr None | Some n \<Rightarrow> bind_r (SafeNewIntFromBigInt H n) (\<lambda>m. Inr (Some m)))"

definition conv_to :: "tx_env \<Rightarrow> address option \<Rightarrow> string" where
  "conv_to H a = (case a of None \<Rightarrow> [] | Some x \<Rightarrow> hxAddress H x)"

definition sig_bytes :: "int option \<Rightarrow> bytes \<Rightarrow> bytes" where
  "sig_bytes v old = (case v of None \<Rightarrow> old | Some n \<Rightarrow> big_Bytes n)"

definition LegacyTx_SetSignatureValues :: "LegacyTx \<Rightarrow> int option \<Rightarrow> int option \<Rightarrow> int option \<Rightarrow> LegacyTx" where
  "LegacyTx_SetSignatureValues tx v r s =
     tx\<lparr>ltV := sig_bytes v (ltV tx), ltR := sig_bytes r (ltR tx), ltS := sig_bytes s (ltS tx)\<rparr>"

definition AccessListTx_SetSignatureValues :: "tx_env \<Rightarrow> AccessListTx \<Rightarrow> int option \<Rightarrow> int option \<Rightarrow> int option \<Rightarrow> int option \<Rightarrow> AccessListTx result" where
  "AccessListTx_SetSignatureValues H tx chainID v r s =
     (let tx1 = tx\<lparr>alV := sig_bytes v (alV tx), alR := sig_bytes r (alR tx), alS := sig_bytes s (alS tx)\<rparr> in
      case chainID of
        None \<Rightarrow> Inr tx1
      | Some c \<Rightarrow> bind_r (sdkNewInt H c) (\<lambda>chainIDInt. Inr (tx1\<lparr>alChainID := Some chainIDInt\<rparr>)))"

definition DynamicFeeTx_SetSignatureValues :: "tx_env \<Rightarrow> DynamicFeeTx \<Rightarrow> int option \<Rightarrow> int option \<Rightarrow> int option \<Rightarrow> int option \<Rightarrow> DynamicFeeTx result" where
  "DynamicFeeTx_SetSignatureValues H tx chainID v r s =
     (let tx1 = tx\<lparr>dfV := sig_bytes v (dfV tx), dfR := sig_bytes r (dfR tx), dfS := sig_bytes s (dfS tx)\<rparr> in
      case chainID of
        None \<Rightarrow> Inr tx1
      | Some c \<Rightarrow> bind_r (sdkNewInt H c) (\<lambda>chainIDInt. Inr (tx1\<lparr>dfChainID := Some chainIDInt\<rparr>)))"

definition NewLegacyTx :: "tx_env \<Rightarrow> eth_base \<Rightarrow> int option \<Rightarrow> LegacyTx result" where
  "NewLegacyTx H tx gasPrice =
     bind_r (conv_int H (etValue tx)) (\<lambda>amount.
     bind_r (conv_int H gasPrice) (\<lambda>gasPriceInt.
     Inr (LegacyTx_SetSignatureValues
       \<lparr>ltNonce = etNonce tx, ltGasPrice = gasPriceInt, ltGasLimit = etGas tx, ltTo = conv_to H (etTo tx),
        ltAmount = amount, ltData = etData tx, ltV = [], ltR = [], ltS = []\<rparr>
       (etV tx) (etR tx) (etS tx))))"

definition newAccessListTx :: "tx_env \<Rightarrow> eth_base \<Rightarrow> int option \<Rightarrow> int option \<Rightarrow> eth_access_list option \<Rightarrow> AccessListTx result" where
  "newAccessListTx H tx chainID gasPrice accessList =
     bind_r (conv_int H (etValue tx)) (\<lambda>amount.
     bind_r (conv_int H gasPrice) (\<lambda>gasPriceInt.
     AccessListTx_SetSignatureValues H
       \<lparr>alChainID = None, alNonce = etNonce tx, alGasPrice = gasPriceInt, alGasLimit = etGas tx, alTo = conv_to H (etTo tx),
        alAmount = amount, alData = etData tx, alAccesses = NewAccessList H accessList, alV = [], alR = [], alS = []\<rparr>
       chainID (etV tx) (etR tx) (etS tx)))"

definition NewDynamicFeeTx :: "tx_env \<Rightarrow> eth_base \<Rightarrow> int option \<Rightarrow> int option \<Rightarrow> int option \<Rightarrow> eth_access_list option \<Rightarrow> DynamicFeeTx result" where
  "NewDynamicFeeTx H tx chainID gasTipCap gasFeeCap accessList =
     bind_r (conv_int H (etValue tx)) (\<lambda>amount.
     bind_r (conv_int H gasFeeCap) (\<lambda>gasFeeCapInt.
     bind_r (conv_int H gasTipCap) (\<lambda>gasTipCapInt.
     DynamicFeeTx_SetSignatureValues H
       \<lparr>dfChainID = None, dfNonce = etNonce tx, dfGasTipCap = gasTipCapInt, dfGasFeeCap = gasFeeCapInt, dfGasLimit = etGas tx,
        dfTo = conv_to H (etTo tx), dfAmount = amount, dfData = etData tx, dfAccesses = NewAccessList H accessList,
        dfV = [], dfR = [], dfS = []\<rparr>
       chainID (etV tx) (etR tx) (etS tx))))"

fun NewTxDataFromTx :: "tx_env \<Rightarrow> eth_tx \<Rightarrow> TxData result" where
  "NewTxDataFromTx H (EthDynamicFeeTx tx chainID tip cap al) = bind_r (NewDynamicFeeTx H tx chainID tip cap al) (\<lambda>t. Inr (Dynamic t))"
| "NewTxDataFromTx H (EthAccessListTx tx chainID gasPrice al) = bind_r (newAccessListTx H tx chainID gasPrice al) (\<lambda>t. Inr (AccessTx t))"
| "NewTxDataFromTx H (EthLegacyTx tx gasPrice) = bind_r (NewLegacyTx H tx gasPrice) (\<lambda>t. Inr (Legacy t))"

section \<open>Back to a transaction\<close>

definition getTo :: "tx_env \<Rightarrow> string \<Rightarrow> address option" where
  "getTo H s = (if s = [] then None else Some (hxToAddress H s))"

definition getAccessList :: "tx_env \<Rightarrow> tx_access_list option \<Rightarrow> eth_access_list option" where
  "getAccessList H accesses = (case accesses of None \<Rightarrow> None | Some al \<Rightarrow> ToEthAccessList H al)"

definition eth_base_of :: "tx_env \<Rightarrow> 64 word \<Rightarrow> 64 word \<Rightarrow> string \<Rightarrow> int option \<Rightarrow> bytes \<Rightarrow> int option \<times> int option \<times> int option \<Rightarrow> eth_base" where
  "eth_base_of H nonce gas dest amount data sig =
     \<lparr>etNonce = nonce, etGas = gas, etTo = getTo H dest, etValue = amount, etData = data,
      etV = fst sig, etR = fst (snd sig), etS = snd (snd sig)\<rparr>"

definition LegacyTx_AsEthereumData :: "tx_env \<Rightarrow> LegacyTx \<Rightarrow> eth_tx" where
  "LegacyTx_AsEthereumData H tx =
     EthLegacyTx (eth_base_of H (ltNonce tx) (ltGasLimit tx) (ltTo tx) (ltAmount tx) (ltData tx)
       (RawSignatureValues (ltV tx) (ltR tx) (ltS tx))) (ltGasPrice tx)"

definition AccessListTx_AsEthereumData :: "tx_env \<Rightarrow> AccessListTx \<Rightarrow> eth_tx" where
  "AccessListTx_AsEthereumData H tx =
     EthAccessListTx (eth_base_of H (alNonce tx) (alGasLimit tx) (alTo tx) (alAmount tx) (alData tx)
       (RawSignatureValues (alV tx) (alR tx) (alS tx))) (alChainID tx) (alGasPrice tx) (getAccessList H (alAccesses tx))"

definition DynamicFeeTx_AsEthereumData :: "tx_env \<Rightarrow> DynamicFeeTx \<Rightarrow> eth_tx" where
  "DynamicFeeTx_AsEthereumData H tx =
     EthDynamicFeeTx (eth_base_of H (dfNonce tx) (dfGasLimit tx) (dfTo tx) (dfAmount tx) (dfData tx)
       (RawSignatureValues (dfV tx) (dfR tx) (dfS tx))) (dfChainID tx) (dfGasTipCap tx) (dfGasFeeCap tx)
       (getAccessList H (dfAccesses tx))"

fun AsEthereumData :: "tx_env \<Rightarrow> TxData \<Rightarrow> eth_tx" where
  "AsEthereumData H (Legacy tx) = LegacyTx_AsEthereumData H tx"
| "AsEthereumData H (AccessTx tx) = AccessListTx_AsEthereumData H tx"
| "AsEthereumData H (Dynamic tx) = DynamicFeeTx_AsEthereumData H tx"

section \<open>Costs\<close>

text \<open>Arithmetic on a nil \<^verbatim>\<open>big.Int\<close> panics.\<close>

abbreviation nil_panic :: err where
  "nil_panic \<equiv> Panic ''nil pointer dereference''"

definition fee :: "int option \<Rightarrow> 64 word \<Rightarrow> int result" where
  "fee gasPrice gas = (case gasPrice of None \<Rightarrow> Inl nil_panic | Some p \<Rightarrow> Inr (p * int (unat gas)))"

definition cost :: "int \<Rightarrow> int option \<Rightarrow> int" where
  "cost f value = (case value of Some v \<Rightarrow> f + v | None \<Rightarrow> f)"

definition EffectiveGasPrice :: "int option \<Rightarrow> int \<Rightarrow> int \<Rightarrow> int result" where
  "EffectiveGasPrice baseFee feeCap tipCap =
     (case baseFee of None \<Rightarrow> Inl nil_panic | Some b \<Rightarrow> Inr (min (tipCap + b) feeCap))"

definition LegacyTx_Fee :: "LegacyTx \<Rightarrow> int result" where
  "LegacyTx_Fee tx = fee (ltGasPrice tx) (ltGasLimit tx)"

definition LegacyTx_Cost :: "LegacyTx \<Rightarrow> int result" where
  "LegacyTx_Cost tx = bind_r (LegacyTx_Fee tx) (\<lambda>f. Inr (cost f (ltAmount tx)))"

definition AccessListTx_Fee :: "AccessListTx \<Rightarrow> int result" where
  "AccessListTx_Fee tx = fee (alGasPrice tx) (alGasLimit tx)"

definition AccessListTx_Cost :: "AccessListTx \<Rightarrow> int result" where
  "AccessListTx_Cost tx = bind_r (AccessListTx_Fee tx) (\<lambda>f. Inr (cost f (alAmount tx)))"

definition DynamicFeeTx_Fee :: "DynamicFeeTx \<Rightarrow> int result" where
  "DynamicFeeTx_Fee tx = fee (dfGasFeeCap tx) (dfGasLimit tx)"

definition DynamicFeeTx_Cost :: "DynamicFeeTx \<Rightarrow> int result" where
  "DynamicFeeTx_Cost tx = bind_r (DynamicFeeTx_Fee tx) (\<lambda>f. Inr (cost f (dfAmount tx)))"

definition DynamicFeeTx_EffectiveGasPrice :: "DynamicFeeTx \<Rightarrow> int option \<Rightarrow> int result" where
  "DynamicFeeTx_EffectiveGasPrice tx baseFee =
     bind_r (of_option nil_panic (dfGasFeeCap tx)) (\<lambda>feeCap.
     bind_r (of_option nil_panic (dfGasTipCap tx)) (\<lambda>tipCap.
     EffectiveGasPrice baseFee feeCap tipCap))"

definition DynamicFeeTx_EffectiveFee :: "DynamicFeeTx \<Rightarrow> int option \<Rightarrow> int result" where
  "DynamicFeeTx_EffectiveFee tx baseFee = bind_r (DynamicFeeTx_EffectiveGasPrice tx baseFee) (\<lambda>p. fee (Some p) (dfGasLimit tx))"

definition DynamicFeeTx_EffectiveCost :: "DynamicFeeTx \<Rightarrow> int option \<Rightarrow> int result" where
  "DynamicFeeTx_EffectiveCost tx baseFee = bind_r (DynamicFeeTx_EffectiveFee tx baseFee) (\<lambda>f. Inr (cost f (dfAmount tx)))"

text \<open>The methods of the interface; the price of a legacy or access list transaction is its gas price, which may be nil.\<close>

fun GetGas :: "TxData \<Rightarrow> 64 word" where
  "GetGas (Legacy tx) = ltGasLimit tx"
| "GetGas (AccessTx tx) = alGasLimit tx"
| "GetGas (Dynamic tx) = dfGasLimit tx"

fun GetGasFeeCap :: "TxData \<Rightarrow> int option" where
  "GetGasFeeCap (Legacy tx) = ltGasPrice tx"
| "GetGasFeeCap (AccessTx tx) = alGasPrice tx"
| "GetGasFeeCap (Dynamic tx) = dfGasFeeCap tx"

fun GetGasTipCap :: "TxData \<Rightarrow> int option" where
  "GetGasTipCap (Legacy tx) = ltGasPrice tx"
| "GetGasTipCap (AccessTx tx) = alGasPrice tx"
| "GetGasTipCap (Dynamic tx) = dfGasTipCap tx"

fun GetValue :: "TxData \<Rightarrow> int option" where
  "GetValue (Legacy tx) = ltAmount tx"
| "GetValue (AccessTx tx) = alAmount tx"
| "GetValue (Dynamic tx) = dfAmount tx"

fun GetData :: "TxData \<Rightarrow> bytes" where
  "GetData (Legacy tx) = ltData tx"
| "GetData (AccessTx tx) = alData tx"
| "GetData (Dynamic tx) = dfData tx"

fun GetTo :: "tx_env \<Rightarrow> TxData \<Rightarrow> address option" where
  "GetTo H (Legacy tx) = getTo H (ltTo tx)"
| "GetTo H (AccessTx tx) = getTo H (alTo tx)"
| "GetTo H (Dynamic tx) = getTo H (dfTo tx)"

fun GetAccessList :: "tx_env \<Rightarrow> TxData \<Rightarrow> eth_access_list option" where
  "GetAccessList H (Legacy tx) = None"
| "GetAccessList H (AccessTx tx) = getAccessList H (alAccesses tx)"
| "GetAccessList H (Dynamic tx) = getAccessList H (dfAccesses tx)"

fun GetChainID :: "TxData \<Rightarrow> int option" where
  "GetChainID (Legacy tx) = DeriveChainID (fst (RawSignatureValues (ltV tx) (ltR tx) (ltS tx)))"
| "GetChainID (AccessTx tx) = alChainID tx"
| "GetChainID (Dynamic tx) = dfChainID tx"

fun Fee :: "TxData \<Rightarrow> int result" where
  "Fee (Legacy tx) = LegacyTx_Fee tx"
| "Fee (AccessTx tx) = AccessListTx_Fee tx"
| "Fee (Dynamic tx) = DynamicFeeTx_Fee tx"

fun Cost :: "TxData \<Rightarrow> int result" where
  "Cost (Legacy tx) = LegacyTx_Cost tx"
| "Cost (AccessTx tx) = AccessListTx_Cost tx"
| "Cost (Dynamic tx) = DynamicFeeTx_Cost tx"

fun TxEffectiveGasPrice :: "TxData \<Rightarrow> int option \<Rightarrow> int option result" where
  "TxEffectiveGasPrice (Legacy tx) _ = Inr (ltGasPrice tx)"
| "TxEffectiveGasPrice (AccessTx tx) _ = Inr (alGasPrice tx)"
| "TxEffectiveGasPrice (Dynamic tx) baseFee = bind_r (DynamicFeeTx_EffectiveGasPrice tx baseFee) (\<lambda>p. Inr (Some p))"

fun EffectiveFee :: "TxData \<Rightarrow> int option \<Rightarrow> int result" where
  "EffectiveFee (Legacy tx) _ = LegacyTx_Fee tx"
| "EffectiveFee (AccessTx tx) _ = AccessListTx_Fee tx"
| "EffectiveFee (Dynamic tx) baseFee = DynamicFeeTx_EffectiveFee tx baseFee"

fun EffectiveCost :: "TxData \<Rightarrow> int option \<Rightarrow> int result" where
  "EffectiveCost (Legacy tx) _ = LegacyTx_Cost tx"
| "EffectiveCost (AccessTx tx) _ = AccessListTx_Cost tx"
| "EffectiveCost (Dynamic tx) baseFee = DynamicFeeTx_EffectiveCost tx baseFee"

section \<open>Validation\<close>

text \<open>The checks of the amount and of the recipient, which the three kinds share word for word.\<close>

definition check_amount :: "int option \<Rightarrow> unit result" where
  "check_amount amount =
     (if (case amount of None \<Rightarrow> False | Some a \<Rightarrow> a < 0) then Inl (Wrapf ErrInvalidAmount ''amount cannot be negative'')
      else guard_r (IsValidInt256 amount) (Wrapf ErrInvalidAmount ''out of bound''))"

definition check_to :: "tx_env \<Rightarrow> string \<Rightarrow> unit result" where
  "check_to H dest = (if dest \<noteq> [] then ValidateAddress H dest else Inr ())"

definition check_fee :: "int result \<Rightarrow> unit result" where
  "check_fee f = bind_r f (\<lambda>n. guard_r (IsValidInt256 (Some n)) (Wrapf ErrInvalidGasFee ''out of bound''))"

definition LegacyTx_Validate :: "tx_env \<Rightarrow> LegacyTx \<Rightarrow> unit result" where
  "LegacyTx_Validate H tx =
     (case ltGasPrice tx of
        None \<Rightarrow> Inl (Wrapf ErrInvalidGasPrice ''gas price cannot be nil'')
      | Some gasPrice \<Rightarrow>
          if gasPrice < 0 then Inl (Wrapf ErrInvalidGasPrice ''gas price cannot be negative'')
          else if \<not> IsValidInt256 (Some gasPrice) then Inl (Wrapf ErrInvalidGasPrice ''out of bound'')
          else bind_r (check_fee (LegacyTx_Fee tx)) (\<lambda>_.
            bind_r (check_amount (ltAmount tx)) (\<lambda>_.
            bind_r (check_to H (ltTo tx)) (\<lambda>_.
            guard_r (GetChainID (Legacy tx) \<noteq> None) (Wrapf ErrInvalidChainID ''chain ID must be derived from LegacyTx txs'')))))"

definition AccessListTx_Validate :: "tx_env \<Rightarrow> AccessListTx \<Rightarrow> unit result" where
  "AccessListTx_Validate H tx =
     (case alGasPrice tx of
        None \<Rightarrow> Inl (Wrapf ErrInvalidGasPrice ''cannot be nil'')
      | Some gasPrice \<Rightarrow>
          if \<not> IsValidInt256 (Some gasPrice) then Inl (Wrapf ErrInvalidGasPrice ''out of bound'')
          else if gasPrice < 0 then Inl (Wrapf ErrInvalidGasPrice ''gas price cannot be negative'')
          else bind_r (check_amount (alAmount tx)) (\<lambda>_.
            bind_r (check_fee (AccessListTx_Fee tx)) (\<lambda>_.
            bind_r (check_to H (alTo tx)) (\<lambda>_.
            guard_r (alChainID tx \<noteq> None) (Wrapf ErrInvalidChainID ''chain ID must be present on AccessList txs'')))))"

definition DynamicFeeTx_Validate :: "tx_env \<Rightarrow> DynamicFeeTx \<Rightarrow> unit result" where
  "DynamicFeeTx_Validate H tx =
     (case dfGasTipCap tx of
        None \<Rightarrow> Inl (Wrapf ErrInvalidGasCap ''gas tip cap cannot nil'')
      | Some tipCap \<Rightarrow>
     (case dfGasFeeCap tx of
        None \<Rightarrow> Inl (Wrapf ErrInvalidGasCap ''gas fee cap cannot nil'')
      | Some feeCap \<Rightarrow>
          if tipCap < 0 then Inl (Wrapf ErrInvalidGasCap ''gas tip cap cannot be negative'')
          else if feeCap < 0 then Inl (Wrapf ErrInvalidGasCap ''gas fee cap cannot be negative'')
          else if \<not> IsValidInt256 (Some tipCap) then Inl (Wrapf ErrInvalidGasCap ''out of bound'')
          else if \<not> IsValidInt256 (Some feeCap) then Inl (Wrapf ErrInvalidGasCap ''out of bound'')
          else if feeCap < tipCap then Inl (Wrapf ErrInvalidGasCap ''max priority fee per gas higher than max fee per gas'')
          else bind_r (check_fee (DynamicFeeTx_Fee tx)) (\<lambda>_.
            bind_r (check_amount (dfAmount tx)) (\<lambda>_.
            bind_r (check_to H (dfTo tx)) (\<lambda>_.
            guard_r (dfChainID tx \<noteq> None) (Wrapf ErrInvalidChainID ''chain ID must be present on DynamicFee txs''))))))"

fun Validate :: "tx_env \<Rightarrow> TxData \<Rightarrow> unit result" where
  "Validate H (Legacy tx) = LegacyTx_Validate H tx"
| "Validate H (AccessTx tx) = AccessListTx_Validate H tx"
| "Validate H (Dynamic tx) = DynamicFeeTx_Validate H tx"

section \<open>An instance of the interfaces\<close>

definition demoTx :: tx_env where
  "demoTx = \<lparr>hxAddress = (\<lambda>a. digits 49 (unat a)), hxToAddress = (\<lambda>s. word_of_nat (undigits s)), hxIsAddress = (\<lambda>s. length s = 49),
     hxHash = (\<lambda>h. digits 78 (unat h)), hxToHash = (\<lambda>s. word_of_nat (undigits s)),
     sdkNewInt = (\<lambda>i. if \<bar>i\<bar> < 2 ^ 256 then Inr i else Inl (Panic ''NewIntFromBigInt() out of bound''))\<rparr>"

lemma digits_word: "2 ^ LENGTH('a::len) \<le> (10 ^ k :: nat) \<Longrightarrow> word_of_nat (undigits (digits k (unat w))) = (w :: 'a word)"
  by (simp add: undigits_digits order_less_le_trans[OF unsigned_less[of w]])

lemma length_digits [simp]: "length (digits k n) = k"
  by (induction k arbitrary: n) simp_all

interpretation demoTx: tx_laws demoTx
proof
  show "hxToAddress demoTx (hxAddress demoTx a) = a" for a
    unfolding demoTx_def tx_env.simps by (rule digits_word) simp
  show "hxToHash demoTx (hxHash demoTx h) = h" for h
    unfolding demoTx_def tx_env.simps by (rule digits_word) simp
  have "length (hxAddress demoTx a) = 49" for a by (simp add: demoTx_def)
  then show "hxAddress demoTx a \<noteq> []" for a by (metis list.size(3) zero_neq_numeral)
qed (simp_all add: demoTx_def)

section \<open>Round trip\<close>

text \<open>
  What the stored form keeps of a transaction: the signature values as unsigned integers, with
  zero and nil not told apart, and the access list with nil and empty not told apart.
\<close>

definition canonical_sig :: "int option \<Rightarrow> int option" where
  "canonical_sig v = (case v of None \<Rightarrow> None | Some n \<Rightarrow> if n = 0 then None else Some \<bar>n\<bar>)"

definition canonical_base :: "eth_base \<Rightarrow> eth_base" where
  "canonical_base b = b\<lparr>etV := canonical_sig (etV b), etR := canonical_sig (etR b), etS := canonical_sig (etS b)\<rparr>"

definition canonical_list :: "eth_access_list option \<Rightarrow> eth_access_list option" where
  "canonical_list al = (if al = Some [] then None else al)"

fun canonical :: "eth_tx \<Rightarrow> eth_tx" where
  "canonical (EthLegacyTx b p) = EthLegacyTx (canonical_base b) p"
| "canonical (EthAccessListTx b c p al) = EthAccessListTx (canonical_base b) c p (canonical_list al)"
| "canonical (EthDynamicFeeTx b c t f al) = EthDynamicFeeTx (canonical_base b) c t f (canonical_list al)"

text \<open>The integers of a transaction that are stored as an \<^verbatim>\<open>Int\<close>.\<close>

fun tx_ints :: "eth_tx \<Rightarrow> int option list" where
  "tx_ints (EthLegacyTx b p) = [etValue b, p]"
| "tx_ints (EthAccessListTx b c p al) = [etValue b, p, c]"
| "tx_ints (EthDynamicFeeTx b c t f al) = [etValue b, f, t, c]"

lemma sig_roundtrip: "opt_SetBytes (sig_bytes v []) = canonical_sig v"
proof (cases v)
  case (Some n)
  then show ?thesis
    by (simp add: opt_SetBytes_def sig_bytes_def canonical_sig_def big_Bytes_def SetBytes_nat_bytes nat_bytes_Nil)
qed (simp add: opt_SetBytes_def sig_bytes_def canonical_sig_def)

lemmas tx_convs = LegacyTx_SetSignatureValues_def AccessListTx_SetSignatureValues_def DynamicFeeTx_SetSignatureValues_def
  NewLegacyTx_def newAccessListTx_def NewDynamicFeeTx_def

lemmas tx_backs = LegacyTx_AsEthereumData_def AccessListTx_AsEthereumData_def DynamicFeeTx_AsEthereumData_def
  eth_base_of_def RawSignatureValues_def canonical_base_def

context tx_laws
begin

lemma conv_to_back: "getTo H (conv_to H a) = a"
  by (cases a) (simp_all add: getTo_def conv_to_def address_roundtrip address_nonempty)

lemma access_list_back: "getAccessList H (NewAccessList H al) = canonical_list al"
  by (cases al) (simp_all add: getAccessList_def NewAccessList_def ToEthAccessList_def canonical_list_def
    address_roundtrip slot_roundtrip o_def)

lemma conv_int_fits: "IsValidInt256 i \<Longrightarrow> conv_int H i = Inr i"
  by (cases i) (simp_all add: conv_int_def SafeNewIntFromBigInt_def IsValidInt256_def new_int)

lemma new_int_fits: "IsValidInt256 (Some i) \<Longrightarrow> sdkNewInt H i = Inr i"
  by (simp add: IsValidInt256_def new_int)

lemma tx_roundtrip:
  assumes "list_all IsValidInt256 (tx_ints tx)"
  shows "\<exists>t. NewTxDataFromTx H tx = Inr t \<and> AsEthereumData H t = canonical tx"
proof (cases tx)
  case (EthLegacyTx b p)
  then show ?thesis using assms
    by (cases b) (simp add: tx_convs tx_backs conv_int_fits conv_to_back sig_roundtrip)
next
  case (EthAccessListTx b c p al)
  then show ?thesis using assms
    by (cases b; cases c) (simp_all add: tx_convs tx_backs conv_int_fits conv_to_back access_list_back sig_roundtrip new_int_fits)
next
  case (EthDynamicFeeTx b c t f al)
  then show ?thesis using assms
    by (cases b; cases c) (simp_all add: tx_convs tx_backs conv_int_fits conv_to_back access_list_back sig_roundtrip new_int_fits)
qed

lemma chain_id_panics:
  assumes "IsValidInt256 (etValue b)" "IsValidInt256 t" "IsValidInt256 f" "2 ^ 256 \<le> \<bar>c\<bar>"
  shows "\<exists>m. NewTxDataFromTx H (EthDynamicFeeTx b (Some c) t f al) = Inl (Panic m) \<and>
    NewTxDataFromTx H (EthAccessListTx b (Some c) f al) = Inl (Panic m)"
  using new_int_panics[OF assms(4)] assms by (auto simp: tx_convs conv_int_fits)

end

text \<open>\<^bold>\<open>C33.\<close> A transaction whose integers fit in 256 bits is converted to stored data
  and back unchanged, up to what the stored form cannot tell apart: a zero signature value and a nil one, an empty
  access list and a nil one.\<close>

theorem stored_tx_reads_back:
  assumes "tx_laws H" "list_all IsValidInt256 (tx_ints tx)"
  shows "\<exists>t. NewTxDataFromTx H tx = Inr t \<and> AsEthereumData H t = canonical tx"
  by (rule tx_laws.tx_roundtrip[OF assms])

definition demoBase :: eth_base where
  "demoBase = \<lparr>etNonce = 4, etGas = 21000, etTo = Some 7, etValue = Some 30, etData = [1, 2], etV = Some 0, etR = Some 300, etS = Some 9\<rparr>"

theorem stored_tx_reads_back_witness:
  "\<exists>t. NewTxDataFromTx demoTx (EthDynamicFeeTx demoBase (Some 11235) (Some 2) (Some 9) (Some [(7, [1])])) = Inr t \<and>
     AsEthereumData demoTx t = EthDynamicFeeTx (demoBase\<lparr>etV := None\<rparr>) (Some 11235) (Some 2) (Some 9) (Some [(7, [1])])"
  using stored_tx_reads_back[OF demoTx.tx_laws_axioms, of "EthDynamicFeeTx demoBase (Some 11235) (Some 2) (Some 9) (Some [(7, [1])])"]
  by (simp add: demoBase_def IsValidInt256_def canonical_base_def canonical_sig_def canonical_list_def)

text \<open>A chain id of more than 256 bits makes the conversion of a dynamic fee or access list
  transaction panic instead of returning the error it returns for every other oversized integer.\<close>

theorem oversized_chain_id_panics:
  assumes "tx_laws H" "IsValidInt256 (etValue b)" "IsValidInt256 t" "IsValidInt256 f" "2 ^ 256 \<le> \<bar>c\<bar>"
  shows "(\<exists>m. NewTxDataFromTx H (EthDynamicFeeTx b (Some c) t f al) = Inl (Panic m) \<and>
           NewTxDataFromTx H (EthAccessListTx b (Some c) f al) = Inl (Panic m)) \<and>
         NewTxDataFromTx H (EthDynamicFeeTx (b\<lparr>etValue := Some c\<rparr>) i t f al) = Inl (Errorf ''big int out of bound'')"
  using tx_laws.chain_id_panics[OF assms] assms(5)
  by (simp add: NewDynamicFeeTx_def conv_int_def SafeNewIntFromBigInt_def IsValidInt256_def)

theorem oversized_chain_id_panics_witness:
  "\<exists>m. NewTxDataFromTx demoTx (EthDynamicFeeTx demoBase (Some (2 ^ 256)) (Some 2) (Some 9) None) = Inl (Panic m)"
  using oversized_chain_id_panics[OF demoTx.tx_laws_axioms, of demoBase "Some 2" "Some 9" "2 ^ 256" None]
  by (auto simp: demoBase_def IsValidInt256_def)

section \<open>What validation promises\<close>

definition in_uint256 :: "int \<Rightarrow> bool" where
  "in_uint256 n \<longleftrightarrow> 0 \<le> n \<and> n < 2 ^ 256"

lemma checks:
  "check_fee f = Inr () \<Longrightarrow> \<exists>n. f = Inr n \<and> IsValidInt256 (Some n)"
  "check_amount a = Inr () \<longleftrightarrow> pred_option in_uint256 a"
  "check_to H d = Inr () \<longleftrightarrow> d = [] \<or> hxIsAddress H d"
  by (cases f; cases a; auto simp: check_fee_def check_amount_def check_to_def ValidateAddress_def guard_r_def IsValidInt256_def in_uint256_def
    split: if_splits)+

lemma valid_256: "0 \<le> n \<Longrightarrow> IsValidInt256 (Some n) \<longleftrightarrow> in_uint256 n"
  by (auto simp: IsValidInt256_def in_uint256_def)

lemma fee_nonneg: "fee p gas = Inr f \<Longrightarrow> pred_option ((\<le>) 0) p \<Longrightarrow> 0 \<le> f"
  by (cases p) (auto simp: fee_def)

text \<open>The effective price lies between zero and the fee cap.\<close>

lemma effective_fee_le:
  assumes "0 \<le> tip" "tip \<le> cap" "0 \<le> b"
  shows "0 \<le> min (tip + b) cap * int (unat gas) \<and> min (tip + b) cap * int (unat gas) \<le> cap * int (unat gas)"
  using assms by (simp add: mult_right_mono)

fun tx_dest :: "TxData \<Rightarrow> string" where
  "tx_dest (Legacy tx) = ltTo tx"
| "tx_dest (AccessTx tx) = alTo tx"
| "tx_dest (Dynamic tx) = dfTo tx"

text \<open>A well-typed transaction: the caps, the fee and the amount are unsigned 256-bit integers, the tip is at
  most the fee cap, the recipient is an address and there is a chain id.\<close>

definition tx_typed :: "tx_env \<Rightarrow> TxData \<Rightarrow> bool" where
  "tx_typed H t \<longleftrightarrow>
     (\<exists>tip cap f. GetGasTipCap t = Some tip \<and> GetGasFeeCap t = Some cap \<and> Fee t = Inr f \<and>
        in_uint256 tip \<and> in_uint256 cap \<and> in_uint256 f \<and> tip \<le> cap) \<and>
     pred_option in_uint256 (GetValue t) \<and> (tx_dest t = [] \<or> hxIsAddress H (tx_dest t)) \<and> GetChainID t \<noteq> None"

lemma check_fee_iff: "0 \<le> p \<Longrightarrow> check_fee (fee (Some p) gas) = Inr () \<longleftrightarrow> in_uint256 (p * int (unat gas))"
  by (simp add: check_fee_def fee_def guard_r_def valid_256)

lemma tx_typed_iff:
  "tx_typed H (Legacy tx) \<longleftrightarrow> (\<exists>p. ltGasPrice tx = Some p \<and> in_uint256 p \<and> in_uint256 (p * int (unat (ltGasLimit tx)))) \<and>
     pred_option in_uint256 (ltAmount tx) \<and> (ltTo tx = [] \<or> hxIsAddress H (ltTo tx)) \<and> GetChainID (Legacy tx) \<noteq> None"
  "tx_typed H (AccessTx atx) \<longleftrightarrow> (\<exists>p. alGasPrice atx = Some p \<and> in_uint256 p \<and> in_uint256 (p * int (unat (alGasLimit atx)))) \<and>
     pred_option in_uint256 (alAmount atx) \<and> (alTo atx = [] \<or> hxIsAddress H (alTo atx)) \<and> alChainID atx \<noteq> None"
  "tx_typed H (Dynamic dtx) \<longleftrightarrow> (\<exists>tip cap. dfGasTipCap dtx = Some tip \<and> dfGasFeeCap dtx = Some cap \<and> in_uint256 tip \<and> in_uint256 cap \<and>
       tip \<le> cap \<and> in_uint256 (cap * int (unat (dfGasLimit dtx)))) \<and>
     pred_option in_uint256 (dfAmount dtx) \<and> (dfTo dtx = [] \<or> hxIsAddress H (dfTo dtx)) \<and> dfChainID dtx \<noteq> None"
  by (auto simp: tx_typed_def LegacyTx_Fee_def AccessListTx_Fee_def DynamicFeeTx_Fee_def fee_def simp del: GetChainID.simps(1))

lemma Legacy_typed: "LegacyTx_Validate H tx = Inr () \<longleftrightarrow> tx_typed H (Legacy tx)"
proof (cases "ltGasPrice tx")
  case (Some p)
  show ?thesis
  proof (cases "0 \<le> p")
    case True
    then show ?thesis unfolding tx_typed_iff
      by (auto simp: LegacyTx_Validate_def Some LegacyTx_Fee_def bind_r_eq_Inr check_fee_iff checks guard_r_def valid_256 simp del: GetChainID.simps(1))
  qed (simp add: LegacyTx_Validate_def Some tx_typed_iff in_uint256_def)
qed (simp add: LegacyTx_Validate_def tx_typed_iff)

lemma Access_typed: "AccessListTx_Validate H tx = Inr () \<longleftrightarrow> tx_typed H (AccessTx tx)"
proof (cases "alGasPrice tx")
  case (Some p)
  show ?thesis
  proof (cases "0 \<le> p")
    case True
    then show ?thesis unfolding tx_typed_iff
      by (auto simp: AccessListTx_Validate_def Some AccessListTx_Fee_def bind_r_eq_Inr check_fee_iff checks guard_r_def valid_256)
  qed (simp add: AccessListTx_Validate_def Some tx_typed_iff in_uint256_def)
qed (simp add: AccessListTx_Validate_def tx_typed_iff)

lemma Dynamic_typed: "DynamicFeeTx_Validate H tx = Inr () \<longleftrightarrow> tx_typed H (Dynamic tx)"
proof (cases "dfGasTipCap tx"; cases "dfGasFeeCap tx")
  fix tip cap
  assume c: "dfGasTipCap tx = Some tip" "dfGasFeeCap tx = Some cap"
  show ?thesis
  proof (cases "0 \<le> tip \<and> 0 \<le> cap")
    case True
    then show ?thesis unfolding tx_typed_iff
      by (auto simp: DynamicFeeTx_Validate_def c DynamicFeeTx_Fee_def bind_r_eq_Inr check_fee_iff checks guard_r_def valid_256)
  next
    case False
    then show ?thesis by (auto simp: DynamicFeeTx_Validate_def c tx_typed_iff in_uint256_def)
  qed
qed (simp_all add: DynamicFeeTx_Validate_def tx_typed_iff)

lemma cost_bounds: "in_uint256 f \<Longrightarrow> pred_option in_uint256 a \<Longrightarrow> 0 \<le> cost f a \<and> cost f a < 2 ^ 257"
  by (cases a) (auto simp: cost_def in_uint256_def)

lemma cost_mono: "e \<le> f \<Longrightarrow> cost e a \<le> cost f a"
  by (cases a) (simp_all add: cost_def)

lemma typed_costs:
  assumes "tx_typed H t" "0 \<le> b"
  shows "\<exists>c e. Cost t = Inr c \<and> EffectiveCost t (Some b) = Inr e \<and> 0 \<le> e \<and> e \<le> c \<and> c < 2 ^ 257"
proof (cases t)
  case (Legacy tx)
  with assms(1) show ?thesis
    by (auto simp: tx_typed_iff LegacyTx_Cost_def LegacyTx_Fee_def fee_def cost_bounds[simplified] simp del: of_nat_unat)
next
  case (AccessTx tx)
  with assms(1) show ?thesis
    by (auto simp: tx_typed_iff AccessListTx_Cost_def AccessListTx_Fee_def fee_def cost_bounds[simplified] simp del: of_nat_unat)
next
  case (Dynamic tx)
  with assms obtain tip cap where c: "dfGasTipCap tx = Some tip" "dfGasFeeCap tx = Some cap" "0 \<le> tip" "tip \<le> cap"
    and f: "in_uint256 (cap * int (unat (dfGasLimit tx)))" and a: "pred_option in_uint256 (dfAmount tx)"
    by (auto simp: tx_typed_iff in_uint256_def)
  let ?e = "min (tip + b) cap * int (unat (dfGasLimit tx))"
  note le = effective_fee_le[OF c(3,4) assms(2), of "dfGasLimit tx"]
  with f have "in_uint256 ?e" by (simp add: in_uint256_def)
  with cost_bounds[OF _ a] f cost_mono[OF conjunct2[OF le]] Dynamic c show ?thesis
    by (simp add: DynamicFeeTx_Cost_def DynamicFeeTx_Fee_def DynamicFeeTx_EffectiveCost_def DynamicFeeTx_EffectiveFee_def
      DynamicFeeTx_EffectiveGasPrice_def EffectiveGasPrice_def of_option_def fee_def)
qed

text \<open>\<^bold>\<open>C32.\<close> Validation accepts exactly the well-typed transactions, of every kind, and of these the cost at
  any base fee is non-negative, at most the cost at the fee cap, and computed without a panic.\<close>

theorem Validate_accepts_well_typed:
  "(Validate H t = Inr () \<longleftrightarrow> tx_typed H t) \<and>
   (tx_typed H t \<longrightarrow> (\<forall>b\<ge>0. \<exists>c e. Cost t = Inr c \<and> EffectiveCost t (Some b) = Inr e \<and> 0 \<le> e \<and> e \<le> c \<and> c < 2 ^ 257))"
  using typed_costs[of H t] by (cases t) (auto simp only: Validate.simps Legacy_typed Access_typed Dynamic_typed)

definition demoDynamic :: DynamicFeeTx where
  "demoDynamic = \<lparr>dfChainID = Some 11235, dfNonce = 4, dfGasTipCap = Some 2, dfGasFeeCap = Some 9, dfGasLimit = 21000, dfTo = [],
     dfAmount = Some 30, dfData = [], dfAccesses = None, dfV = [1], dfR = [2], dfS = [3]\<rparr>"

theorem Validate_accepts_well_typed_witness:
  "Validate demoTx (Dynamic demoDynamic) = Inr () \<and> Cost (Dynamic demoDynamic) = Inr 189030 \<and>
   (\<exists>e. EffectiveCost (Dynamic demoDynamic) (Some 5) = Inr e \<and> e \<le> 189030)"
proof -
  have t: "tx_typed demoTx (Dynamic demoDynamic)" by (simp add: tx_typed_iff demoDynamic_def in_uint256_def)
  have "Cost (Dynamic demoDynamic) = Inr 189030"
    by (simp add: demoDynamic_def DynamicFeeTx_Cost_def DynamicFeeTx_Fee_def fee_def cost_def)
  with t Validate_accepts_well_typed[of demoTx "Dynamic demoDynamic"] show ?thesis
    by (auto dest!: spec[of _ 5])
qed

end
