(* ===== verification/FeeMarket.thy ===== *)
theory FeeMarket
  imports Prelude "HOL-Library.Word"
begin

text \<open>
  x/feemarket: the parameters and their validation, the base fee of EIP-1559 as
  \<^verbatim>\<open>CalculateBaseFee\<close> computes it, and the begin and end blockers. A decimal is its
  value times \<open>10^18\<close>; the product of two decimals is a parameter, the SDK rounds it. A nil
  \<^verbatim>\<open>Int\<close> or decimal is \<open>None\<close>. The codec of the stored parameters is left out:
  the store holds the parameters themselves, and integers are not cut at 256 bits.
\<close>

section \<open>Parameters\<close>

type_synonym dec = int

abbreviation dec_one :: dec where
  "dec_one \<equiv> 10 ^ 18"

record fm_params =
  NoBaseFee :: bool
  BaseFeeChangeDenominator :: "32 word"
  ElasticityMultiplier :: "32 word"
  BaseFee :: "int option"
  EnableHeight :: int
  MinGasPrice :: "dec option"
  MinGasMultiplier :: "dec option"

definition NewParams :: "bool \<Rightarrow> 32 word \<Rightarrow> 32 word \<Rightarrow> 64 word \<Rightarrow> int \<Rightarrow> dec option \<Rightarrow> dec option \<Rightarrow> fm_params" where
  "NewParams noBaseFee baseFeeChangeDenom elasticityMultiplier baseFee enableHeight minGasPrice minGasPriceMultiplier =
     \<lparr>NoBaseFee = noBaseFee, BaseFeeChangeDenominator = baseFeeChangeDenom, ElasticityMultiplier = elasticityMultiplier,
      BaseFee = Some (int (unat baseFee)), EnableHeight = enableHeight, MinGasPrice = minGasPrice,
      MinGasMultiplier = minGasPriceMultiplier\<rparr>"

text \<open>The defaults; denominator, elasticity and initial fee are constants of go-ethereum.\<close>

definition FeeMarket_DefaultParams :: "32 word \<Rightarrow> 32 word \<Rightarrow> 64 word \<Rightarrow> fm_params" where
  "FeeMarket_DefaultParams changeDenominator elasticity initialBaseFee =
     \<lparr>NoBaseFee = False, BaseFeeChangeDenominator = changeDenominator, ElasticityMultiplier = elasticity,
      BaseFee = Some (int (unat initialBaseFee)), EnableHeight = 0, MinGasPrice = Some 0, MinGasMultiplier = Some (50 * 10 ^ 16)\<rparr>"

definition validateMinGasPrice :: "dec option \<Rightarrow> unit result" where
  "validateMinGasPrice v =
     (case v of
        None \<Rightarrow> Inl (Errorf ''invalid parameter: nil'')
      | Some d \<Rightarrow> guard_r (\<not> d < 0) (Errorf ''value cannot be negative''))"

definition validateMinGasMultiplier :: "dec option \<Rightarrow> unit result" where
  "validateMinGasMultiplier v =
     (case v of
        None \<Rightarrow> Inl (Errorf ''invalid parameter: nil'')
      | Some d \<Rightarrow>
          if d < 0 then Inl (Errorf ''value cannot be negative'')
          else guard_r (\<not> d > dec_one) (Errorf ''value cannot be greater than 1''))"

definition FeeMarket_Validate :: "fm_params \<Rightarrow> unit result" where
  "FeeMarket_Validate p =
     (if BaseFeeChangeDenominator p = 0 then Inl (Errorf ''base fee change denominator cannot be 0'')
      else case BaseFee p of
        None \<Rightarrow> Inl (Panic ''nil pointer dereference'')
      | Some fee \<Rightarrow>
          if fee < 0 then Inl (Errorf ''initial base fee cannot be negative'')
          else if EnableHeight p < 0 then Inl (Errorf ''enable height cannot be negative'')
          else bind_r (validateMinGasMultiplier (MinGasMultiplier p)) (\<lambda>_. validateMinGasPrice (MinGasPrice p)))"

definition IsBaseFeeEnabled :: "fm_params \<Rightarrow> int \<Rightarrow> bool" where
  "IsBaseFeeEnabled p height = (\<not> NoBaseFee p \<and> height \<ge> EnableHeight p)"

section \<open>The store\<close>

record fm_store =
  fsParams :: "fm_params option"
  fsLegacyParams :: fm_params
  fsBlockGasWanted :: "64 word option"
  fsBaseFeeV1 :: "int option"
  fsTransientGasWanted :: "64 word option"

definition FeeMarket_GetParams :: "fm_store \<Rightarrow> fm_params" where
  "FeeMarket_GetParams s =
     (let params = (case fsParams s of None \<Rightarrow> fsLegacyParams s | Some p \<Rightarrow> p);
          params1 = (if MinGasPrice params = None then params\<lparr>MinGasPrice := Some 0\<rparr> else params)
      in if MinGasMultiplier params1 = None then params1\<lparr>MinGasMultiplier := Some 0\<rparr> else params1)"

definition FeeMarket_SetParams :: "fm_store \<Rightarrow> fm_params \<Rightarrow> fm_store" where
  "FeeMarket_SetParams s params = s\<lparr>fsParams := Some params\<rparr>"

definition GetBaseFeeEnabled :: "fm_store \<Rightarrow> int \<Rightarrow> bool" where
  "GetBaseFeeEnabled s height = (let params = FeeMarket_GetParams s in \<not> NoBaseFee params \<and> height \<ge> EnableHeight params)"

definition GetBaseFeeV1 :: "fm_store \<Rightarrow> int option" where
  "GetBaseFeeV1 s = fsBaseFeeV1 s"

definition FeeMarket_GetBaseFee :: "fm_store \<Rightarrow> int option" where
  "FeeMarket_GetBaseFee s =
     (let params = FeeMarket_GetParams s in
      if NoBaseFee params then None
      else if BaseFee params = None \<or> BaseFee params = Some 0 then GetBaseFeeV1 s
      else BaseFee params)"

definition SetBaseFee :: "fm_store \<Rightarrow> int \<Rightarrow> fm_store" where
  "SetBaseFee s baseFee = FeeMarket_SetParams s ((FeeMarket_GetParams s)\<lparr>BaseFee := Some baseFee\<rparr>)"

definition SetBlockGasWanted :: "fm_store \<Rightarrow> 64 word \<Rightarrow> fm_store" where
  "SetBlockGasWanted s gas = s\<lparr>fsBlockGasWanted := Some gas\<rparr>"

definition GetBlockGasWanted :: "fm_store \<Rightarrow> 64 word" where
  "GetBlockGasWanted s = (case fsBlockGasWanted s of None \<Rightarrow> 0 | Some g \<Rightarrow> g)"

definition GetTransientGasWanted :: "fm_store \<Rightarrow> 64 word" where
  "GetTransientGasWanted s = (case fsTransientGasWanted s of None \<Rightarrow> 0 | Some g \<Rightarrow> g)"

definition SetTransientBlockGasWanted :: "fm_store \<Rightarrow> 64 word \<Rightarrow> fm_store" where
  "SetTransientBlockGasWanted s gasWanted = s\<lparr>fsTransientGasWanted := Some gasWanted\<rparr>"

definition AddTransientGasWanted :: "fm_store \<Rightarrow> 64 word \<Rightarrow> fm_store \<times> 64 word" where
  "AddTransientGasWanted s gasWanted =
     (let result = GetTransientGasWanted s + gasWanted in (SetTransientBlockGasWanted s result, result))"

section \<open>The base fee\<close>

text \<open>
  The context of a block: its height and, when consensus parameters are set, the maximal gas of a
  block. \<^verbatim>\<open>big.Int.Div\<close> panics on a zero divisor. \<open>None\<close> is the nil result.
\<close>

record block_ctx =
  BlockHeight :: int
  MaxGas :: "int option"

definition big_Div :: "int \<Rightarrow> int \<Rightarrow> int result" where
  "big_Div x y = (if y = 0 then Inl (Panic ''division by zero'') else Inr (x div y))"

definition block_gas_limit :: "block_ctx \<Rightarrow> int" where
  "block_gas_limit ctx = (case MaxGas ctx of Some g \<Rightarrow> if g > -1 then g else 2 ^ 64 - 1 | None \<Rightarrow> 2 ^ 64 - 1)"

definition CalculateBaseFee :: "fm_store \<Rightarrow> block_ctx \<Rightarrow> int option result" where
  "CalculateBaseFee s ctx =
     (let params = FeeMarket_GetParams s in
      if \<not> IsBaseFeeEnabled params (BlockHeight ctx) then Inr None
      else if BlockHeight ctx = EnableHeight params then Inr (BaseFee params)
      else case BaseFee params of
        None \<Rightarrow> Inr None
      | Some parentBaseFee \<Rightarrow>
          let parentGasUsed = int (unat (GetBlockGasWanted s));
              gasLimit = block_gas_limit ctx;
              baseFeeChangeDenominator = int (unat (BaseFeeChangeDenominator params)) in
          bind_r (big_Div gasLimit (int (unat (ElasticityMultiplier params)))) (\<lambda>parentGasTarget.
          if \<not> (0 \<le> parentGasTarget \<and> parentGasTarget < 2 ^ 64) then Inr None
          else if parentGasUsed = parentGasTarget then Inr (Some parentBaseFee)
          else if parentGasUsed > parentGasTarget then
            bind_r (big_Div (parentBaseFee * (parentGasUsed - parentGasTarget)) parentGasTarget) (\<lambda>y.
            bind_r (big_Div y baseFeeChangeDenominator) (\<lambda>x.
            Inr (Some (parentBaseFee + max x 1))))
          else
            bind_r (big_Div (parentBaseFee * (parentGasTarget - parentGasUsed)) parentGasTarget) (\<lambda>y.
            bind_r (big_Div y baseFeeChangeDenominator) (\<lambda>baseFeeDelta.
            case MinGasPrice params of
              None \<Rightarrow> Inl (Panic ''nil pointer dereference'')
            | Some p \<Rightarrow> let minGasPrice = (if p \<ge> 0 then p div dec_one else - (- p div dec_one)) in
                Inr (Some (max (parentBaseFee - baseFeeDelta) minGasPrice))))))"

definition FeeMarket_BeginBlock :: "fm_store \<Rightarrow> block_ctx \<Rightarrow> fm_store result" where
  "FeeMarket_BeginBlock s ctx =
     bind_r (CalculateBaseFee s ctx) (\<lambda>baseFee.
     case baseFee of None \<Rightarrow> Inr s | Some fee \<Rightarrow> Inr (SetBaseFee s fee))"

text \<open>The end of a block, given the consumption of the block gas meter if there is one.\<close>

definition FeeMarket_EndBlock :: "(dec \<Rightarrow> dec \<Rightarrow> dec) \<Rightarrow> fm_store \<Rightarrow> 64 word option \<Rightarrow> fm_store result" where
  "FeeMarket_EndBlock decMul s meter =
     (case meter of
        None \<Rightarrow> Inl (Errorf ''block gas meter is nil when setting block gas wanted'')
      | Some consumed \<Rightarrow>
          let gasWanted = int (unat (GetTransientGasWanted s)); gasUsed = int (unat consumed) in
          if \<not> gasWanted < 2 ^ 63 then Inl (Errorf ''Gas wanted > MaxInt64'')
          else if \<not> gasUsed < 2 ^ 63 then Inl (Errorf ''Gas used > MaxInt64'')
          else case MinGasMultiplier (FeeMarket_GetParams s) of
            None \<Rightarrow> Inl (Panic ''nil pointer dereference'')
          | Some minGasMultiplier \<Rightarrow>
              let limitedGasWanted = decMul (gasWanted * dec_one) minGasMultiplier;
                  updatedGasWanted = max limitedGasWanted (gasUsed * dec_one) div dec_one in
              if updatedGasWanted \<ge> 2 ^ 64 then Inl (Panic ''Uint64() out of bounds'')
              else Inr (SetBlockGasWanted s (of_int updatedGasWanted)))"

definition FeeMarket_InitGenesis :: "fm_store \<Rightarrow> fm_params \<Rightarrow> 64 word \<Rightarrow> fm_store" where
  "FeeMarket_InitGenesis s params blockGas = SetBlockGasWanted (FeeMarket_SetParams s params) blockGas"

definition FeeMarket_ExportGenesis :: "fm_store \<Rightarrow> fm_params \<times> 64 word" where
  "FeeMarket_ExportGenesis s = (FeeMarket_GetParams s, GetBlockGasWanted s)"

definition FeeMarket_UpdateParams :: "string \<Rightarrow> fm_store \<Rightarrow> string \<Rightarrow> fm_params \<Rightarrow> fm_store result" where
  "FeeMarket_UpdateParams authority s reqAuthority params =
     (if authority \<noteq> reqAuthority then Inl (Wrapf ErrInvalidSigner ''invalid authority'')
      else Inr (FeeMarket_SetParams s params))"

section \<open>The base fee follows the gas target\<close>

lemma Validate_Inr:
  "FeeMarket_Validate p = Inr () \<longleftrightarrow> BaseFeeChangeDenominator p \<noteq> 0 \<and> (\<exists>fee\<ge>0. BaseFee p = Some fee) \<and> EnableHeight p \<ge> 0 \<and>
     (\<exists>m. MinGasMultiplier p = Some m \<and> 0 \<le> m \<and> m \<le> dec_one) \<and> (\<exists>g\<ge>0. MinGasPrice p = Some g)"
  by (auto simp: FeeMarket_Validate_def validateMinGasMultiplier_def validateMinGasPrice_def guard_r_def split: option.splits if_splits)

lemma scaled_div_bounds:
  fixes b :: int
  assumes "0 \<le> b" "0 \<le> d" "d \<le> t" "0 < t"
  shows "0 \<le> b * d div t" "b * d div t \<le> b"
proof -
  show "0 \<le> b * d div t" using assms by (simp add: pos_imp_zdiv_nonneg_iff)
  have "b * d \<le> b * t" using assms by (intro mult_left_mono)
  then have "b * d div t \<le> b * t div t" using assms(4) by (intro zdiv_mono1)
  then show "b * d div t \<le> b" using assms(4) by simp
qed


definition demoFeeStore :: fm_store where
  "demoFeeStore = \<lparr>fsParams = Some (FeeMarket_DefaultParams 8 2 1000000000), fsLegacyParams = FeeMarket_DefaultParams 8 2 0,
     fsBlockGasWanted = Some 30000000, fsBaseFeeV1 = None, fsTransientGasWanted = None\<rparr>"

lemma demoFee: "FeeMarket_GetParams demoFeeStore = FeeMarket_DefaultParams 8 2 1000000000"
  "FeeMarket_Validate (FeeMarket_DefaultParams 8 2 1000000000) = Inr ()"
  "CalculateBaseFee demoFeeStore \<lparr>BlockHeight = 5, MaxGas = Some 40000000\<rparr> = Inr (Some 1062500000)"
  by (simp_all add: demoFeeStore_def FeeMarket_GetParams_def FeeMarket_DefaultParams_def Let_def Validate_Inr CalculateBaseFee_def IsBaseFeeEnabled_def
    block_gas_limit_def GetBlockGasWanted_def big_Div_def)


section \<open>An elasticity of zero\<close>

text \<open>
  \<^bold>\<open>C35.\<close> Validated parameters can halt the chain. The calculation relies on a non-zero elasticity multiplier,
  which its comment says the validation ensures. The validation accepts zero: with it, every block after
  the one that enables the base fee panics with a division by zero.
\<close>

theorem zero_elasticity_passes_validation_and_panics:
  assumes "FeeMarket_GetParams s = p" "FeeMarket_Validate (p\<lparr>ElasticityMultiplier := 1\<rparr>) = Inr ()" "ElasticityMultiplier p = 0" "\<not> NoBaseFee p"
    "EnableHeight p < BlockHeight ctx"
  shows "FeeMarket_Validate p = Inr () \<and> FeeMarket_BeginBlock s ctx = Inl (Panic ''division by zero'')"
  using assms by (auto simp: Validate_Inr FeeMarket_BeginBlock_def CalculateBaseFee_def IsBaseFeeEnabled_def Let_def big_Div_def)

theorem zero_elasticity_passes_validation_and_panics_witness:
  "FeeMarket_BeginBlock (demoFeeStore\<lparr>fsParams := Some (FeeMarket_DefaultParams 8 0 1000000000)\<rparr>) \<lparr>BlockHeight = 5, MaxGas = None\<rparr> =
     Inl (Panic ''division by zero'')"
  using zero_elasticity_passes_validation_and_panics[of "demoFeeStore\<lparr>fsParams := Some (FeeMarket_DefaultParams 8 0 1000000000)\<rparr>"
    "FeeMarket_DefaultParams 8 0 1000000000" "\<lparr>BlockHeight = 5, MaxGas = None\<rparr>"]
  by (simp add: FeeMarket_GetParams_def FeeMarket_DefaultParams_def Let_def Validate_Inr)

end
