(* ===== verification/EvmFees.thy ===== *)
theory EvmFees
  imports EvmTx FeeMarket Coins
begin

text \<open>
  What a transaction pays: the balance and fee checks of x/evm/keeper/fees.go, the gas accounting
  at the end of \<^verbatim>\<open>ApplyMessageWithConfig\<close> with \<^verbatim>\<open>GasToRefund\<close>, and
  \<^verbatim>\<open>RefundGas\<close>; and the binary search behind gas estimation, x/evm/types/utils.go and
  \<^verbatim>\<open>EstimateGasInternal\<close>. The bank and \<^verbatim>\<open>sdk.NewCoin\<close> are the record \<open>refund_env\<close>;
  \<^verbatim>\<open>core.IntrinsicGas\<close>, the refund quotients, the product of decimals and the execution of a
  message at a gas limit are arguments.
\<close>

section \<open>Fees\<close>

definition CheckSenderBalance :: "int \<Rightarrow> TxData \<Rightarrow> unit result" where
  "CheckSenderBalance balance txData =
     bind_r (Cost txData) (\<lambda>cost.
     if cost < 0 then Inl (Wrapf ErrInvalidCoins ''tx cost is negative and invalid'')
     else guard_r (\<not> (balance < 0 \<or> balance < cost)) (Wrapf ErrInsufficientFunds ''sender balance < tx cost''))"

definition VerifyFee :: "tx_env \<Rightarrow> (bytes \<Rightarrow> eth_access_list \<Rightarrow> bool \<Rightarrow> bool \<Rightarrow> bool \<Rightarrow> 64 word result) \<Rightarrow> TxData \<Rightarrow> string \<Rightarrow> int option \<Rightarrow>
    bool \<Rightarrow> bool \<Rightarrow> bool \<Rightarrow> coin list result" where
  "VerifyFee H IntrinsicGas txData denom baseFee homestead istanbul isCheckTx =
     (let isContractCreation = (GetTo H txData = None);
          gasLimit = GetGas txData;
          accessList = (case GetAccessList H txData of None \<Rightarrow> [] | Some al \<Rightarrow> al) in
      bind_r (IntrinsicGas (GetData txData) accessList isContractCreation homestead istanbul) (\<lambda>intrinsicGas.
      if isCheckTx \<and> gasLimit < intrinsicGas then Inl (Wrapf ErrOutOfGas ''gas limit too low'')
      else
        bind_r (case baseFee of
            None \<Rightarrow> Inr ()
          | Some b \<Rightarrow> (case GetGasFeeCap txData of
              None \<Rightarrow> Inl nil_panic
            | Some cap \<Rightarrow> guard_r (\<not> cap < b) (Wrapf ErrInsufficientFee ''the tx gasfeecap is lower than the tx baseFee''))) (\<lambda>_.
        bind_r (EffectiveFee txData baseFee) (\<lambda>feeAmt.
        if feeAmt = 0 then Inr []
        else bind_r (sdkNewInt H feeAmt) (\<lambda>amt. Inr [\<lparr>Denom = denom, Amt = amt\<rparr>])))))"

section \<open>Gas accounting\<close>

text \<open>Division by a zero \<^verbatim>\<open>uint64\<close> panics.\<close>

definition GasToRefund :: "64 word \<Rightarrow> 64 word \<Rightarrow> 64 word \<Rightarrow> 64 word result" where
  "GasToRefund availableRefund gasConsumed refundQuotient =
     (if refundQuotient = 0 then Inl (Panic ''integer divide by zero'')
      else let refund = gasConsumed div refundQuotient in
        Inr (if refund > availableRefund then availableRefund else refund))"

text \<open>
  The end of \<^verbatim>\<open>ApplyMessageWithConfig\<close>: the refund after the execution left some gas,
  giving the gas left and the gas used, and the minimum charge. The first quotient is go-ethereum's,
  the second that of EIP-3529.
\<close>

definition apply_refund :: "64 word \<times> 64 word \<Rightarrow> bool \<Rightarrow> 64 word \<Rightarrow> 64 word \<Rightarrow> 64 word \<Rightarrow> (64 word \<times> 64 word) result" where
  "apply_refund quotients isLondon refundCounter gas leftoverGas =
     (let refundQuotient = (if isLondon then snd quotients else fst quotients) in
      if gas < leftoverGas then Inl (Wrapf ErrGasOverflow ''apply message'')
      else let temporaryGasUsed = gas - leftoverGas in
        bind_r (GasToRefund refundCounter temporaryGasUsed refundQuotient) (\<lambda>refund.
        Inr (leftoverGas + refund, temporaryGasUsed - refund)))"

definition dec_trunc :: "dec \<Rightarrow> int" where
  "dec_trunc d = (if d \<ge> 0 then d div dec_one else - (- d div dec_one))"

definition charge_minimum :: "(dec \<Rightarrow> dec \<Rightarrow> dec) \<Rightarrow> dec \<Rightarrow> 64 word \<Rightarrow> 64 word \<times> 64 word \<Rightarrow> 64 word result" where
  "charge_minimum decMul minGasMultiplier gas settled =
     (let leftoverGas = fst settled; temporaryGasUsed = snd settled;
          gasLimit = int (unat gas) * dec_one;
          minimumGasUsed = decMul gasLimit minGasMultiplier in
      if \<not> (0 \<le> dec_trunc minimumGasUsed \<and> dec_trunc minimumGasUsed < 2 ^ 64) then Inl (Wrapf ErrGasOverflow ''minimumGasUsed is not a uint64'')
      else if gas < leftoverGas then Inl (Wrapf ErrGasOverflow ''message gas limit < leftover gas'')
      else Inr (word_of_int (dec_trunc (max minimumGasUsed (int (unat temporaryGasUsed) * dec_one)))))"

record 's refund_env =
  rfNewCoin :: "string \<Rightarrow> int \<Rightarrow> coin option"
  rfSendFromModule :: "'s \<Rightarrow> string \<Rightarrow> address \<Rightarrow> coin list \<Rightarrow> 's result"

definition RefundGas :: "tx_env \<Rightarrow> 's refund_env \<Rightarrow> 's \<Rightarrow> address \<Rightarrow> int \<Rightarrow> 64 word \<Rightarrow> string \<Rightarrow> 's result" where
  "RefundGas H E s sender gasPrice leftoverGas denom =
     (let remaining = int (unat leftoverGas) * gasPrice in
      if remaining < 0 then Inl (Wrapf ErrInvalidRefund ''refunded amount value cannot be negative'')
      else if remaining > 0 then
        bind_r (sdkNewInt H remaining) (\<lambda>amount.
        bind_r (of_option (Panic ''invalid coin'') (rfNewCoin E denom amount)) (\<lambda>coin.
        case rfSendFromModule E s ''fee_collector'' sender [coin] of
          Inl (Panic m) \<Rightarrow> Inl (Panic m)
        | Inl _ \<Rightarrow> Inl (Wrapf ErrInsufficientFunds ''fee collector account failed to refund fees'')
        | Inr s' \<Rightarrow> Inr s'))
      else Inr s)"

section \<open>Gas estimation\<close>

text \<open>
  The search calls \<open>executable\<close> at gas limits; it answers whether the message failed, or an error.
  The loop may run forever, and then the value is \<open>None\<close>.
\<close>

partial_function (option) BinSearch :: "(64 word \<Rightarrow> bool result) \<Rightarrow> 64 word \<Rightarrow> 64 word \<Rightarrow> 64 word result option" where
  "BinSearch executable lo hi =
     (if lo + 1 < hi then
        let mid = (hi + lo) div 2 in
        case executable mid of
          Inl e \<Rightarrow> Some (Inl e)
        | Inr failed \<Rightarrow> if failed then BinSearch executable mid hi else BinSearch executable lo mid
      else Some (Inr hi))"

text \<open>The highest gas limit of an estimation: the gas of the call, else the block limit, else the cap; at most the cap.\<close>

definition estimate_hi :: "64 word \<Rightarrow> 64 word \<Rightarrow> 64 word option \<Rightarrow> int option \<Rightarrow> 64 word" where
  "estimate_hi TxGas GasCap argsGas maxGas =
     (let hi = (case argsGas of
          Some g \<Rightarrow> if g \<ge> TxGas then g else (case maxGas of Some m \<Rightarrow> if m > 0 then word_of_int m else GasCap | None \<Rightarrow> GasCap)
        | None \<Rightarrow> (case maxGas of Some m \<Rightarrow> if m > 0 then word_of_int m else GasCap | None \<Rightarrow> GasCap))
      in if GasCap \<noteq> 0 \<and> hi > GasCap then GasCap else hi)"

record vm_response =
  VmError :: string
  Ret :: bytes

datatype estimate = EstimatedGas "64 word" | EstimateReverted bytes string

text \<open>The search, and the second look at the highest allowance when nothing below it was enough.\<close>

definition estimate_search :: "(64 word \<Rightarrow> (bool \<times> vm_response option) result) \<Rightarrow> 64 word \<Rightarrow> 64 word \<Rightarrow> estimate result option" where
  "estimate_search executable lo gasCap =
     (case BinSearch (\<lambda>gas. bind_r (executable gas) (\<lambda>r. Inr (fst r))) lo gasCap of
        None \<Rightarrow> None
      | Some (Inl e) \<Rightarrow> Some (Inl e)
      | Some (Inr hi) \<Rightarrow> Some (
          if hi = gasCap then
            bind_r (executable hi) (\<lambda>(failed, result).
            if failed then
              (case result of
                 Some r \<Rightarrow>
                   if VmError r \<noteq> ''out of gas'' then
                     (if VmError r = ''execution reverted'' then Inr (EstimateReverted (Ret r) (VmError r)) else Inl (Errorf (VmError r)))
                   else Inl (Errorf ''gas required exceeds allowance'')
               | None \<Rightarrow> Inl (Errorf ''gas required exceeds allowance''))
            else Inr (EstimatedGas hi))
          else Inr (EstimatedGas hi)))"

text \<open>The estimation of a request; \<open>executable\<close> stands for the execution of the decoded message.\<close>

definition EstimateGasInternal :: "64 word \<Rightarrow> (64 word \<Rightarrow> (bool \<times> vm_response option) result) \<Rightarrow> 64 word \<Rightarrow> 64 word option \<Rightarrow> int option \<Rightarrow> estimate result option" where
  "EstimateGasInternal TxGas executable GasCap argsGas maxGas =
     (if GasCap < TxGas then Some (Inl (Errorf ''gas cap cannot be lower than TxGas''))
      else estimate_search executable (TxGas - 1) (estimate_hi TxGas GasCap argsGas maxGas))"

section \<open>The search ends below 2^63\<close>

lemma BinSearch_step:
  fixes lo hi :: "64 word"
  assumes "lo < hi" "unat hi \<le> 2 ^ 63"
  shows "lo + 1 < hi \<longleftrightarrow> unat lo + 1 < unat hi"
    and "unat ((hi + lo) div 2) = (unat hi + unat lo) div 2"
proof -
  have b: "unat lo < unat hi" using assms(1) by (simp add: word_less_nat_alt)
  have "unat (lo + 1) = unat lo + 1" using b assms(2) by (simp add: unat_word_ariths)
  then show "lo + 1 < hi \<longleftrightarrow> unat lo + 1 < unat hi" by (simp add: word_less_nat_alt)
  have "unat (hi + lo) = unat hi + unat lo" using b assms(2) by (simp add: unat_word_ariths)
  then show "unat ((hi + lo) div 2) = (unat hi + unat lo) div 2" by (simp add: unat_div)
qed

definition search_result :: "(64 word \<Rightarrow> bool result) \<Rightarrow> 64 word \<Rightarrow> 64 word \<Rightarrow> 64 word result \<Rightarrow> bool" where
  "search_result executable lo hi r =
     (case r of
        Inl e \<Rightarrow> \<exists>g. lo < g \<and> g < hi \<and> executable g = Inl e
      | Inr g \<Rightarrow> lo < g \<and> g \<le> hi \<and> (g = hi \<or> executable g = Inr False) \<and> (g = lo + 1 \<or> executable (g - 1) = Inr True))"

lemma search_result_up:
  assumes "search_result executable m hi r" "lo < m" "executable m = Inr True"
  shows "search_result executable lo hi r"
proof (cases r)
  case (Inl e)
  with assms show ?thesis by (auto simp: search_result_def intro: order_less_trans)
next
  case (Inr g)
  have "executable (g - 1) = Inr True" using assms(1,3) Inr by (auto simp: search_result_def)
  then show ?thesis using assms(1,2) Inr by (auto simp: search_result_def)
qed

lemma search_result_down:
  assumes "search_result executable lo m r" "m < hi" "executable m = Inr False"
  shows "search_result executable lo hi r"
proof (cases r)
  case (Inl e)
  with assms show ?thesis by (auto simp: search_result_def intro: order_less_trans)
next
  case (Inr g)
  then show ?thesis using assms by (auto simp: search_result_def)
qed

lemma BinSearch_returns:
  assumes "lo < hi" "unat hi \<le> 2 ^ 63"
  shows "\<exists>r. BinSearch executable lo hi = Some r \<and> search_result executable lo hi r"
  using assms
proof (induction "unat hi - unat lo" arbitrary: lo hi rule: less_induct)
  case less
  note step = BinSearch_step[OF less.prems]
  show ?case
  proof (cases "lo + 1 < hi")
    case True
    let ?mid = "(hi + lo) div 2"
    have "unat lo < unat ?mid" "unat ?mid < unat hi" using True step by simp_all
    then have m: "lo < ?mid" "?mid < hi" by (simp_all add: word_less_nat_alt)
    show ?thesis
    proof (cases "executable ?mid")
      case (Inl e)
      then show ?thesis using True m by (subst BinSearch.simps) (auto simp: search_result_def Let_def)
    next
      case (Inr failed)
      show ?thesis
      proof (cases failed)
        case True': True
        obtain r where r: "BinSearch executable ?mid hi = Some r" "search_result executable ?mid hi r"
          using less.hyps[of hi ?mid] m less.prems by (force simp: word_less_nat_alt)
        have "search_result executable lo hi r"
          using search_result_up[OF r(2)] m Inr True' by simp
        then show ?thesis using r(1) True Inr True' by (subst BinSearch.simps) (simp add: Let_def)
      next
        case False
        obtain r where r: "BinSearch executable lo ?mid = Some r" "search_result executable lo ?mid r"
          using less.hyps[of ?mid lo] m less.prems by (force simp: word_less_nat_alt)
        have "search_result executable lo hi r"
          using search_result_down[OF r(2)] m Inr False by simp
        then show ?thesis using r(1) True Inr False by (subst BinSearch.simps) (simp add: Let_def)
      qed
    qed
  next
    case False
    then have "unat hi = unat lo + 1" using step less.prems by (simp add: word_less_nat_alt)
    then have "hi = lo + 1" using less.prems(2) by (simp add: word_unat_eq_iff unat_word_ariths)
    then show ?thesis using False less.prems by (subst BinSearch.simps) (simp add: search_result_def)
  qed
qed

lemma estimate_hi_le: "GasCap \<noteq> 0 \<Longrightarrow> estimate_hi TxGas GasCap argsGas maxGas \<le> GasCap"
  by (simp add: estimate_hi_def Let_def not_less)

text \<open>A search that answers a gas limit has executed the message there successfully, or has it executed afterwards.\<close>

lemma estimate_search_returns:
  assumes "unat hi \<le> 2 ^ 63" "lo + 1 \<noteq> 0"
  shows "\<exists>r. estimate_search executable lo hi = Some r \<and>
    (\<forall>g. r = Inr (EstimatedGas g) \<longrightarrow> g \<le> hi \<and> (\<exists>rsp. executable g = Inr (False, rsp)) \<and>
      (lo + 1 < g \<longrightarrow> (\<exists>rsp. executable (g - 1) = Inr (True, rsp))))"
proof -
  let ?ex = "\<lambda>gas. bind_r (executable gas) (\<lambda>r. Inr (fst r))"
  have ran: "?ex g = Inr b \<Longrightarrow> \<exists>rsp. executable g = Inr (b, rsp)" for g b by (auto simp: bind_r_eq_Inr)
  have "\<exists>r. BinSearch ?ex lo hi = Some r \<and>
    (\<forall>g. r = Inr g \<longrightarrow> g \<le> hi \<and> (g = hi \<or> ?ex g = Inr False) \<and> (lo + 1 < g \<longrightarrow> ?ex (g - 1) = Inr True))"
  proof (cases "lo < hi")
    case True
    from BinSearch_returns[OF True assms(1)] show ?thesis by (force simp: search_result_def)
  next
    case False
    moreover have "lo < lo + 1" using assms(2) by (simp add: word_less_nat_alt unatSuc add.commute)
    ultimately have "\<not> lo + 1 < hi" by simp
    then show ?thesis by (subst BinSearch.simps) simp
  qed
  then obtain r where r: "BinSearch ?ex lo hi = Some r"
    "\<And>g. r = Inr g \<Longrightarrow> g \<le> hi \<and> (g = hi \<or> ?ex g = Inr False) \<and> (lo + 1 < g \<longrightarrow> ?ex (g - 1) = Inr True)" by blast
  show ?thesis
  proof (cases r)
    case (Inr g)
    show ?thesis
    proof (cases "g = hi")
      case True
      then show ?thesis using r Inr ran[of "hi - 1" True]
        by (cases "executable hi") (auto simp: estimate_search_def split: option.splits if_splits)
    next
      case False
      then show ?thesis using r Inr ran[of "g - 1" True] ran[of g False] by (simp add: estimate_search_def)
    qed
  qed (use r in \<open>simp add: estimate_search_def\<close>)
qed


definition demoCall :: "64 word \<Rightarrow> (bool \<times> vm_response option) result" where
  "demoCall gas = Inr (gas < 30000, Some \<lparr>VmError = (if gas < 30000 then ''out of gas'' else []), Ret = []\<rparr>)"


section \<open>The search can run forever\<close>

lemma half_below_max: "unat ((w :: 64 word) div 2) < 2 ^ 63"
proof -
  have "unat w < 2 ^ 64" using unsigned_less[of w] by simp
  moreover have "unat (w div 2) = unat w div 2" by (simp add: unat_div)
  ultimately show ?thesis by simp
qed

lemma succ_below_max: "(lo :: 64 word) \<noteq> - 2 \<Longrightarrow> lo + 1 < - 1"
proof -
  assume a: "lo \<noteq> - 2"
  have "lo + 1 \<noteq> - 1"
  proof
    assume "lo + 1 = - 1"
    then have "lo = - 1 - 1" by (metis add_diff_cancel_right')
    with a show False by simp
  qed
  moreover have "lo + 1 \<le> - 1" by simp
  ultimately show ?thesis using order_le_less by blast
qed

lemma BinSearch_wraps:
  assumes ret: "BinSearch executable lo hi = Some r"
  shows "hi = - 1 \<longrightarrow> lo \<noteq> - 2 \<longrightarrow> (\<exists>g. executable g \<noteq> Inr True)"
proof (rule BinSearch.raw_induct [where P = "\<lambda>executable lo hi r. hi = - 1 \<longrightarrow> lo \<noteq> - 2 \<longrightarrow> (\<exists>g. executable g \<noteq> Inr True)", OF _ ret])
  fix search executable and lo hi :: "64 word" and r
  assume IH: "\<And>executable lo hi r. search executable lo hi = Some r \<Longrightarrow> hi = - 1 \<longrightarrow> lo \<noteq> - 2 \<longrightarrow> (\<exists>g. executable g \<noteq> Inr True)"
    and eq: "(if lo + 1 < hi then
        let mid = (hi + lo) div 2 in
        case executable mid of
          Inl e \<Rightarrow> Some (Inl e)
        | Inr failed \<Rightarrow> if failed then search executable mid hi else search executable lo mid
      else Some (Inr hi)) = Some r"
  show "hi = - 1 \<longrightarrow> lo \<noteq> - 2 \<longrightarrow> (\<exists>g. executable g \<noteq> Inr True)"
  proof (intro impI, rule ccontr)
    assume h: "hi = - 1" "lo \<noteq> - 2" and "\<nexists>g. executable g \<noteq> Inr True"
    then have all: "executable g = Inr True" for g by blast
    let ?mid = "(hi + lo) div 2"
    have "unat (- 2 :: 64 word) = 2 ^ 64 - 2" by simp
    with half_below_max[of "hi + lo"] have "?mid \<noteq> - 2" by auto
    moreover have "search executable ?mid hi = Some r"
      using eq all succ_below_max[OF h(2)] h(1) by (simp add: Let_def)
    ultimately show False using IH[of executable ?mid hi r] h(1) all by simp
  qed
qed

text \<open>\<^bold>\<open>C31.\<close> With the largest gas cap, the largest gas and a message that fails at every gas limit, the
  sum of the bounds wraps around and the estimation never returns.\<close>

theorem gas_estimation_can_loop_forever:
  assumes "\<forall>g. \<exists>rsp. executable g = Inr (True, rsp)"
  shows "EstimateGasInternal 21000 executable (- 1) (Some (- 1)) maxGas = None"
proof -
  let ?ex = "\<lambda>gas. bind_r (executable gas) (\<lambda>r. Inr (fst r))"
  have "?ex g = Inr True" for g using assms by (metis bind_r_Inr fst_conv)
  then have "BinSearch ?ex 20999 (- 1) = None"
    using BinSearch_wraps[of ?ex 20999 "- 1"] by (cases "BinSearch ?ex 20999 (- 1)") auto
  moreover have "\<not> (- 1 :: 64 word) < 21000" by simp
  ultimately show ?thesis by (simp add: EstimateGasInternal_def estimate_hi_def estimate_search_def)
qed

theorem gas_estimation_can_loop_forever_witness:
  "EstimateGasInternal 21000 (\<lambda>_. Inr (True, Some \<lparr>VmError = ''execution reverted'', Ret = []\<rparr>)) (- 1) (Some (- 1)) None = None"
  by (rule gas_estimation_can_loop_forever) simp

section \<open>What the sender pays\<close>

lemma GasToRefund_le:
  assumes "refundQuotient \<noteq> 0"
  shows "\<exists>rf. GasToRefund available consumed refundQuotient = Inr rf \<and> unat rf \<le> unat available \<and> unat rf \<le> unat consumed div unat refundQuotient"
proof -
  have "unat (consumed div refundQuotient) = unat consumed div unat refundQuotient" by (rule unat_div)
  then show ?thesis using assms by (auto simp: GasToRefund_def word_less_nat_alt)
qed

lemma apply_refund_ok:
  assumes "fst quotients \<noteq> 0" "snd quotients \<noteq> 0" "leftover \<le> gas"
  shows "\<exists>left used. apply_refund quotients isLondon refundCounter gas leftover = Inr (left, used) \<and>
    unat left + unat used = unat gas \<and> unat leftover \<le> unat left \<and> left \<le> gas"
proof -
  let ?q = "if isLondon then snd quotients else fst quotients"
  have "?q \<noteq> 0" using assms(1,2) by simp
  from GasToRefund_le[OF this, of refundCounter "gas - leftover"]
  obtain rf where rf: "GasToRefund refundCounter (gas - leftover) ?q = Inr rf" "unat rf \<le> unat (gas - leftover) div unat ?q" by blast
  have sub: "unat (gas - leftover) = unat gas - unat leftover" using assms(3) by (rule unat_sub)
  have le: "unat rf \<le> unat gas - unat leftover" using rf(2) unfolding sub by (meson div_le_dividend order_trans)
  have lo: "unat leftover \<le> unat gas" using assms(3) by (simp add: word_le_nat_alt)
  have g: "unat gas < 2 ^ 64" using unsigned_less[of gas] by simp
  have left: "unat (leftover + rf) = unat leftover + unat rf" using le lo g by (simp add: unat_word_ariths)
  have used: "unat (gas - leftover - rf) = unat gas - unat leftover - unat rf"
    using le sub by (subst unat_sub) (simp_all add: word_le_nat_alt)
  have "apply_refund quotients isLondon refundCounter gas leftover = Inr (leftover + rf, gas - leftover - rf)"
    using rf(1) assms(3) by (simp add: apply_refund_def Let_def)
  then show ?thesis using left used le lo by (auto simp: word_le_nat_alt)
qed

lemma div_bounds:
  fixes x u d :: int
  assumes "0 < d"
  shows "x \<le> u * d \<Longrightarrow> x div d \<le> u" "u * d \<le> x \<Longrightarrow> u \<le> x div d"
  using zdiv_mono1[of x "u * d" d] zdiv_mono1[of "u * d" x d] assms by simp_all

lemma dec_trunc_max:
  assumes "0 \<le> x" "0 \<le> u"
  shows "dec_trunc (max x (u * dec_one)) = max (x div dec_one) u"
proof -
  have d: "0 < dec_one" by simp
  have "max x (u * dec_one) div dec_one = max (x div dec_one) u"
    using div_bounds[OF d, of x u] d unfolding max_def by (cases "x \<le> u * dec_one") (simp_all add: antisym)
  then show ?thesis using assms(1) by (simp add: dec_trunc_def max_def)
qed

lemma charge_minimum_ok:
  assumes dec: "\<And>n d. decMul (n * dec_one) d = n * d"
    and m: "validateMinGasMultiplier (Some m) = Inr ()"
    and left: "left \<le> gas" "unat used \<le> unat gas"
  shows "\<exists>charged. charge_minimum decMul m gas (left, used) = Inr charged \<and>
    int (unat charged) = max (int (unat gas) * m div dec_one) (int (unat used)) \<and> charged \<le> gas"
proof -
  define g u where "g = int (unat gas)" and "u = int (unat used)"
  define c where "c = max (g * m div dec_one) u"
  have m': "0 \<le> m" "m \<le> dec_one" using m by (auto simp: validateMinGasMultiplier_def guard_r_def split: if_splits)
  have g64: "unat gas < 2 ^ 64" using unsigned_less[of gas] by simp
  have g: "0 \<le> g" "g < 2 ^ 64" "0 \<le> u" "u \<le> g"
    using g64 left(2) by (simp_all add: g_def u_def del: of_nat_unat)
  have min: "0 \<le> g * m" "g * m \<le> g * dec_one" using m' g(1) by (auto intro: mult_left_mono mult_nonneg_nonneg)
  have tr: "dec_trunc (g * m) = g * m div dec_one" "0 \<le> g * m div dec_one" "g * m div dec_one \<le> g"
    using min(1) div_bounds(1)[OF _ min(2)] by (simp_all add: dec_trunc_def pos_imp_zdiv_nonneg_iff)
  have c: "0 \<le> c" "c \<le> g" using tr g by (simp_all add: c_def)
  have w: "uint (word_of_int c :: 64 word) = c" using c g by (simp add: uint_word_of_int)
  have "charge_minimum decMul m gas (left, used) = Inr (word_of_int c)"
    unfolding charge_minimum_def Let_def fst_conv snd_conv dec g_def[symmetric] u_def[symmetric] dec_trunc_max[OF min(1) g(3)] c_def[symmetric] tr(1)
    using tr g left(1) by simp
  moreover have "int (unat (word_of_int c :: 64 word)) = c" using w by simp
  moreover have "(word_of_int c :: 64 word) \<le> gas" using c(2) w by (simp add: word_le_def g_def)
  ultimately show ?thesis unfolding c_def g_def u_def by blast
qed

lemma typed_effective_fee:
  assumes t: "tx_typed H t" and b: "pred_option ((\<le>) 0) base" and p: "TxEffectiveGasPrice t base = Inr (Some p)"
  shows "EffectiveFee t base = Inr (p * int (unat (GetGas t))) \<and> 0 \<le> p \<and> in_uint256 (p * int (unat (GetGas t)))"
proof (cases t)
  case (Legacy tx)
  with t p show ?thesis by (auto simp: tx_typed_iff LegacyTx_Fee_def fee_def in_uint256_def)
next
  case (AccessTx tx)
  with t p show ?thesis by (auto simp: tx_typed_iff AccessListTx_Fee_def fee_def in_uint256_def)
next
  case (Dynamic tx)
  with t obtain tip cap where c: "dfGasTipCap tx = Some tip" "dfGasFeeCap tx = Some cap" "0 \<le> tip" "tip \<le> cap"
    "in_uint256 (cap * int (unat (dfGasLimit tx)))" by (auto simp: tx_typed_iff in_uint256_def)
  from p Dynamic c(1,2) obtain bf where bf: "base = Some bf" "p = min (tip + bf) cap"
    by (auto simp: DynamicFeeTx_EffectiveGasPrice_def EffectiveGasPrice_def of_option_def bind_r_eq_Inr split: option.splits)
  with b have "0 \<le> bf" by simp
  from effective_fee_le[OF c(3,4) this, of "dfGasLimit tx"] c bf Dynamic \<open>0 \<le> bf\<close> show ?thesis
    by (simp add: DynamicFeeTx_EffectiveFee_def DynamicFeeTx_EffectiveGasPrice_def EffectiveGasPrice_def of_option_def fee_def in_uint256_def)
qed

lemma VerifyFee_amount:
  assumes "tx_laws H" "EffectiveFee t base = Inr f" "in_uint256 f" "VerifyFee H ig t denom base homestead istanbul check = Inr fees"
  shows "fees = (if f = 0 then [] else [\<lparr>Denom = denom, Amt = f\<rparr>])"
proof -
  have "sdkNewInt H f = Inr f" using assms(1,3) by (simp add: tx_laws.new_int in_uint256_def)
  then show ?thesis using assms(2,4) by (auto simp: VerifyFee_def Let_def bind_r_eq_Inr split: if_splits)
qed

lemma RefundGas_sends:
  assumes "tx_laws H" "r = int (unat leftover) * p" "in_uint256 r" "\<And>n. 0 < n \<Longrightarrow> rfNewCoin E denom n = Some \<lparr>Denom = denom, Amt = n\<rparr>"
  shows "r = 0 \<Longrightarrow> RefundGas H E s sender p leftover denom = Inr s"
    and "0 < r \<Longrightarrow> rfSendFromModule E s ''fee_collector'' sender [\<lparr>Denom = denom, Amt = r\<rparr>] = Inr s' \<Longrightarrow>
      RefundGas H E s sender p leftover denom = Inr s'"
proof -
  have "sdkNewInt H r = Inr r" using assms(1,3) by (simp add: tx_laws.new_int in_uint256_def)
  then show "r = 0 \<Longrightarrow> RefundGas H E s sender p leftover denom = Inr s"
    and "0 < r \<Longrightarrow> rfSendFromModule E s ''fee_collector'' sender [\<lparr>Denom = denom, Amt = r\<rparr>] = Inr s' \<Longrightarrow>
      RefundGas H E s sender p leftover denom = Inr s'"
    unfolding RefundGas_def Let_def assms(2)[symmetric] by (simp_all add: assms(4) of_option_def)
qed


definition demoRefund :: "int refund_env" where
  "demoRefund = \<lparr>rfNewCoin = (\<lambda>d n. Some \<lparr>Denom = d, Amt = n\<rparr>), rfSendFromModule = (\<lambda>s m a cs. Inr (s + sum_list (map Amt cs)))\<rparr>"


end
