(* ===== verification/Epochs.thy ===== *)
theory Epochs
  imports Prelude "HOL-Library.List_Lexorder" "HOL-Library.Char_ord"
begin

text \<open>
  x/epochs: the epoch records and their store, the begin blocker that starts and ends epochs and
  calls the hooks of other modules, and genesis. A time is its Unix time in nanoseconds, a duration
  the \<^verbatim>\<open>int64\<close> of nanoseconds. The store is the list of the records in the order of the
  bytes of their identifiers, which is the order its iterator has. What the hooks do to the state of
  the other modules is an argument; events and logging are left out.
\<close>

section \<open>Epoch records\<close>

record EpochInfo =
  eiIdentifier :: string
  eiStartTime :: int
  eiDuration :: int
  eiCurrentEpoch :: int
  eiCurrentEpochStartTime :: int
  eiEpochCountingStarted :: bool
  eiCurrentEpochStartHeight :: int

definition StartInitialEpoch :: "EpochInfo \<Rightarrow> EpochInfo" where
  "StartInitialEpoch ei = ei\<lparr>eiEpochCountingStarted := True, eiCurrentEpoch := 1, eiCurrentEpochStartTime := eiStartTime ei\<rparr>"

definition EndEpoch :: "EpochInfo \<Rightarrow> EpochInfo" where
  "EndEpoch ei = ei\<lparr>eiCurrentEpoch := wrap64 (eiCurrentEpoch ei + 1),
     eiCurrentEpochStartTime := eiCurrentEpochStartTime ei + eiDuration ei\<rparr>"

text \<open>\<^verbatim>\<open>strings.TrimSpace\<close> leaves nothing of a string of white space; identifiers are ASCII.\<close>

definition blank :: "string \<Rightarrow> bool" where
  "blank s = list_all (\<lambda>c. of_char c \<in> {9, 10, 11, 12, 13, 32 :: nat}) s"

definition EpochInfo_Validate :: "EpochInfo \<Rightarrow> unit result" where
  "EpochInfo_Validate ei =
     (if blank (eiIdentifier ei) then Inl (Errorf ''epoch identifier cannot be blank'')
      else if eiDuration ei = 0 then Inl (Errorf ''epoch duration cannot be 0'')
      else if eiCurrentEpoch ei < 0 then Inl (Errorf ''current epoch cannot be negative'')
      else guard_r (\<not> eiCurrentEpochStartHeight ei < 0) (Errorf ''current epoch start height cannot be negative''))"

section \<open>The store\<close>

definition GetEpochInfo :: "EpochInfo list \<Rightarrow> string \<Rightarrow> EpochInfo option" where
  "GetEpochInfo es identifier = find (\<lambda>e. eiIdentifier e = identifier) es"

fun SetEpochInfo :: "EpochInfo list \<Rightarrow> EpochInfo \<Rightarrow> EpochInfo list" where
  "SetEpochInfo [] epoch = [epoch]"
| "SetEpochInfo (e # es) epoch =
     (if eiIdentifier epoch < eiIdentifier e then epoch # e # es
      else if eiIdentifier epoch = eiIdentifier e then epoch # es
      else e # SetEpochInfo es epoch)"

definition DeleteEpochInfo :: "EpochInfo list \<Rightarrow> string \<Rightarrow> EpochInfo list" where
  "DeleteEpochInfo es identifier = filter (\<lambda>e. eiIdentifier e \<noteq> identifier) es"

text \<open>The iteration runs over the records the store has when it starts, and threads the state through the callback.\<close>

fun IterateEpochInfo :: "('st \<Rightarrow> EpochInfo \<Rightarrow> 'st \<times> bool) \<Rightarrow> 'st \<Rightarrow> EpochInfo list \<Rightarrow> 'st" where
  "IterateEpochInfo fn st [] = st"
| "IterateEpochInfo fn st (e # es) = (let (st', stop) = fn st e in if stop then st' else IterateEpochInfo fn st' es)"

definition AllEpochInfos :: "EpochInfo list \<Rightarrow> EpochInfo list" where
  "AllEpochInfos es = IterateEpochInfo (\<lambda>acc e. (acc @ [e], False)) [] es"

section \<open>The begin blocker\<close>

record 'h epoch_hooks =
  hkAfterEpochEnd :: "'h \<Rightarrow> string \<Rightarrow> int \<Rightarrow> 'h"
  hkBeforeEpochStart :: "'h \<Rightarrow> string \<Rightarrow> int \<Rightarrow> 'h"

definition MultiEpochHooks :: "'h epoch_hooks list \<Rightarrow> 'h epoch_hooks" where
  "MultiEpochHooks mh =
     \<lparr>hkAfterEpochEnd = (\<lambda>h identifier n. foldl (\<lambda>h k. hkAfterEpochEnd k h identifier n) h mh),
      hkBeforeEpochStart = (\<lambda>h identifier n. foldl (\<lambda>h k. hkBeforeEpochStart k h identifier n) h mh)\<rparr>"

definition epoch_callback :: "'h epoch_hooks \<Rightarrow> int \<Rightarrow> int \<Rightarrow> EpochInfo list \<times> 'h \<Rightarrow> EpochInfo \<Rightarrow> (EpochInfo list \<times> 'h) \<times> bool" where
  "epoch_callback H height now st epochInfo =
     (let shouldInitialEpochStart = (\<not> eiEpochCountingStarted epochInfo \<and> \<not> eiStartTime epochInfo > now);
          epochEndTime = eiCurrentEpochStartTime epochInfo + eiDuration epochInfo;
          shouldEpochEnd = (now > epochEndTime \<and> \<not> shouldInitialEpochStart \<and> \<not> eiStartTime epochInfo > now);
          epochInfo1 = epochInfo\<lparr>eiCurrentEpochStartHeight := height\<rparr> in
      if shouldInitialEpochStart then
        let e = StartInitialEpoch epochInfo1 in
        ((SetEpochInfo (fst st) e, hkBeforeEpochStart H (snd st) (eiIdentifier e) (eiCurrentEpoch e)), False)
      else if shouldEpochEnd then
        let e = EndEpoch epochInfo1;
            h = hkAfterEpochEnd H (snd st) (eiIdentifier e) (eiCurrentEpoch e) in
        ((SetEpochInfo (fst st) e, hkBeforeEpochStart H h (eiIdentifier e) (eiCurrentEpoch e)), False)
      else (st, False))"

definition Epochs_BeginBlocker :: "'h epoch_hooks \<Rightarrow> int \<times> int \<Rightarrow> EpochInfo list \<times> 'h \<Rightarrow> EpochInfo list \<times> 'h" where
  "Epochs_BeginBlocker H block st = IterateEpochInfo (epoch_callback H (fst block) (snd block)) st (fst st)"

section \<open>Genesis\<close>

text \<open>\<^verbatim>\<open>time.Time{}\<close>, the first instant of year one.\<close>

definition zero_time :: int where
  "zero_time = - 62135596800 * 10 ^ 9"

definition Epochs_DefaultGenesisState :: "EpochInfo list" where
  "Epochs_DefaultGenesisState =
     map (\<lambda>(i, d). \<lparr>eiIdentifier = i, eiStartTime = zero_time, eiDuration = d, eiCurrentEpoch = 0, eiCurrentEpochStartTime = zero_time,
       eiEpochCountingStarted = False, eiCurrentEpochStartHeight = 0\<rparr>) [(''week'', 3600 * 10 ^ 9 * 24 * 7), (''day'', 3600 * 10 ^ 9 * 24)]"

fun validate_epochs :: "string set \<Rightarrow> EpochInfo list \<Rightarrow> unit result" where
  "validate_epochs seen [] = Inr ()"
| "validate_epochs seen (e # es) =
     (if eiIdentifier e \<in> seen then Inl (Errorf ''duplicated epoch entry'')
      else bind_r (EpochInfo_Validate e) (\<lambda>_. validate_epochs (insert (eiIdentifier e) seen) es))"

definition Epochs_GenesisState_Validate :: "EpochInfo list \<Rightarrow> unit result" where
  "Epochs_GenesisState_Validate epochs = validate_epochs {} epochs"

definition Epochs_InitGenesis :: "int \<times> int \<Rightarrow> EpochInfo list \<Rightarrow> EpochInfo list \<Rightarrow> EpochInfo list" where
  "Epochs_InitGenesis block store epochs =
     foldl (\<lambda>s epoch. SetEpochInfo s
       ((if eiStartTime epoch = zero_time then epoch\<lparr>eiStartTime := snd block\<rparr> else epoch)\<lparr>eiCurrentEpochStartHeight := fst block\<rparr>)) store epochs"

definition Epochs_ExportGenesis :: "EpochInfo list \<Rightarrow> EpochInfo list" where
  "Epochs_ExportGenesis store = AllEpochInfos store"

section \<open>One block\<close>

text \<open>What a block does to a single record.\<close>

definition advance :: "int \<times> int \<Rightarrow> EpochInfo \<Rightarrow> EpochInfo" where
  "advance block e =
     (if snd block < eiStartTime e then e
      else if \<not> eiEpochCountingStarted e then StartInitialEpoch (e\<lparr>eiCurrentEpochStartHeight := fst block\<rparr>)
      else if eiCurrentEpochStartTime e + eiDuration e < snd block then EndEpoch (e\<lparr>eiCurrentEpochStartHeight := fst block\<rparr>)
      else e)"

abbreviation ids :: "EpochInfo list \<Rightarrow> string list" where
  "ids es \<equiv> map eiIdentifier es"

lemma advance_id [simp]: "eiIdentifier (advance block e) = eiIdentifier e"
  by (simp add: advance_def StartInitialEpoch_def EndEpoch_def)

lemma ids_advance [simp]: "eiIdentifier \<circ> advance block = eiIdentifier"
  by (simp add: fun_eq_iff)

lemma SetEpochInfo_replaces:
  assumes "\<forall>x\<in>set pre. eiIdentifier x < eiIdentifier e" "eiIdentifier e' = eiIdentifier e"
  shows "SetEpochInfo (pre @ e # suf) e' = pre @ e' # suf"
  using assms by (induction pre) auto

lemma epoch_callback_store:
  assumes "\<forall>x\<in>set pre. eiIdentifier x < eiIdentifier e"
  shows "\<exists>h'. epoch_callback H (fst block) (snd block) (pre @ e # suf, h) e = ((pre @ advance block e # suf, h'), False)"
proof -
  have keep: "eiIdentifier (StartInitialEpoch (e\<lparr>eiCurrentEpochStartHeight := i\<rparr>)) = eiIdentifier e"
    "eiIdentifier (EndEpoch (e\<lparr>eiCurrentEpochStartHeight := i\<rparr>)) = eiIdentifier e" for i
    by (simp_all add: StartInitialEpoch_def EndEpoch_def)
  note set = SetEpochInfo_replaces[OF assms keep(1)] SetEpochInfo_replaces[OF assms keep(2)]
  show ?thesis by (auto simp: epoch_callback_def advance_def Let_def set)
qed

lemma iterate_store:
  assumes "sorted_wrt (<) (ids (pre @ es))"
  shows "fst (IterateEpochInfo (epoch_callback H (fst block) (snd block)) (pre @ es, h) es) = pre @ map (advance block) es"
  using assms
proof (induction es arbitrary: pre h)
  case (Cons e es)
  then have "\<forall>x\<in>set pre. eiIdentifier x < eiIdentifier e" by (auto simp: sorted_wrt_append)
  from epoch_callback_store[OF this, of H block es h] obtain h'
    where c: "epoch_callback H (fst block) (snd block) (pre @ e # es, h) e = ((pre @ advance block e # es, h'), False)" by blast
  have "sorted_wrt (<) (ids ((pre @ [advance block e]) @ es))" using Cons.prems by (simp add: sorted_wrt_append)
  from Cons.IH[OF this, of h'] show ?case by (simp add: c)
qed simp

lemma BeginBlocker_store:
  assumes "sorted_wrt (<) (ids es)"
  shows "fst (Epochs_BeginBlocker H block (es, h)) = map (advance block) es"
  using iterate_store[of "[]" es H block h] assms by (simp add: Epochs_BeginBlocker_def)

lemma BeginBlockers_store:
  assumes "sorted_wrt (<) (ids es)"
  shows "fst (foldl (\<lambda>st b. Epochs_BeginBlocker H b st) (es, h) blocks) = foldl (\<lambda>es b. map (advance b) es) es blocks"
  using assms
proof (induction blocks arbitrary: es h)
  case (Cons b blocks)
  obtain es' h' where st: "Epochs_BeginBlocker H b (es, h) = (es', h')" by (cases "Epochs_BeginBlocker H b (es, h)")
  then have "es' = map (advance b) es" using BeginBlocker_store[OF Cons.prems, of H b h] by simp
  then show ?case using Cons.IH[of es' h'] Cons.prems st by simp
qed simp

lemma advance_runs: "foldl (\<lambda>es b. map (advance b) es) es blocks = map (\<lambda>e. foldl (\<lambda>e b. advance b e) e blocks) es"
  by (induction blocks arbitrary: es) (simp_all add: o_def)

section \<open>Runs of blocks\<close>

text \<open>
  An epoch after \<open>n\<close> blocks, the last at time \<open>now\<close>: counting has started once its start time is
  reached, the current epoch starts a whole number of durations after the first, not in the
  future, and there is at most one epoch per block.
\<close>

definition epoch_ok :: "nat \<Rightarrow> int \<Rightarrow> EpochInfo \<Rightarrow> bool" where
  "epoch_ok n now e \<longleftrightarrow>
     (if eiEpochCountingStarted e then 1 \<le> eiCurrentEpoch e \<and> eiCurrentEpoch e \<le> int n \<and>
        eiCurrentEpochStartTime e = eiStartTime e + (eiCurrentEpoch e - 1) * eiDuration e \<and> eiCurrentEpochStartTime e \<le> now
      else eiCurrentEpoch e = 0 \<and> (n = 0 \<or> now < eiStartTime e))"

lemma advance_ok:
  assumes "epoch_ok n now e" "now \<le> snd block" "Suc n < 2 ^ 63"
  shows "epoch_ok (Suc n) (snd block) (advance block e)"
proof (cases "eiEpochCountingStarted e")
  case True
  then have c: "1 \<le> eiCurrentEpoch e" "eiCurrentEpoch e \<le> int n"
    "eiCurrentEpochStartTime e = eiStartTime e + (eiCurrentEpoch e - 1) * eiDuration e" "eiCurrentEpochStartTime e \<le> now"
    using assms(1) by (simp_all add: epoch_ok_def)
  then have w: "wrap64 (eiCurrentEpoch e + 1) = eiCurrentEpoch e + 1" using assms(3) by (intro wrap64_id) (simp add: in64_def)
  show ?thesis using True c assms(2) by (auto simp: epoch_ok_def advance_def EndEpoch_def w left_diff_distrib distrib_right)
next
  case False
  then show ?thesis using assms(1) by (auto simp: epoch_ok_def advance_def StartInitialEpoch_def)
qed

lemma advances_ok:
  assumes "epoch_ok n now e" "sorted (now # map snd blocks)" "n + length blocks < 2 ^ 63"
  shows "epoch_ok (n + length blocks) (last (now # map snd blocks)) (foldl (\<lambda>e b. advance b e) e blocks)"
  using assms
proof (induction blocks arbitrary: n now e)
  case (Cons b blocks)
  have "epoch_ok (Suc n) (snd b) (advance b e)" using Cons.prems by (intro advance_ok[of n now]) simp_all
  from Cons.IH[OF this] Cons.prems show ?case by simp
qed simp

lemma SetEpochInfo_ids: "set (ids (SetEpochInfo es e)) = insert (eiIdentifier e) (set (ids es))"
  by (induction es) auto

lemma SetEpochInfo_sorted: "sorted_wrt (<) (ids es) \<Longrightarrow> sorted_wrt (<) (ids (SetEpochInfo es e))"
proof (induction es)
  case (Cons x es)
  then show ?case using SetEpochInfo_ids[of es e] by (auto dest!: equalityD1)
qed simp

lemma SetEpochInfo_all: "list_all P es \<Longrightarrow> P e \<Longrightarrow> list_all P (SetEpochInfo es e)"
  by (induction es) auto

lemma InitGenesis_store:
  assumes "sorted_wrt (<) (ids store)" "list_all (epoch_ok 0 now) store"
    "list_all (\<lambda>e. \<not> eiEpochCountingStarted e \<and> eiCurrentEpoch e = 0) gs"
  shows "sorted_wrt (<) (ids (Epochs_InitGenesis block store gs)) \<and>
    set (ids (Epochs_InitGenesis block store gs)) = set (ids store) \<union> set (ids gs) \<and>
    list_all (epoch_ok 0 now) (Epochs_InitGenesis block store gs)"
  using assms
proof (induction gs arbitrary: store)
  case (Cons g gs)
  let ?g = "(if eiStartTime g = zero_time then g\<lparr>eiStartTime := snd block\<rparr> else g)\<lparr>eiCurrentEpochStartHeight := fst block\<rparr>"
  have "epoch_ok 0 now ?g" "eiIdentifier ?g = eiIdentifier g" using Cons.prems(3) by (simp_all add: epoch_ok_def)
  then show ?case
    using Cons.IH[of "SetEpochInfo store ?g"] Cons.prems SetEpochInfo_sorted[of store ?g] SetEpochInfo_all[of "epoch_ok 0 now" store ?g]
      SetEpochInfo_ids[of store ?g] by (simp add: Epochs_InitGenesis_def)
qed (simp add: Epochs_InitGenesis_def)

text \<open>\<^bold>\<open>C40.\<close> From a genesis whose epochs have not been started, every run of blocks with non-decreasing
  times keeps every epoch on its schedule and loses none: counting has started once the start time is reached, the
  current epoch starts exactly the number of finished epochs times the duration after the start time, never in the future,
  and a block starts at most one epoch.\<close>

theorem epochs_keep_their_schedule:
  assumes "list_all (\<lambda>e. \<not> eiEpochCountingStarted e \<and> eiCurrentEpoch e = 0) gs"
    "sorted (map snd (b # blocks))" "length blocks < 2 ^ 63"
    "(es, h') = foldl (\<lambda>st b. Epochs_BeginBlocker H b st) (Epochs_InitGenesis b [] gs, h) blocks"
  shows "sorted_wrt (<) (ids es) \<and> set (ids es) = set (ids gs) \<and>
    list_all (epoch_ok (length blocks) (last (map snd (b # blocks)))) es"
proof -
  let ?init = "Epochs_InitGenesis b [] gs" and ?run = "\<lambda>e. foldl (\<lambda>e b. advance b e) e blocks"
  have init: "sorted_wrt (<) (ids ?init)" "set (ids ?init) = set (ids gs)" "list_all (epoch_ok 0 (snd b)) ?init"
    using InitGenesis_store[of "[]" "snd b" gs b] assms(1) by auto
  have es: "es = map ?run ?init"
    using BeginBlockers_store[OF init(1), of H h blocks] assms(4) by (metis advance_runs fst_conv)
  have "eiIdentifier (?run e) = eiIdentifier e" for e by (induction blocks arbitrary: e) simp_all
  then have "ids es = ids ?init" by (simp add: es)
  moreover have "epoch_ok (length blocks) (last (map snd (b # blocks))) (?run e)" if "e \<in> set ?init" for e
    using advances_ok[of 0 "snd b" e blocks] assms(2,3) init(3) that by (simp add: list_all_iff)
  then have "list_all (epoch_ok (length blocks) (last (map snd (b # blocks)))) es" by (simp add: es list_all_iff)
  ultimately show ?thesis using init(1,2) by simp
qed

text \<open>The hooks of a demonstration record the calls.\<close>

definition logHooks :: "(bool \<times> string \<times> int) list epoch_hooks" where
  "logHooks = \<lparr>hkAfterEpochEnd = (\<lambda>h i n. h @ [(False, i, n)]), hkBeforeEpochStart = (\<lambda>h i n. h @ [(True, i, n)])\<rparr>"

definition demoEpoch :: EpochInfo where
  "demoEpoch = \<lparr>eiIdentifier = ''day'', eiStartTime = 100, eiDuration = 10, eiCurrentEpoch = 0, eiCurrentEpochStartTime = zero_time,
     eiEpochCountingStarted = False, eiCurrentEpochStartHeight = 0\<rparr>"

lemmas epochs_eval = Epochs_BeginBlocker_def Epochs_InitGenesis_def epoch_callback_def StartInitialEpoch_def EndEpoch_def
  logHooks_def demoEpoch_def zero_time_def wrap64_def

theorem epochs_keep_their_schedule_witness:
  "\<exists>e h. foldl (\<lambda>st b. Epochs_BeginBlocker logHooks b st) (Epochs_InitGenesis (1, 90) [] [demoEpoch], []) [(2, 105), (3, 111), (4, 112)] = ([e], h) \<and>
     eiCurrentEpoch e = 2 \<and> epoch_ok 3 112 e"
proof -
  obtain e h where r: "foldl (\<lambda>st b. Epochs_BeginBlocker logHooks b st) (Epochs_InitGenesis (1, 90) [] [demoEpoch], []) [(2, 105), (3, 111), (4, 112)] = ([e], h)"
    "eiCurrentEpoch e = 2" by (simp add: epochs_eval)
  have "epoch_ok 3 112 e"
    using epochs_keep_their_schedule[of "[demoEpoch]" "(1, 90)" "[(2, 105), (3, 111), (4, 112)]" "[e]" h logHooks "[]"] r(1)
    by (simp add: demoEpoch_def numeral_3_eq_3)
  with r show ?thesis by blast
qed

text \<open>
  The number the hooks get: when epoch \<open>n\<close> ends, \<^verbatim>\<open>AfterEpochEnd\<close> is called with \<open>n + 1\<close>, the
  number of the epoch that starts, and not with that of the epoch that is ending.
\<close>

lemma AfterEpochEnd_gets_next_number:
  assumes "eiEpochCountingStarted e" "eiStartTime e \<le> now" "eiCurrentEpochStartTime e + eiDuration e < now" "in64 (eiCurrentEpoch e + 1)"
  shows "snd (Epochs_BeginBlocker logHooks (height, now) ([e], h)) =
    h @ [(False, eiIdentifier e, eiCurrentEpoch e + 1), (True, eiIdentifier e, eiCurrentEpoch e + 1)]"
  using assms by (simp add: Epochs_BeginBlocker_def epoch_callback_def EndEpoch_def logHooks_def wrap64_id)

text \<open>Genesis: the export lists the store, and the default genesis is valid.\<close>

lemma AllEpochInfos_id: "AllEpochInfos es = es"
proof -
  have "IterateEpochInfo (\<lambda>acc e. (acc @ [e], False)) acc es = acc @ es" for acc
    by (induction es arbitrary: acc) simp_all
  then show ?thesis by (simp add: AllEpochInfos_def)
qed

lemma DefaultGenesis_valid: "Epochs_GenesisState_Validate Epochs_DefaultGenesisState = Inr ()"
  by (simp add: Epochs_GenesisState_Validate_def Epochs_DefaultGenesisState_def EpochInfo_Validate_def blank_def guard_r_def)

end
