(* ===== verification/Coinomics.thy ===== *)
theory Coinomics
  imports FeeMarket Coins
begin

text \<open>
  x/coinomics: the minting of block rewards, x/coinomics/keeper and genesis.go. The bank, the staking
  keeper, the coins and the arithmetic of decimals are the record \<open>cm_env\<close>, with what the module relies
  on in the locale \<open>cm_laws\<close>. A block time is its Unix time in nanoseconds. The stored values are kept
  decoded, and a decimal read from the digits of an integer is that integer times \<open>10^18\<close>. A call
  that returns an error keeps what was written before it, so the operations return the state with the
  error; a panic is \<open>Inl\<close>.
\<close>

section \<open>State\<close>

record cm_params =
  MintDenom :: string
  RewardCoefficient :: dec
  EnableCoinomics :: bool

record 'b cm_state =
  cmParams :: cm_params
  cmPrevBlockTS :: "int option"
  cmMaxSupply :: "coin option"
  cmBank :: 'b

record ('b, 'c) cm_env =
  cmCoins :: "'c coins_api"
  cmMul :: "dec \<Rightarrow> dec \<Rightarrow> dec"
  cmQuo :: "dec \<Rightarrow> dec \<Rightarrow> dec"
  cmRound :: "dec \<Rightarrow> int"
  cmTotalBonded :: "'b \<Rightarrow> int result"
  cmSupply :: "'b \<Rightarrow> string \<Rightarrow> int"
  cmMint :: "'b \<Rightarrow> string \<Rightarrow> 'c \<Rightarrow> 'b result"
  cmSend :: "'b \<Rightarrow> string \<Rightarrow> string \<Rightarrow> 'c \<Rightarrow> 'b result"
  cmFeeCollector :: string

definition Coinomics_DefaultParams :: cm_params where
  "Coinomics_DefaultParams = \<lparr>MintDenom = ''aISLM'', RewardCoefficient = 78 * 10 ^ 17, EnableCoinomics = True\<rparr>"

definition Coinomics_SetParams :: "'b cm_state \<Rightarrow> cm_params \<Rightarrow> 'b cm_state" where
  "Coinomics_SetParams s params = s\<lparr>cmParams := params\<rparr>"

definition GetPrevBlockTS :: "'b cm_state \<Rightarrow> int" where
  "GetPrevBlockTS s = (case cmPrevBlockTS s of None \<Rightarrow> 0 | Some t \<Rightarrow> t)"

definition SetPrevBlockTS :: "'b cm_state \<Rightarrow> int \<Rightarrow> 'b cm_state" where
  "SetPrevBlockTS s prevBlockTS = s\<lparr>cmPrevBlockTS := Some prevBlockTS\<rparr>"

definition GetMaxSupply :: "('b, 'c) cm_env \<Rightarrow> 'b cm_state \<Rightarrow> coin result" where
  "GetMaxSupply E s =
     (case cmMaxSupply s of
        None \<Rightarrow> of_option (Panic ''invalid denom'') (coNewCoin (cmCoins E) (MintDenom (cmParams s)) 0)
      | Some c \<Rightarrow> Inr c)"

definition SetMaxSupply :: "'b cm_state \<Rightarrow> coin \<Rightarrow> 'b cm_state" where
  "SetMaxSupply s maxSupply = s\<lparr>cmMaxSupply := Some maxSupply\<rparr>"

section \<open>Minting\<close>

text \<open>\<^verbatim>\<open>time.Time.UnixMilli\<close> and \<^verbatim>\<open>time.Time.Year\<close>, the year of the proleptic Gregorian calendar in UTC.\<close>

definition UnixMilli :: "int \<Rightarrow> int" where
  "UnixMilli now = now div 10 ^ 6"

definition Year :: "int \<Rightarrow> int" where
  "Year now =
     (let z = now div (86400 * 10 ^ 9) + 719468;
          era = z div 146097;
          doe = z mod 146097;
          yoe = (doe - doe div 1460 + doe div 36524 - doe div 146096) div 365;
          doy = doe - (365 * yoe + yoe div 4 - yoe div 100);
          mp = (5 * doy + 2) div 153
      in yoe + era * 400 + (if mp < 10 then 0 else 1))"

definition year_in_millis :: "int \<Rightarrow> dec" where
  "year_in_millis now =
     (let currentYear = Year now;
          isLeapYear = ((currentYear mod 4 = 0 \<and> currentYear mod 100 \<noteq> 0) \<or> currentYear mod 400 = 0)
      in if isLeapYear then 31622400000 * dec_one else 31536000000 * dec_one)"

text \<open>The reward for the time from one block to the next.\<close>

definition block_reward :: "('b, 'c) cm_env \<Rightarrow> cm_params \<Rightarrow> int \<Rightarrow> int \<Rightarrow> int \<Rightarrow> dec" where
  "block_reward E params totalBondedTokens prevTS now =
     (let rewardCoefficient = cmQuo E (RewardCoefficient params) (100 * dec_one);
          prevBlockTS = prevTS * dec_one;
          totalBonded = totalBondedTokens * dec_one
      in cmMul E (cmMul E totalBonded rewardCoefficient) (cmQuo E (UnixMilli now * dec_one - prevBlockTS) (year_in_millis now)))"

definition Coinomics_MintCoins :: "('b, 'c) cm_env \<Rightarrow> 'b \<Rightarrow> coin \<Rightarrow> 'b result" where
  "Coinomics_MintCoins E b coin =
     (let coins = coNewCoins (cmCoins E) coin in
      if coLen (cmCoins E) coins = 0 then Inr b else cmMint E b ''coinomics'' coins)"

text \<open>The outcome of a call: a panic goes on, an error is returned with the state so far.\<close>

definition or_error :: "'b cm_state \<Rightarrow> 'x result \<Rightarrow> ('x \<Rightarrow> ('b cm_state \<times> err option) result) \<Rightarrow> ('b cm_state \<times> err option) result" where
  "or_error s r k = (case r of Inl (Panic m) \<Rightarrow> Inl (Panic m) | Inl e \<Rightarrow> Inr (s, Some e) | Inr x \<Rightarrow> k x)"

definition MintAndAllocate :: "('b, 'c) cm_env \<Rightarrow> int \<Rightarrow> 'b cm_state \<Rightarrow> ('b cm_state \<times> err option) result" where
  "MintAndAllocate E now s =
     (let currentBlockTS = UnixMilli now * dec_one in
      if GetPrevBlockTS s = 0 then Inr (SetPrevBlockTS s (cmRound E currentBlockTS), None)
      else
        let params = cmParams s in
        or_error s (cmTotalBonded E (cmBank s)) (\<lambda>totalBondedTokens.
        let blockMint = block_reward E params totalBondedTokens (GetPrevBlockTS s) now;
            bankTotalSupply = cmSupply E (cmBank s) (MintDenom params) * dec_one in
        bind_r (GetMaxSupply E s) (\<lambda>mx.
        let maxSupply = Amt mx * dec_one;
            exceeds = bankTotalSupply + blockMint > maxSupply;
            blockMint1 = (if exceeds then maxSupply - bankTotalSupply else blockMint);
            s1 = (if exceeds then Coinomics_SetParams s (params\<lparr>EnableCoinomics := False\<rparr>) else s) in
        if blockMint1 < 0 then Inr (s1, None)
        else
          bind_r (of_option (Panic ''invalid coin'') (coNewCoin (cmCoins E) (MintDenom params) (cmRound E blockMint1))) (\<lambda>coin.
          or_error s1 (Coinomics_MintCoins E (cmBank s1) coin) (\<lambda>b.
          let s2 = s1\<lparr>cmBank := b\<rparr> in
          or_error s2 (cmSend E b ''coinomics'' (cmFeeCollector E) (coNewCoins (cmCoins E) coin)) (\<lambda>b'.
          Inr (SetPrevBlockTS (s2\<lparr>cmBank := b'\<rparr>) (cmRound E currentBlockTS), None)))))))"

definition Coinomics_EndBlocker :: "('b, 'c) cm_env \<Rightarrow> int \<Rightarrow> 'b cm_state \<Rightarrow> 'b cm_state result" where
  "Coinomics_EndBlocker E now s =
     (if \<not> EnableCoinomics (cmParams s) then Inr s
      else bind_r (MintAndAllocate E now s) (\<lambda>r. Inr (fst r)))"

section \<open>Genesis\<close>

record cm_genesis =
  gsParams :: cm_params
  gsPrevBlockTs :: int
  gsMaxSupply :: coin

definition Coinomics_InitGenesis :: "bool \<Rightarrow> 'b cm_state \<Rightarrow> cm_genesis \<Rightarrow> 'b cm_state result" where
  "Coinomics_InitGenesis moduleAccountSet s data =
     (if \<not> moduleAccountSet then Inl (Panic ''the coinomics module account has not been set'')
      else Inr (SetMaxSupply (Coinomics_SetParams s (gsParams data)) (gsMaxSupply data)))"

definition Coinomics_ExportGenesis :: "('b, 'c) cm_env \<Rightarrow> 'b cm_state \<Rightarrow> cm_genesis result" where
  "Coinomics_ExportGenesis E s =
     bind_r (GetMaxSupply E s) (\<lambda>mx. Inr \<lparr>gsParams = cmParams s, gsPrevBlockTs = GetPrevBlockTS s, gsMaxSupply = mx\<rparr>)"

lemma or_error_cases:
  assumes "or_error s r k = Inr z"
  obtains e where "r = Inl e" "z = (s, Some e)" | x where "r = Inr x" "k x = Inr z"
  using assms by (auto simp: or_error_def split: sum.splits err.splits)

text \<open>The supply of the minted denomination is within the maximal supply.\<close>

definition capped :: "('b, 'c) cm_env \<Rightarrow> coin \<Rightarrow> 'b cm_state \<Rightarrow> bool" where
  "capped E mx s \<longleftrightarrow> cmMaxSupply s = Some mx \<and> cmSupply E (cmBank s) (MintDenom (cmParams s)) \<le> Amt mx"

text \<open>
  The chain as the module sees it: blocks end, governance sets parameters of the same denomination, and the other
  modules change the bank without raising the supply of the minted denomination.
\<close>

inductive cm_step :: "('b, 'c) cm_env \<Rightarrow> 'b cm_state \<Rightarrow> 'b cm_state \<Rightarrow> bool" for E where
  end_block: "Coinomics_EndBlocker E now s = Inr s' \<Longrightarrow> cm_step E s s'"
| set_params: "MintDenom p = MintDenom (cmParams s) \<Longrightarrow> cm_step E s (Coinomics_SetParams s p)"
| bank: "cmSupply E b (MintDenom (cmParams s)) \<le> cmSupply E (cmBank s) (MintDenom (cmParams s)) \<Longrightarrow> cm_step E s (s\<lparr>cmBank := b\<rparr>)"

section \<open>The laws of the interfaces\<close>

text \<open>
  Minting adds the coins to the supply, a transfer keeps it, and rounding goes to a nearest
  integer: it stays below an integer bound and keeps the sign.
\<close>

locale cm_laws = coins_laws "cmCoins E" denom_ok
  for E :: "('b, 'c) cm_env" and denom_ok :: "string \<Rightarrow> bool" +
  assumes mint_supply: "cmMint E b m c = Inr b' \<Longrightarrow> coIsValid (cmCoins E) c \<Longrightarrow> cmSupply E b' d = cmSupply E b d + coAmountOf (cmCoins E) c d"
    and send_supply: "cmSend E b m n c = Inr b' \<Longrightarrow> cmSupply E b' d = cmSupply E b d"
    and round_le: "x \<le> i * dec_one \<Longrightarrow> cmRound E x \<le> i"
    and round_nonneg: "0 \<le> x \<Longrightarrow> 0 \<le> cmRound E x"
begin

text \<open>What is minted is the coin, a zero coin included, which the SDK drops.\<close>

lemma MintCoins_supply:
  assumes "coNewCoin (cmCoins E) d n = Some coin" "Coinomics_MintCoins E b coin = Inr b'"
  shows "cmSupply E b' d = cmSupply E b d + n"
proof -
  have c: "denom_ok d" "0 \<le> n" "coin = \<lparr>Denom = d, Amt = n\<rparr>" using assms(1) by (auto simp: new_coin split: if_splits)
  then have v: "coIsValid (cmCoins E) (coNewCoins (cmCoins E) coin)" "coAmountOf (cmCoins E) (coNewCoins (cmCoins E) coin) d = n"
    by (simp_all add: valid_new_coins amount_new_coins)
  show ?thesis
  proof (cases "coLen (cmCoins E) (coNewCoins (cmCoins E) coin) = 0")
    case True
    then have "n = 0" using len_zero[OF v(1)] v(2) by metis
    then show ?thesis using assms(2) True by (simp add: Coinomics_MintCoins_def)
  next
    case False
    then show ?thesis using assms(2) mint_supply[OF _ v(1)] v(2) by (simp add: Coinomics_MintCoins_def)
  qed
qed

text \<open>The cap is kept by what is minted for a block, on every way out of it.\<close>

lemma mint_and_send_capped:
  assumes s1: "cmMaxSupply s1 = Some mx" "MintDenom (cmParams s1) = d"
    and room: "cmSupply E (cmBank s1) d * dec_one + x \<le> Amt mx * dec_one" "0 \<le> x"
    and coin: "coNewCoin (cmCoins E) d (cmRound E x) = Some coin"
    and run: "or_error s1 (Coinomics_MintCoins E (cmBank s1) coin) (\<lambda>b.
          let s2 = s1\<lparr>cmBank := b\<rparr> in
          or_error s2 (cmSend E b ''coinomics'' (cmFeeCollector E) (coNewCoins (cmCoins E) coin)) (\<lambda>b'.
          Inr (SetPrevBlockTS (s2\<lparr>cmBank := b'\<rparr>) t, None))) = Inr (s', e)"
  shows "capped E mx s'"
proof -
  have "x \<le> (Amt mx - cmSupply E (cmBank s1) d) * dec_one" using room(1) by (simp add: left_diff_distrib)
  then have r: "cmRound E x \<le> Amt mx - cmSupply E (cmBank s1) d" by (rule round_le)
  have pos: "0 \<le> cmRound E x" using room(2) by (rule round_nonneg)
  from run show ?thesis
  proof (cases rule: or_error_cases)
    case (1 err)
    then show ?thesis using r pos s1 by (simp add: capped_def)
  next
    case (2 b)
    have b: "cmSupply E b d \<le> Amt mx" using MintCoins_supply[OF coin 2(1)] r by simp
    from 2(2)[unfolded Let_def] show ?thesis
    proof (cases rule: or_error_cases)
      case (1 err)
      then show ?thesis using b s1 by (simp add: capped_def)
    next
      case (2 b')
      then show ?thesis using b s1 send_supply[OF 2(1)] by (auto simp: capped_def SetPrevBlockTS_def)
    qed
  qed
qed

lemma MintAndAllocate_capped:
  assumes c: "capped E mx s" and run: "MintAndAllocate E now s = Inr (s', e)"
  shows "capped E mx s'"
proof (cases "GetPrevBlockTS s = 0")
  case True
  then show ?thesis using assms by (auto simp: MintAndAllocate_def capped_def SetPrevBlockTS_def)
next
  case False
  let ?d = "MintDenom (cmParams s)"
  have mx: "GetMaxSupply E s = Inr mx" using c by (simp add: capped_def GetMaxSupply_def)
  from run[unfolded MintAndAllocate_def Let_def if_not_P[OF False]] show ?thesis
  proof (cases rule: or_error_cases)
    case (1 err)
    then show ?thesis using c by simp
  next
    case (2 bonded)
    let ?m = "block_reward E (cmParams s) bonded (GetPrevBlockTS s) now" and ?supply = "cmSupply E (cmBank s) ?d * dec_one"
    let ?over = "?supply + ?m > Amt mx * dec_one"
    define x where "x = (if ?over then Amt mx * dec_one - ?supply else ?m)"
    define s1 where "s1 = (if ?over then Coinomics_SetParams s ((cmParams s)\<lparr>EnableCoinomics := False\<rparr>) else s)"
    have s1: "cmMaxSupply s1 = Some mx" "MintDenom (cmParams s1) = ?d" "cmBank s1 = cmBank s" "capped E mx s1"
      using c by (auto simp: s1_def Coinomics_SetParams_def capped_def)
    have room: "cmSupply E (cmBank s1) ?d * dec_one + x \<le> Amt mx * dec_one" unfolding s1(3) by (simp add: x_def)
    note run2 = 2(2)[unfolded mx bind_r_Inr, folded x_def s1_def]
    show ?thesis
    proof (cases "x < 0")
      case True
      then show ?thesis using run2 s1(4) by simp
    next
      case False
      then obtain coin where coin: "coNewCoin (cmCoins E) ?d (cmRound E x) = Some coin"
        using run2 by (auto simp: of_option_def split: option.splits)
      from run2 False coin mint_and_send_capped[OF s1(1,2) room _ coin] show ?thesis
        by (simp add: of_option_def Let_def)
    qed
  qed
qed

lemma EndBlocker_capped: "capped E mx s \<Longrightarrow> Coinomics_EndBlocker E now s = Inr s' \<Longrightarrow> capped E mx s'"
  by (auto simp: Coinomics_EndBlocker_def bind_r_eq_Inr dest: MintAndAllocate_capped split: if_splits)

lemma step_capped: "cm_step E s s' \<Longrightarrow> capped E mx s \<Longrightarrow> capped E mx s'"
  by (induction rule: cm_step.induct) (auto simp: EndBlocker_capped, auto simp: capped_def Coinomics_SetParams_def)

lemma run_capped: "(cm_step E)\<^sup>*\<^sup>* s s' \<Longrightarrow> capped E mx s \<Longrightarrow> capped E mx s'"
  by (induction rule: rtranclp_induct) (auto intro: step_capped)

text \<open>A block that is within the cap mints the reward of the time since the stored timestamp.\<close>

lemma block_mints_reward:
  assumes on: "EnableCoinomics (cmParams s)" and prev: "cmPrevBlockTS s = Some t" "t \<noteq> 0" and mx: "cmMaxSupply s = Some mx"
    and bonded: "cmTotalBonded E (cmBank s) = Inr bonded"
    and m: "m = block_reward E (cmParams s) bonded t now" "0 \<le> m"
    and cap: "cmSupply E (cmBank s) (MintDenom (cmParams s)) * dec_one + m \<le> Amt mx * dec_one"
    and denom: "denom_ok (MintDenom (cmParams s))"
    and bank: "\<And>b c. \<exists>b'. cmMint E b ''coinomics'' c = Inr b'" "\<And>b c. \<exists>b'. cmSend E b ''coinomics'' (cmFeeCollector E) c = Inr b'"
  shows "\<exists>s'. Coinomics_EndBlocker E now s = Inr s' \<and>
    cmSupply E (cmBank s') (MintDenom (cmParams s)) = cmSupply E (cmBank s) (MintDenom (cmParams s)) + cmRound E m"
proof -
  let ?d = "MintDenom (cmParams s)"
  obtain coin where coin: "coNewCoin (cmCoins E) ?d (cmRound E m) = Some coin"
    using denom round_nonneg[OF m(2)] by (simp add: new_coin)
  obtain b where b: "Coinomics_MintCoins E (cmBank s) coin = Inr b"
    using bank(1)[of "cmBank s" "coNewCoins (cmCoins E) coin"]
    by (cases "coLen (cmCoins E) (coNewCoins (cmCoins E) coin) = 0") (auto simp: Coinomics_MintCoins_def)
  obtain b' where b': "cmSend E b ''coinomics'' (cmFeeCollector E) (coNewCoins (cmCoins E) coin) = Inr b'"
    using bank(2) by blast
  have "Coinomics_EndBlocker E now s = Inr (SetPrevBlockTS (s\<lparr>cmBank := b'\<rparr>) (cmRound E (UnixMilli now * dec_one)))"
    using on prev mx bonded m cap coin b b'
    by (simp add: Coinomics_EndBlocker_def MintAndAllocate_def GetPrevBlockTS_def GetMaxSupply_def or_error_def of_option_def Let_def)
  then show ?thesis using MintCoins_supply[OF coin b] send_supply[OF b'] by (simp add: SetPrevBlockTS_def)
qed

end

section \<open>An instance of the interfaces\<close>

text \<open>The bank is the supply of every denomination; rounding is half up.\<close>

definition demoMint :: "(string \<Rightarrow> int, coin list) cm_env" where
  "demoMint = \<lparr>cmCoins = stdCoins, cmMul = (\<lambda>x y. x * y div dec_one), cmQuo = (\<lambda>x y. x * dec_one div y),
     cmRound = (\<lambda>x. (x + dec_one div 2) div dec_one), cmTotalBonded = (\<lambda>b. Inr 1000000), cmSupply = (\<lambda>b. b),
     cmMint = (\<lambda>b m c. Inr (\<lambda>d. b d + cl_amt c d)), cmSend = (\<lambda>b m n c. Inr b), cmFeeCollector = ''fee_collector''\<rparr>"

lemma half_up: "x \<le> i * dec_one \<Longrightarrow> (x + dec_one div 2) div dec_one \<le> (i :: int)" "0 \<le> x \<Longrightarrow> 0 \<le> (x + dec_one div 2) div (dec_one :: int)"
proof -
  assume "x \<le> i * dec_one"
  then have "x + dec_one div 2 < (i + 1) * dec_one" by (simp add: distrib_right)
  then have "(x + dec_one div 2) div dec_one < i + 1" by (simp add: div_less_iff_less_mult)
  then show "(x + dec_one div 2) div dec_one \<le> i" by simp
qed (simp add: pos_imp_zdiv_nonneg_iff)

interpretation demoMint: cm_laws demoMint "\<lambda>d. d \<noteq> []"
  by (intro cm_laws.intro cm_laws_axioms.intro) (auto simp: demoMint_def std_laws half_up simp del: power_numeral)

section \<open>Properties\<close>

text \<open>\<^bold>\<open>C38.\<close> The supply of the minted coin never exceeds the maximal supply: no sequence of blocks, parameter changes
  and bank operations that do not mint it goes beyond, whatever the reward coefficient, the bonded tokens and the times
  are, and also when a block ends in an error half way.\<close>

theorem supply_never_exceeds_maximum:
  assumes "cm_laws E denom_ok" "(cm_step E)\<^sup>*\<^sup>* s s'" "capped E mx s"
  shows "capped E mx s'"
  by (rule cm_laws.run_capped[OF assms])

definition demoCoinomics :: "bool \<Rightarrow> int \<Rightarrow> (string \<Rightarrow> int) cm_state" where
  "demoCoinomics enabled supply = \<lparr>cmParams = Coinomics_DefaultParams\<lparr>EnableCoinomics := enabled\<rparr>, cmPrevBlockTS = Some 1700000000000,
     cmMaxSupply = Some \<lparr>Denom = ''aISLM'', Amt = 5000\<rparr>, cmBank = (\<lambda>d. if d = ''aISLM'' then supply else 0)\<rparr>"

lemma reward_params [simp]: "block_reward E (p\<lparr>EnableCoinomics := b\<rparr>) = block_reward E p"
  by (simp add: block_reward_def fun_eq_iff)

text \<open>A day after the stored timestamp, in 2023: 1000000 bonded tokens at 7.8 percent a year.\<close>

lemma demoReward: "block_reward demoMint Coinomics_DefaultParams 1000000 1700000000000 1700086400000000000 = 213698630136986280000"
  by (simp add: block_reward_def demoMint_def Coinomics_DefaultParams_def UnixMilli_def year_in_millis_def Year_def)

lemmas coinomics_eval = Coinomics_EndBlocker_def MintAndAllocate_def demoCoinomics_def GetPrevBlockTS_def GetMaxSupply_def or_error_def
  of_option_def Coinomics_SetParams_def SetPrevBlockTS_def Coinomics_MintCoins_def block_reward_def demoMint_def Coinomics_DefaultParams_def
  UnixMilli_def year_in_millis_def Year_def stdCoins_def cl_add_def cl_tab_def cl_denoms_def cl_amt_def Let_def

theorem supply_never_exceeds_maximum_witness:
  "\<exists>s'. Coinomics_EndBlocker demoMint 1700086400000000000 (demoCoinomics True 4900) = Inr s' \<and>
     \<not> EnableCoinomics (cmParams s') \<and> cmBank s' ''aISLM'' \<le> 5000"
proof -
  let ?s = "demoCoinomics True 4900"
  obtain s' where s': "Coinomics_EndBlocker demoMint 1700086400000000000 ?s = Inr s'" "\<not> EnableCoinomics (cmParams s')" "MintDenom (cmParams s') = ''aISLM''"
    by (simp add: coinomics_eval)
  have "capped demoMint \<lparr>Denom = ''aISLM'', Amt = 5000\<rparr> ?s"
    by (simp add: capped_def demoCoinomics_def demoMint_def Coinomics_DefaultParams_def)
  from supply_never_exceeds_maximum[OF demoMint.cm_laws_axioms r_into_rtranclp this, OF cm_step.end_block[OF s'(1)]]
  have "cmBank s' ''aISLM'' \<le> 5000" using s'(3) by (simp add: capped_def demoMint_def)
  with s' show ?thesis by blast
qed



text \<open>
  An exported genesis has the timestamp of the last block, and the import leaves it out: an imported chain skips
  the reward of its first block.
\<close>

lemma InitGenesis_drops_timestamp:
  "Coinomics_InitGenesis True s g = Inr s' \<Longrightarrow> cmPrevBlockTS s' = cmPrevBlockTS s"
  by (auto simp: Coinomics_InitGenesis_def SetMaxSupply_def Coinomics_SetParams_def)

end
