(* ===== verification/UcDao.thy ===== *)
theory UcDao
  imports Coins Addresses
begin

text \<open>
  x/ucdao: members fund the DAO by moving coins to an escrow account of their own, hand their share
  to another member, or convert it. The keeper tracks the total of every denomination in escrow and
  an index of the holders; keeper.go, account_balances.go, total_balance.go, store.go, escrow.go and
  the transfer handlers of msg_server.go. The bank, the liquid vesting and ethiq keepers of
  expected_keepers.go, the coin arithmetic of the SDK and SHA-256 are the record \<open>dao_env\<close>, with what the
  module relies on in the locale \<open>dao_laws\<close>. A handler that fails is rolled back by its caller, so an
  error has no state.
\<close>

section \<open>State\<close>

record 'b dao_state =
  daoEnableDao :: "bool option"
  daoTotals :: "string \<rightharpoonup> int"
  daoHolders :: "acc_address set"
  daoBank :: 'b

record 'b dao_env =
  dSha256 :: "bytes \<Rightarrow> bytes"
  dNewCoin :: "string \<Rightarrow> int \<Rightarrow> coin option"
  dNewCoins :: "coin \<Rightarrow> coin list"
  dCoinAdd :: "coin \<Rightarrow> coin \<Rightarrow> coin option"
  dCoinSub :: "coin \<Rightarrow> coin \<Rightarrow> coin option"
  dDecMul :: "int \<Rightarrow> int \<Rightarrow> int"
  dSendCoins :: "'b \<Rightarrow> acc_address \<Rightarrow> acc_address \<Rightarrow> coin list \<Rightarrow> 'b result"
  dAllBalances :: "'b \<Rightarrow> acc_address \<Rightarrow> coin list"
  dRedeem :: "'b \<Rightarrow> acc_address \<Rightarrow> acc_address \<Rightarrow> coin \<Rightarrow> 'b result"
  dBurnIslmForHaqq :: "('b \<Rightarrow> int \<Rightarrow> acc_address \<Rightarrow> acc_address \<Rightarrow> ('b \<times> int) result) option"

definition IsModuleEnabled :: "'b dao_state \<Rightarrow> bool" where
  "IsModuleEnabled s = (daoEnableDao s = Some True)"

definition GetEscrowAddress :: "'b dao_env \<Rightarrow> acc_address \<Rightarrow> acc_address" where
  "GetEscrowAddress E owner =
     (let preImage = map (\<lambda>c. word_of_nat (of_char c)) ''ucdao'' @ [0] @ owner in take 20 (dSha256 E preImage))"

text \<open>The denominations: the base coin and the liquid tokens \<^verbatim>\<open>aLIQUID\<close> followed by digits.\<close>

definition IsLiquidToken :: "string \<Rightarrow> bool" where
  "IsLiquidToken denom =
     (take 7 denom = ''aLIQUID'' \<and> drop 7 denom \<noteq> [] \<and> list_all (\<lambda>c. of_char c \<in> {48 .. 57 :: nat}) (drop 7 denom))"

abbreviation islm :: string where
  "islm \<equiv> ''aISLM''"

section \<open>Balances, totals and holders\<close>

definition GetAccountBalances :: "'b dao_env \<Rightarrow> 'b dao_state \<Rightarrow> acc_address \<Rightarrow> coin list" where
  "GetAccountBalances E s addr = dAllBalances E (daoBank s) (GetEscrowAddress E addr)"

definition coins_IsZero :: "coin list \<Rightarrow> bool" where
  "coins_IsZero cs = list_all (\<lambda>c. Amt c = 0) cs"

definition GetTotalBalanceOf :: "'b dao_state \<Rightarrow> string \<Rightarrow> coin" where
  "GetTotalBalanceOf s denom = \<lparr>Denom = denom, Amt = (case daoTotals s denom of None \<Rightarrow> 0 | Some n \<Rightarrow> n)\<rparr>"

definition HasTotalBalanceOf :: "'b dao_state \<Rightarrow> string \<Rightarrow> bool" where
  "HasTotalBalanceOf s denom = (daoTotals s denom \<noteq> None)"

definition setTotalBalanceOfCoin :: "'b dao_state \<Rightarrow> coin \<Rightarrow> 'b dao_state" where
  "setTotalBalanceOfCoin s coin =
     (if Amt coin = 0 then s\<lparr>daoTotals := (daoTotals s)(Denom coin := None)\<rparr>
      else s\<lparr>daoTotals := (daoTotals s)(Denom coin \<mapsto> Amt coin)\<rparr>)"

definition TrackAddBalance :: "'b dao_env \<Rightarrow> 'b dao_state \<Rightarrow> coin \<Rightarrow> 'b dao_state result" where
  "TrackAddBalance E s coin =
     bind_r (of_option (Panic ''invalid coin denominations'') (dCoinAdd E (GetTotalBalanceOf s (Denom coin)) coin)) (\<lambda>c.
     Inr (setTotalBalanceOfCoin s c))"

definition TrackSubBalance :: "'b dao_env \<Rightarrow> 'b dao_state \<Rightarrow> coin \<Rightarrow> 'b dao_state result" where
  "TrackSubBalance E s coin =
     bind_r (of_option (Panic ''negative coin amount'') (dCoinSub E (GetTotalBalanceOf s (Denom coin)) coin)) (\<lambda>c.
     Inr (setTotalBalanceOfCoin s c))"

definition IsHolder :: "'b dao_state \<Rightarrow> acc_address \<Rightarrow> bool" where
  "IsHolder s addr = (addr \<in> daoHolders s)"

definition SetHoldersIndex :: "'b dao_env \<Rightarrow> 'b dao_state \<Rightarrow> acc_address \<Rightarrow> 'b dao_state" where
  "SetHoldersIndex E s addr =
     (let allBalances = GetAccountBalances E s addr;
          s1 = (if coins_IsZero allBalances \<and> IsHolder s addr then s\<lparr>daoHolders := daoHolders s - {addr}\<rparr> else s)
      in if \<not> IsHolder s1 addr \<and> \<not> coins_IsZero allBalances then s1\<lparr>daoHolders := insert addr (daoHolders s1)\<rparr> else s1)"

section \<open>Operations\<close>

definition escrowToken :: "'b dao_env \<Rightarrow> 'b dao_state \<Rightarrow> acc_address \<Rightarrow> acc_address \<Rightarrow> coin \<Rightarrow> 'b dao_state result" where
  "escrowToken E s sender escrowAddress coin =
     bind_r (dSendCoins E (daoBank s) sender escrowAddress (dNewCoins E coin)) (\<lambda>b.
     TrackAddBalance E (s\<lparr>daoBank := b\<rparr>) coin)"

fun Fund_loop :: "'b dao_env \<Rightarrow> 'b dao_state \<Rightarrow> acc_address \<Rightarrow> acc_address \<Rightarrow> coin list \<Rightarrow> 'b dao_state result" where
  "Fund_loop E s sender escrowAddr [] = Inr s"
| "Fund_loop E s sender escrowAddr (coin # coins) =
     (if Denom coin \<noteq> islm \<and> \<not> IsLiquidToken (Denom coin) then Inl (Wrapf ErrInvalidDenom ''denom is not allowed'')
      else if Amt coin = 0 then Fund_loop E s sender escrowAddr coins
      else bind_r (escrowToken E s sender escrowAddr coin) (\<lambda>s'. Fund_loop E s' sender escrowAddr coins))"

definition Fund :: "'b dao_env \<Rightarrow> 'b dao_state \<Rightarrow> coin list \<Rightarrow> acc_address \<Rightarrow> 'b dao_state result" where
  "Fund E s amount sender =
     (if \<not> IsModuleEnabled s then Inl (Wrapf ErrModuleDisabled [])
      else bind_r (Fund_loop E s sender (GetEscrowAddress E sender) amount) (\<lambda>s'.
        Inr (SetHoldersIndex E s' sender)))"

definition TransferOwnership :: "'b dao_env \<Rightarrow> 'b dao_state \<Rightarrow> acc_address \<Rightarrow> acc_address \<Rightarrow> coin list \<Rightarrow> ('b dao_state \<times> coin list) result" where
  "TransferOwnership E s owner newOwner amount =
     (if \<not> IsModuleEnabled s then Inl (Wrapf ErrModuleDisabled [])
      else if coins_IsZero (GetAccountBalances E s owner) then Inl (Wrapf ErrNotEligible [])
      else bind_r (dSendCoins E (daoBank s) (GetEscrowAddress E owner) (GetEscrowAddress E newOwner) amount) (\<lambda>b.
        Inr (SetHoldersIndex E (SetHoldersIndex E (s\<lparr>daoBank := b\<rparr>) newOwner) owner, amount)))"

text \<open>The three transfer messages, after their stateless validation.\<close>

definition msg_TransferOwnership :: "'b dao_env \<Rightarrow> 'b dao_state \<Rightarrow> acc_address \<Rightarrow> acc_address \<Rightarrow> 'b dao_state result" where
  "msg_TransferOwnership E s owner newOwner =
     (let balances = GetAccountBalances E s owner in
      if coins_IsZero balances then Inl (Wrapf ErrNotEligible [])
      else bind_r (TransferOwnership E s owner newOwner balances) (\<lambda>r. Inr (fst r)))"

fun ratio_coins :: "'b dao_env \<Rightarrow> int \<Rightarrow> coin list \<Rightarrow> coin list result" where
  "ratio_coins E ratio [] = Inr []"
| "ratio_coins E ratio (coin # coins) =
     (let d = dDecMul E (Amt coin * 10 ^ 18) ratio;
          amt = (if d \<ge> 0 then d div 10 ^ 18 else - (- d div 10 ^ 18)) in
      bind_r (of_option (Panic ''invalid coin'') (dNewCoin E (Denom coin) amt)) (\<lambda>c.
      bind_r (ratio_coins E ratio coins) (\<lambda>cs. Inr (c # cs))))"

definition msg_TransferOwnershipWithRatio :: "'b dao_env \<Rightarrow> 'b dao_state \<Rightarrow> acc_address \<Rightarrow> acc_address \<Rightarrow> int \<Rightarrow> ('b dao_state \<times> coin list) result" where
  "msg_TransferOwnershipWithRatio E s owner newOwner ratio =
     (let balances = GetAccountBalances E s owner in
      if coins_IsZero balances then Inl (Wrapf ErrNotEligible [])
      else bind_r (ratio_coins E ratio balances) (\<lambda>coins. TransferOwnership E s owner newOwner coins))"

definition msg_TransferOwnershipWithAmount :: "'b dao_env \<Rightarrow> 'b dao_state \<Rightarrow> acc_address \<Rightarrow> acc_address \<Rightarrow> coin list \<Rightarrow> 'b dao_state result" where
  "msg_TransferOwnershipWithAmount E s owner newOwner amount =
     (if coins_IsZero (GetAccountBalances E s owner) then Inl (Wrapf ErrNotEligible [])
      else bind_r (TransferOwnership E s owner newOwner amount) (\<lambda>r. Inr (fst r)))"

text \<open>
  The conversion: the base and liquid coins of the sender are counted, all liquid ones are redeemed in place, and
  the amount is burned from the escrow account.
\<close>

fun collect_balances :: "coin list \<Rightarrow> int \<Rightarrow> coin list \<Rightarrow> int \<times> coin list" where
  "collect_balances [] amount liquid = (amount, liquid)"
| "collect_balances (balance # rest) amount liquid =
     (if \<not> IsLiquidToken (Denom balance) \<and> Denom balance \<noteq> islm then collect_balances rest amount liquid
      else collect_balances rest (amount + Amt balance) (if Denom balance \<noteq> islm then liquid @ [balance] else liquid))"

fun redeem_all :: "'b dao_env \<Rightarrow> acc_address \<Rightarrow> 'b dao_state \<Rightarrow> coin list \<Rightarrow> 'b dao_state result" where
  "redeem_all E escrowAddr s [] = Inr s"
| "redeem_all E escrowAddr s (balance # rest) =
     bind_r (dRedeem E (daoBank s) escrowAddr escrowAddr balance) (\<lambda>b.
     bind_r (of_option (Panic ''invalid coin'') (dNewCoin E islm (Amt balance))) (\<lambda>c.
     bind_r (TrackAddBalance E (s\<lparr>daoBank := b\<rparr>) c) (\<lambda>s1.
     bind_r (TrackSubBalance E s1 balance) (\<lambda>s2.
     redeem_all E escrowAddr s2 rest))))"

definition ConvertToHaqq :: "'b dao_env \<Rightarrow> 'b dao_state \<Rightarrow> acc_address \<Rightarrow> acc_address \<Rightarrow> int \<Rightarrow> ('b dao_state \<times> coin) result" where
  "ConvertToHaqq E s sender receiver islmAmount =
     (if \<not> IsModuleEnabled s then Inl (Wrapf ErrModuleDisabled [])
      else if \<not> IsHolder s sender then Inl (Wrapf ErrNotEligible [])
      else
        let (senderBalancesAmount, liquidBalances) = collect_balances (GetAccountBalances E s sender) 0 [] in
        if senderBalancesAmount < islmAmount then Inl (Wrapf ErrInsufficientFunds ''sender's total balance is less than required amount'')
        else
          let senderEscrowAddr = GetEscrowAddress E sender in
          bind_r (redeem_all E senderEscrowAddr s liquidBalances) (\<lambda>s1.
          case dBurnIslmForHaqq E of
            None \<Rightarrow> Inl (Wrapf ErrLogic ''ethiq module is not initialized'')
          | Some burn \<Rightarrow>
              bind_r (burn (daoBank s1) islmAmount senderEscrowAddr receiver) (\<lambda>(b, mintedHaqqAmt).
              bind_r (of_option (Panic ''invalid coin'') (dNewCoin E islm islmAmount)) (\<lambda>spent.
              bind_r (TrackSubBalance E (s1\<lparr>daoBank := b\<rparr>) spent) (\<lambda>s2.
              bind_r (of_option (Panic ''invalid coin'') (dNewCoin E ''aHAQQ'' mintedHaqqAmt)) (\<lambda>minted.
              Inr (SetHoldersIndex E s2 sender, minted)))))))"

section \<open>The laws of the interfaces\<close>

text \<open>
  Coins are added and subtracted by amount, a negative amount panics; a transfer moves the coins; redeeming turns a
  liquid coin of an account into base coins of it, and burning takes base coins from an account. The last two are
  stated for escrow accounts, the accounts of other modules may change.
\<close>

locale dao_laws =
  fixes E :: "'b dao_env"
  assumes balances_valid: "cl_valid (dAllBalances E b a)"
    and new_coin: "dNewCoin E d n = (if d \<noteq> [] \<and> 0 \<le> n then Some \<lparr>Denom = d, Amt = n\<rparr> else None)"
    and new_coins: "0 \<le> Amt c \<Longrightarrow> cl_amt (dNewCoins E c) d = (if d = Denom c then Amt c else 0)"
    and coin_add: "Denom c = Denom c' \<Longrightarrow> dCoinAdd E c c' = Some \<lparr>Denom = Denom c, Amt = Amt c + Amt c'\<rparr>"
    and coin_sub: "Denom c = Denom c' \<Longrightarrow>
      dCoinSub E c c' = (if Amt c < Amt c' then None else Some \<lparr>Denom = Denom c, Amt = Amt c - Amt c'\<rparr>)"
    and send: "dSendCoins E b f t cs = Inr b' \<Longrightarrow> cl_amt (dAllBalances E b' a) d =
      cl_amt (dAllBalances E b a) d - (if a = f then cl_amt cs d else 0) + (if a = t then cl_amt cs d else 0)"
    and redeem: "dRedeem E b f f c = Inr b' \<Longrightarrow> f = GetEscrowAddress E y \<Longrightarrow> a = GetEscrowAddress E x \<Longrightarrow> IsLiquidToken (Denom c) \<Longrightarrow>
      cl_amt (dAllBalances E b' a) d = cl_amt (dAllBalances E b a) d +
        (if a = f then (if d = islm then Amt c else 0) - (if d = Denom c then Amt c else 0) else 0)"
    and burn: "dBurnIslmForHaqq E = Some bu \<Longrightarrow> bu b n f r = Inr (b', h) \<Longrightarrow> f = GetEscrowAddress E y \<Longrightarrow> a = GetEscrowAddress E x \<Longrightarrow> d \<noteq> ''aHAQQ'' \<Longrightarrow>
      cl_amt (dAllBalances E b' a) d = cl_amt (dAllBalances E b a) d - (if a = f \<and> d = islm then n else 0)"

text \<open>What is tracked and what the members of the DAO hold in escrow.\<close>

definition tracked_total :: "'b dao_state \<Rightarrow> string \<Rightarrow> int" where
  "tracked_total s d = Amt (GetTotalBalanceOf s d)"

definition escrowed :: "'b dao_env \<Rightarrow> acc_address set \<Rightarrow> 'b \<Rightarrow> string \<Rightarrow> int" where
  "escrowed E A b d = (\<Sum>a\<in>A. cl_amt (dAllBalances E b (GetEscrowAddress E a)) d)"

definition untracked :: "'b dao_env \<Rightarrow> acc_address set \<Rightarrow> 'b dao_state \<Rightarrow> string \<Rightarrow> int" where
  "untracked E A s d = escrowed E A (daoBank s) d - tracked_total s d"

lemma tracked_set:
  "tracked_total (setTotalBalanceOfCoin s c) d = (if d = Denom c then Amt c else tracked_total s d)"
  by (auto simp: tracked_total_def GetTotalBalanceOf_def setTotalBalanceOfCoin_def)

lemma bank_set [simp]: "daoBank (setTotalBalanceOfCoin s c) = daoBank s" "daoBank (SetHoldersIndex E s a) = daoBank s"
  "tracked_total (s\<lparr>daoBank := b\<rparr>) = tracked_total s" "tracked_total (SetHoldersIndex E s a) = tracked_total s"
  by (simp_all add: setTotalBalanceOfCoin_def SetHoldersIndex_def tracked_total_def GetTotalBalanceOf_def Let_def fun_eq_iff)

lemma untracked_frame [simp]: "untracked E A (SetHoldersIndex E s a) = untracked E A s"
  by (simp add: untracked_def fun_eq_iff)

section \<open>The tracked totals are backed\<close>

lemma escrowed_change:
  assumes "finite A" "inj_on (GetEscrowAddress E) A" "y \<in> A"
    and "\<And>x. x \<in> A \<Longrightarrow> cl_amt (dAllBalances E b' (GetEscrowAddress E x)) d =
      cl_amt (dAllBalances E b (GetEscrowAddress E x)) d + (if GetEscrowAddress E x = GetEscrowAddress E y then n else 0)"
  shows "escrowed E A b' d = escrowed E A b d + n"
proof -
  have "escrowed E A b' d = (\<Sum>x\<in>A. cl_amt (dAllBalances E b (GetEscrowAddress E x)) d + (if x = y then n else 0))"
    unfolding escrowed_def by (intro sum.cong refl) (use assms(2-) in \<open>auto simp: inj_on_eq_iff\<close>)
  then show ?thesis using assms(1,3) by (simp add: escrowed_def sum.distrib)
qed

context dao_laws
begin

lemma TrackAdd_total:
  "TrackAddBalance E s c = Inr s' \<Longrightarrow> daoBank s' = daoBank s \<and> tracked_total s' d = tracked_total s d + (if d = Denom c then Amt c else 0)"
  by (auto simp: TrackAddBalance_def coin_add GetTotalBalanceOf_def of_option_def tracked_set tracked_total_def[of s])

lemma TrackSub_total:
  assumes "TrackSubBalance E s c = Inr s'"
  shows "daoBank s' = daoBank s" "tracked_total s' d = tracked_total s d - (if d = Denom c then Amt c else 0)" "Amt c \<le> tracked_total s (Denom c)"
  using assms by (auto simp: TrackSubBalance_def coin_sub GetTotalBalanceOf_def of_option_def tracked_set tracked_total_def[of s] split: if_splits)

lemma escrowToken_untracked:
  assumes A: "finite A" "inj_on (GetEscrowAddress E) A" "sender \<in> A" "sender \<notin> GetEscrowAddress E ` A"
    and run: "escrowToken E s sender (GetEscrowAddress E sender) c = Inr s'" "0 \<le> Amt c"
  shows "untracked E A s' d = untracked E A s d"
proof -
  obtain b where b: "dSendCoins E (daoBank s) sender (GetEscrowAddress E sender) (dNewCoins E c) = Inr b"
    "TrackAddBalance E (s\<lparr>daoBank := b\<rparr>) c = Inr s'" using run(1) by (auto simp: escrowToken_def bind_r_eq_Inr)
  have "escrowed E A b d = escrowed E A (daoBank s) d + (if d = Denom c then Amt c else 0)"
    by (rule escrowed_change[OF A(1,2,3)]) (use A(4) in \<open>auto simp: send[OF b(1)] new_coins[OF run(2)]\<close>)
  then show ?thesis using TrackAdd_total[OF b(2), of d] by (simp add: untracked_def)
qed

lemma Fund_loop_untracked:
  assumes "finite A" "inj_on (GetEscrowAddress E) A" "sender \<in> A" "sender \<notin> GetEscrowAddress E ` A"
    "Fund_loop E s sender (GetEscrowAddress E sender) cs = Inr s'" "list_all (\<lambda>c. 0 \<le> Amt c) cs"
  shows "untracked E A s' d = untracked E A s d"
  using assms(5,6)
proof (induction cs arbitrary: s)
  case (Cons c cs)
  then show ?case
    using escrowToken_untracked[OF assms(1-4)] by (auto simp: bind_r_eq_Inr split: if_splits)
qed simp

lemma Transfer_untracked:
  assumes A: "finite A" "inj_on (GetEscrowAddress E) A" "owner \<in> A" "newOwner \<in> A"
    and run: "TransferOwnership E s owner newOwner amount = Inr r"
  shows "untracked E A (fst r) d = untracked E A s d"
proof -
  let ?e = "GetEscrowAddress E"
  obtain b where b: "dSendCoins E (daoBank s) (?e owner) (?e newOwner) amount = Inr b"
    "fst r = SetHoldersIndex E (SetHoldersIndex E (s\<lparr>daoBank := b\<rparr>) newOwner) owner"
    using run by (auto simp: TransferOwnership_def bind_r_eq_Inr split: if_splits)
  have "escrowed E A b d = (\<Sum>x\<in>A. cl_amt (dAllBalances E (daoBank s) (?e x)) d - (if x = owner then cl_amt amount d else 0) + (if x = newOwner then cl_amt amount d else 0))"
    unfolding escrowed_def by (intro sum.cong refl) (use A in \<open>auto simp: send[OF b(1)] inj_on_eq_iff\<close>)
  also have "\<dots> = escrowed E A (daoBank s) d" using A(1,3,4) by (simp add: escrowed_def sum.distrib sum_subtractf)
  finally show ?thesis by (simp add: b(2) untracked_def)
qed

lemma redeem_all_untracked:
  assumes A: "finite A" "inj_on (GetEscrowAddress E) A" "y \<in> A"
    and "redeem_all E (GetEscrowAddress E y) s cs = Inr s'" "list_all (\<lambda>c. IsLiquidToken (Denom c)) cs"
  shows "untracked E A s' d = untracked E A s d"
  using assms(4,5)
proof (induction cs arbitrary: s)
  case (Cons c cs)
  let ?e = "GetEscrowAddress E y"
  obtain b k s1 s2 where st: "dRedeem E (daoBank s) ?e ?e c = Inr b" "dNewCoin E islm (Amt c) = Some k"
    "TrackAddBalance E (s\<lparr>daoBank := b\<rparr>) k = Inr s1" "TrackSubBalance E s1 c = Inr s2" "redeem_all E ?e s2 cs = Inr s'"
    using Cons.prems(1) by (auto simp: bind_r_eq_Inr of_option_def split: option.splits)
  have k: "Denom k = islm" "Amt k = Amt c" using st(2) by (auto simp: new_coin split: if_splits)
  have "escrowed E A b d = escrowed E A (daoBank s) d + ((if d = islm then Amt c else 0) - (if d = Denom c then Amt c else 0))"
    by (rule escrowed_change[OF A]) (use Cons.prems(2) in \<open>simp add: redeem[OF st(1) refl refl]\<close>)
  then have "untracked E A s2 d = untracked E A s d"
    using TrackAdd_total[OF st(3), of d] TrackSub_total(1)[OF st(4)] TrackSub_total(2)[OF st(4), of d] by (simp add: untracked_def k)
  then show ?case using Cons.IH[OF st(5)] Cons.prems(2) by simp
qed simp

lemma collect_liquid:
  "list_all (\<lambda>c. IsLiquidToken (Denom c)) liquid \<Longrightarrow> list_all (\<lambda>c. IsLiquidToken (Denom c)) (snd (collect_balances cs n liquid))"
  by (induction cs n liquid rule: collect_balances.induct) auto

lemma Convert_untracked:
  assumes A: "finite A" "inj_on (GetEscrowAddress E) A" "sender \<in> A" and d: "d \<noteq> ''aHAQQ''"
    and run: "ConvertToHaqq E s sender receiver n = Inr r"
  shows "untracked E A (fst r) d = untracked E A s d"
proof -
  let ?e = "GetEscrowAddress E sender" and ?liquid = "snd (collect_balances (GetAccountBalances E s sender) 0 [])"
  obtain s1 bu b h k s2 where st: "redeem_all E ?e s ?liquid = Inr s1" "dBurnIslmForHaqq E = Some bu" "bu (daoBank s1) n ?e receiver = Inr (b, h)"
    "dNewCoin E islm n = Some k" "TrackSubBalance E (s1\<lparr>daoBank := b\<rparr>) k = Inr s2" "fst r = SetHoldersIndex E s2 sender"
    using run by (auto simp: ConvertToHaqq_def bind_r_eq_Inr of_option_def Let_def split: if_splits option.splits prod.splits)
  have k: "Denom k = islm" "Amt k = n" using st(4) by (auto simp: new_coin split: if_splits)
  have "escrowed E A b d = escrowed E A (daoBank s1) d + (if d = islm then - n else 0)"
    by (rule escrowed_change[OF A]) (simp add: burn[OF st(2,3) refl refl d])
  then have "untracked E A (fst r) d = untracked E A s1 d"
    using TrackSub_total(1)[OF st(5)] TrackSub_total(2)[OF st(5), of d] by (auto simp: untracked_def st(6) k)
  then show ?thesis using redeem_all_untracked[OF A st(1)] collect_liquid[of "[]" "GetAccountBalances E s sender" 0] by simp
qed

text \<open>A liquid coin in escrow that the totals do not cover stops the redemption.\<close>

lemma redeem_all_covered:
  assumes "redeem_all E e s cs = Inr s'" "c \<in> set cs" "distinct (map Denom cs)" "list_all (\<lambda>c. Denom c \<noteq> islm) cs"
  shows "Amt c \<le> tracked_total s (Denom c)"
  using assms
proof (induction cs arbitrary: s)
  case (Cons x cs)
  obtain b k s1 s2 where st: "dNewCoin E islm (Amt x) = Some k"
    "TrackAddBalance E (s\<lparr>daoBank := b\<rparr>) k = Inr s1" "TrackSubBalance E s1 x = Inr s2" "redeem_all E e s2 cs = Inr s'"
    using Cons.prems(1) by (auto simp: bind_r_eq_Inr of_option_def split: option.splits)
  have k: "Denom k = islm" using st(1) by (auto simp: new_coin split: if_splits)
  have add: "tracked_total s1 d = tracked_total s d" if "d \<noteq> islm" for d
    using TrackAdd_total[OF st(2), of d] k that by simp
  show ?case
  proof (cases "c = x")
    case True
    then show ?thesis using TrackSub_total(3)[OF st(3)] add[of "Denom x"] Cons.prems(4) by auto
  next
    case False
    then have c: "c \<in> set cs" "Denom c \<noteq> Denom x" using Cons.prems(2,3) by (auto simp: image_iff)
    then have "Amt c \<le> tracked_total s2 (Denom c)" using Cons.IH[OF st(4)] Cons.prems(3,4) by simp
    then show ?thesis using TrackSub_total(2)[OF st(3), of "Denom c"] add[of "Denom c"] c Cons.prems(4) by (auto simp: list_all_iff)
  qed
qed simp

end

lemma collect_filter:
  "snd (collect_balances cs n liquid) = liquid @ filter (\<lambda>c. IsLiquidToken (Denom c) \<and> Denom c \<noteq> islm) cs"
  by (induction cs n liquid rule: collect_balances.induct) auto

lemma islm_not_liquid: "\<not> IsLiquidToken islm"
  by (simp add: IsLiquidToken_def)

section \<open>An instance of the interfaces\<close>

text \<open>The bank is the coins of every account, and a member's escrow account has the member's address after a byte seven.\<close>

definition dao_bal :: "(acc_address \<Rightarrow> coin list) \<Rightarrow> acc_address \<Rightarrow> coin list" where
  "dao_bal b a = cl_tab (filter (\<lambda>d. d \<noteq> []) (cl_denoms (b a))) (cl_amt (b a))"

definition dao_take :: "(acc_address \<Rightarrow> coin list) \<Rightarrow> acc_address \<Rightarrow> coin list \<Rightarrow> (acc_address \<Rightarrow> coin list) result" where
  "dao_take b a cs = (if cl_valid cs \<and> cl_lte cs (dao_bal b a) then Inr (b(a := cl_diff (dao_bal b a) cs)) else Inl (Wrapf ErrInsufficientFunds []))"

definition dao_give :: "(acc_address \<Rightarrow> coin list) \<Rightarrow> acc_address \<Rightarrow> coin list \<Rightarrow> acc_address \<Rightarrow> coin list" where
  "dao_give b a cs = b(a := cl_add (dao_bal b a) cs)"

definition demoDao :: "(acc_address \<Rightarrow> coin list) dao_env" where
  "demoDao = \<lparr>dSha256 = (\<lambda>x. 7 # drop 6 x), dNewCoin = (\<lambda>d n. if d \<noteq> [] \<and> 0 \<le> n then Some \<lparr>Denom = d, Amt = n\<rparr> else None),
     dNewCoins = (\<lambda>c. cl_add [] [c]), dCoinAdd = (\<lambda>c c'. Some \<lparr>Denom = Denom c, Amt = Amt c + Amt c'\<rparr>),
     dCoinSub = (\<lambda>c c'. if Amt c < Amt c' then None else Some \<lparr>Denom = Denom c, Amt = Amt c - Amt c'\<rparr>), dDecMul = (\<lambda>x y. x * y div 10 ^ 18),
     dSendCoins = (\<lambda>b f t cs. bind_r (dao_take b f cs) (\<lambda>b'. Inr (dao_give b' t cs))), dAllBalances = dao_bal,
     dRedeem = (\<lambda>b f t c. bind_r (dao_take b f [c]) (\<lambda>b'. Inr (dao_give b' t [\<lparr>Denom = islm, Amt = Amt c\<rparr>]))),
     dBurnIslmForHaqq = Some (\<lambda>b n f r. bind_r (dao_take b f [\<lparr>Denom = islm, Amt = n\<rparr>]) (\<lambda>b'. Inr (b', n)))\<rparr>"

lemma dao_bal_valid: "cl_valid (dao_bal b a)"
  unfolding dao_bal_def by (rule cl_valid_tab) simp

lemma norm_valid: "cl_valid xs \<Longrightarrow> cl_amt (cl_tab (filter (\<lambda>d. d \<noteq> []) (cl_denoms xs)) (cl_amt xs)) d = cl_amt xs d"
  using cl_valid_denoms[of xs] cl_valid_pos[of xs d] cl_amt_notin[of d xs] by (auto simp: cl_amt_tab)

lemma dao_bal_upd:
  "dao_bal (b(a := xs)) a' = (if a' = a then cl_tab (filter (\<lambda>d. d \<noteq> []) (cl_denoms xs)) (cl_amt xs) else dao_bal b a')"
  by (simp add: dao_bal_def)

lemma dao_take_amt:
  assumes "dao_take b a cs = Inr b'"
  shows "cl_amt (dao_bal b' x) d = cl_amt (dao_bal b x) d - (if x = a then cl_amt cs d else 0)" "cl_valid cs"
proof -
  have v: "cl_valid cs" "cl_lte cs (dao_bal b a)" "b' = b(a := cl_diff (dao_bal b a) cs)" using assms by (auto simp: dao_take_def split: if_splits)
  have nn: "0 \<le> cl_amt (dao_bal b a) d" "0 \<le> cl_amt cs d" for d using cl_valid_nonneg dao_bal_valid v(1) by blast+
  have le: "cl_amt cs d \<le> cl_amt (dao_bal b a) d" for d using v(2) cl_lte_iff[of "dao_bal b a" cs] nn by blast
  have "cl_valid (cl_diff (dao_bal b a) cs)" unfolding cl_diff_def by (rule cl_valid_tab) (rule cl_valid_denoms[OF dao_bal_valid])
  then show "cl_amt (dao_bal b' x) d = cl_amt (dao_bal b x) d - (if x = a then cl_amt cs d else 0)" "cl_valid cs"
    using v(1) cl_amt_diff[of cs "dao_bal b a" d] nn le by (simp_all add: v(3) dao_bal_upd norm_valid)
qed

lemma dao_give_amt:
  assumes "\<And>d. 0 \<le> cl_amt cs d" "[] \<notin> set (cl_denoms cs)"
  shows "cl_amt (dao_bal (dao_give b a cs) x) d = cl_amt (dao_bal b x) d + (if x = a then cl_amt cs d else 0)"
proof -
  have "cl_valid (cl_add (dao_bal b a) cs)" using assms(2) cl_valid_denoms[OF dao_bal_valid] by (intro cl_valid_add_gen)
  then show ?thesis using cl_amt_add[of "dao_bal b a" cs d] assms(1) cl_valid_nonneg[OF dao_bal_valid]
    by (simp add: dao_give_def dao_bal_upd norm_valid)
qed

interpretation demoDao: dao_laws demoDao
proof
  fix b b' :: "acc_address \<Rightarrow> coin list" and f t a cs d
  assume "dSendCoins demoDao b f t cs = Inr b'"
  then obtain b1 where "dao_take b f cs = Inr b1" "b' = dao_give b1 t cs" by (auto simp: demoDao_def bind_r_eq_Inr)
  then show "cl_amt (dAllBalances demoDao b' a) d = cl_amt (dAllBalances demoDao b a) d - (if a = f then cl_amt cs d else 0) + (if a = t then cl_amt cs d else 0)"
    using dao_take_amt[of b f cs b1] dao_give_amt[of cs b1 t a d] cl_valid_nonneg cl_valid_denoms by (simp add: demoDao_def)
next
  fix b b' :: "acc_address \<Rightarrow> coin list" and f c y a x d
  assume "dRedeem demoDao b f f c = Inr b'"
  then obtain b1 where b1: "dao_take b f [c] = Inr b1" "b' = dao_give b1 f [\<lparr>Denom = islm, Amt = Amt c\<rparr>]" by (auto simp: demoDao_def bind_r_eq_Inr)
  then have "0 < Amt c" using dao_take_amt(2)[OF b1(1)] by (simp add: cl_valid_def)
  then show "cl_amt (dAllBalances demoDao b' a) d = cl_amt (dAllBalances demoDao b a) d +
        (if a = f then (if d = islm then Amt c else 0) - (if d = Denom c then Amt c else 0) else 0)"
    using dao_take_amt(1)[OF b1(1), of a d] dao_give_amt[of "[\<lparr>Denom = islm, Amt = Amt c\<rparr>]" b1 f a d]
    by (auto simp: demoDao_def b1(2) cl_denoms_def)
next
  fix bu and b b' :: "acc_address \<Rightarrow> coin list" and n f r h y a x and d :: string
  assume "dBurnIslmForHaqq demoDao = Some bu" "bu b n f r = Inr (b', h)"
  then have "dao_take b f [\<lparr>Denom = islm, Amt = n\<rparr>] = Inr b'" by (auto simp: demoDao_def bind_r_eq_Inr)
  then show "cl_amt (dAllBalances demoDao b' a) d = cl_amt (dAllBalances demoDao b a) d - (if a = f \<and> d = islm then n else 0)"
    using dao_take_amt(1)[of b f "[\<lparr>Denom = islm, Amt = n\<rparr>]" b' a d] by (auto simp: demoDao_def)
next
  fix c :: coin and d
  assume "0 \<le> Amt c"
  then show "cl_amt (dNewCoins demoDao c) d = (if d = Denom c then Amt c else 0)"
    using cl_amt_add[of "[]" "[c]" d] by (simp add: demoDao_def)
qed (simp_all add: demoDao_def dao_bal_valid)

section \<open>Properties\<close>

text \<open>
  The DAO as a transition system over its members: the operations of the module, and transfers of the bank to escrow
  accounts, which need no operation of the module.
\<close>

inductive dao_step :: "'b dao_env \<Rightarrow> acc_address set \<Rightarrow> 'b dao_state \<Rightarrow> 'b dao_state \<Rightarrow> bool" for E A where
  fund: "Fund E s amount sender = Inr s' \<Longrightarrow> sender \<in> A \<Longrightarrow> sender \<notin> GetEscrowAddress E ` A \<Longrightarrow> list_all (\<lambda>c. 0 \<le> Amt c) amount \<Longrightarrow> dao_step E A s s'"
| transfer: "TransferOwnership E s owner newOwner amount = Inr r \<Longrightarrow> owner \<in> A \<Longrightarrow> newOwner \<in> A \<Longrightarrow> dao_step E A s (fst r)"
| convert: "ConvertToHaqq E s sender receiver n = Inr r \<Longrightarrow> sender \<in> A \<Longrightarrow> dao_step E A s (fst r)"
| deposit: "(\<And>a d. a \<in> A \<Longrightarrow> cl_amt (dAllBalances E (daoBank s) (GetEscrowAddress E a)) d \<le> cl_amt (dAllBalances E b (GetEscrowAddress E a)) d) \<Longrightarrow>
    dao_step E A s (s\<lparr>daoBank := b\<rparr>)"

lemma dao_step_backed:
  assumes "dao_laws E" "finite A" "inj_on (GetEscrowAddress E) A" "dao_step E A s s'" "d \<noteq> ''aHAQQ''"
  shows "untracked E A s d \<le> untracked E A s' d"
  using assms(4)
proof cases
  case (fund amount sender)
  then obtain s1 where "Fund_loop E s sender (GetEscrowAddress E sender) amount = Inr s1" "s' = SetHoldersIndex E s1 sender"
    by (auto simp: Fund_def bind_r_eq_Inr split: if_splits)
  then show ?thesis using dao_laws.Fund_loop_untracked[OF assms(1-3)] fund by simp
next
  case (transfer owner newOwner amount r)
  then show ?thesis using dao_laws.Transfer_untracked[OF assms(1-3)] by simp
next
  case (convert sender receiver n r)
  then show ?thesis using dao_laws.Convert_untracked[OF assms(1-3) _ assms(5)] by simp
next
  case (deposit b)
  then have "escrowed E A (daoBank s) d \<le> escrowed E A b d" unfolding escrowed_def by (intro sum_mono)
  then show ?thesis using deposit(1) by (simp add: untracked_def)
qed


definition demoDaoState :: "coin list \<Rightarrow> coin list \<Rightarrow> (string \<rightharpoonup> int) \<Rightarrow> (acc_address \<Rightarrow> coin list) dao_state" where
  "demoDaoState own escrow totals = \<lparr>daoEnableDao = Some True, daoTotals = totals, daoHolders = (if escrow = [] then {} else {[1]}),
     daoBank = (\<lambda>a. if a = [1] then own else if a = [7, 1] then escrow else [])\<rparr>"

lemmas dao_eval = demoDaoState_def demoDao_def Fund_def IsModuleEnabled_def escrowToken_def GetEscrowAddress_def dao_take_def dao_give_def dao_bal_def
  TrackAddBalance_def GetTotalBalanceOf_def setTotalBalanceOfCoin_def of_option_def SetHoldersIndex_def GetAccountBalances_def coins_IsZero_def IsHolder_def
  tracked_total_def cl_add_def cl_tab_def cl_denoms_def cl_valid_def cl_lte_def cl_diff_def


text \<open>\<^bold>\<open>C37.\<close> Anyone can block a member's conversion: once the member's escrow account holds more of a liquid token
  than the tracked total, which a direct transfer to that account brings about, no conversion of any amount succeeds.\<close>

theorem untracked_liquid_coin_blocks_conversion:
  assumes "dao_laws E" "c \<in> set (GetAccountBalances E s sender)" "IsLiquidToken (Denom c)" "tracked_total s (Denom c) < Amt c"
  shows "ConvertToHaqq E s sender receiver n \<noteq> Inr r"
proof
  let ?bal = "GetAccountBalances E s sender"
  let ?liquid = "filter (\<lambda>c. IsLiquidToken (Denom c) \<and> Denom c \<noteq> islm) ?bal"
  assume "ConvertToHaqq E s sender receiver n = Inr r"
  then obtain s1 where "redeem_all E (GetEscrowAddress E sender) s (snd (collect_balances ?bal 0 [])) = Inr s1"
    by (auto simp: ConvertToHaqq_def bind_r_eq_Inr Let_def split: if_splits option.splits prod.splits)
  then have run: "redeem_all E (GetEscrowAddress E sender) s ?liquid = Inr s1" by (simp add: collect_filter)
  have "cl_valid ?bal" unfolding GetAccountBalances_def by (rule dao_laws.balances_valid[OF assms(1)])
  then have "distinct (map Denom ?liquid)" by (simp add: cl_valid_def cl_denoms_def distinct_map_filter)
  moreover have "c \<in> set ?liquid" using assms(2,3) islm_not_liquid by auto
  ultimately show False using dao_laws.redeem_all_covered[OF assms(1) run, of c] assms(4) by (auto simp: list_all_iff)
qed

theorem untracked_liquid_coin_blocks_conversion_witness:
  "\<nexists>r. ConvertToHaqq demoDao (demoDaoState [] [\<lparr>Denom = islm, Amt = 60\<rparr>, \<lparr>Denom = ''aLIQUID0'', Amt = 1\<rparr>] [islm \<mapsto> 60]) [1] [2] 10 = Inr r"
proof -
  let ?s = "demoDaoState [] [\<lparr>Denom = islm, Amt = 60\<rparr>, \<lparr>Denom = ''aLIQUID0'', Amt = 1\<rparr>] [islm \<mapsto> 60]" and ?c = "\<lparr>Denom = ''aLIQUID0'', Amt = 1\<rparr>"
  have "?c \<in> set (GetAccountBalances demoDao ?s [1])" "tracked_total ?s (Denom ?c) < Amt ?c" by (simp_all add: dao_eval)
  moreover have "IsLiquidToken (Denom ?c)" by (simp add: IsLiquidToken_def)
  ultimately show ?thesis using untracked_liquid_coin_blocks_conversion[OF demoDao.dao_laws_axioms, of ?c ?s "[1]" "[2]" 10] by blast
qed

end
