(* ===== verification/Spec2Isabelle.thy ===== *)
theory Spec2Isabelle
  imports VestingMsgs LiquidRedeem Precompile EvmFees Epochs Coinomics UcDao
begin

text \<open>
  A verification development for the HAQQ node, a Cosmos SDK chain with an Ethereum virtual machine.

  \<^bold>\<open>The program.\<close> The modules modelled here are these, with the directories under src/.

  \<^item> Vesting (x/vesting): accounts with a lockup and a vesting schedule, granted by a funder who
    can claw back what is not vested.
  \<^item> Liquid vesting (x/liquidvesting): locked coins of such an account become a transferable
    token that carries the lockup schedule and is redeemed for it.
  \<^item> The EVM (x/evm): the journalled state database that contracts run on, the keeper that stores
    it, the frame of the native precompiles (precompiles/common), the transaction types, fees, gas
    accounting and gas estimation.
  \<^item> Fee market (x/feemarket), epochs (x/epochs), coinomics (x/coinomics, block rewards), and the
    united contributors DAO (x/ucdao).

  Liquid vesting calls the vesting keeper; the DAO redeems liquid tokens; precompiles act on the
  state database and the native stores together; the minimal gas multiplier of the fee market
  enters the gas accounting of the EVM.

  \<^bold>\<open>How it is modelled.\<close> A struct is a record, a tagged union a datatype, one definition per
  function, method or handler, with the names of the source, prefixed where two modules share one.
  A fallible function returns \<open>err + 'a\<close>; a panic is the error \<open>Panic\<close>, so a theorem that a call
  returns \<open>Inr\<close> says that it does not panic. Integers of 64 bits keep their width: as words, or as
  \<open>int\<close> with \<open>wrap64\<close>. \<^verbatim>\<open>big.Int\<close> is \<open>int\<close>, a nil pointer \<open>None\<close>. A decimal is its value times
  \<open>10^18\<close>. What is not in the repository (SDK stores, bank, accounts and coins, go-ethereum's
  hexadecimal notation, hashes) is a record that the definitions using it take; a locale has the
  documented laws, and an executable instance of each locale shows that they can be met and
  evaluates the witnesses.

  \<^bold>\<open>Theories.\<close>

  \<^item> \<^verbatim>\<open>Prelude\<close>, \<^verbatim>\<open>Coins\<close>, \<^verbatim>\<open>Addresses\<close>, \<^verbatim>\<open>Bytes\<close>: results and errors, 64-bit arithmetic, the
    interface of SDK coins, addresses, integers as bytes.
  \<^item> \<^verbatim>\<open>Schedule\<close> (x/vesting/types/schedule.go): schedules as step functions. Reading, merging,
    intersecting and aligning are proved against the step function of released amounts.
  \<^item> \<^verbatim>\<open>ClawbackAccount\<close> (x/vesting/types/clawback_vesting_account.go): the well-formedness of an
    account, kept by clawback and grants; how its coins divide; what validation accepts.
  \<^item> \<^verbatim>\<open>VestingKeeper\<close>, \<^verbatim>\<open>VestingMsgs\<close> (x/vesting/keeper, types/msg.go): the message handlers, an
    invariant of all runs of them, who may claw back and what moves, and that a validated grant goes
    through.
  \<^item> \<^verbatim>\<open>LiquidSchedule\<close>, \<^verbatim>\<open>LiquidDenom\<close>, \<^verbatim>\<open>LiquidKeeper\<close>, \<^verbatim>\<open>LiquidRedeem\<close> (x/liquidvesting): the
    proportional split of a schedule, the names of the tokens, liquidation and redemption, and that
    all tokens stay backed by the escrow.
  \<^item> \<^verbatim>\<open>AccessList\<close>, \<^verbatim>\<open>StateDB\<close>, \<^verbatim>\<open>StateDBSpec\<close>, \<^verbatim>\<open>StateDBSnapshots\<close>, \<^verbatim>\<open>StateDBProps\<close>, \<^verbatim>\<open>StateDBCommit\<close>
    (x/evm/statedb): the database, a plain world as its specification, the simulation between them
    over all runs with snapshots and reverts, and the commit.
  \<^item> \<^verbatim>\<open>EvmKeeper\<close> (x/evm/keeper/statedb.go, keeper.go): the store behind it and that a committed run
    is read back; \<^verbatim>\<open>Precompile\<close> (precompiles/common): what is undone when a frame with a precompile
    call is reverted, and what is not.
  \<^item> \<^verbatim>\<open>EvmTx\<close>, \<^verbatim>\<open>EvmFees\<close> (x/evm/types, x/evm/keeper/fees.go, gas.go, state_transition.go,
    grpc_query.go): transactions as a type with its validation, the round trip to Ethereum
    transactions, what a sender pays, and when gas estimation ends.
  \<^item> \<^verbatim>\<open>FeeMarket\<close>, \<^verbatim>\<open>Epochs\<close>, \<^verbatim>\<open>Coinomics\<close>, \<^verbatim>\<open>UcDao\<close>: the base fee and its bounds, the schedule of
    epochs over all runs of blocks, the cap of the supply and the totals of the DAO as invariants of
    transition systems.

  \<^bold>\<open>Loops and bounds.\<close> Loops are structural or terminating recursion, so no fuel is used. The one
  loop that can run forever, \<^verbatim>\<open>BinSearch\<close>, is a partial function whose \<open>None\<close> is not returning: it
  returns for a gas cap up to \<open>2^63\<close>, and the largest cap with a message that always fails makes it
  loop. Theorems on schedules bound their times so that \<open>int64\<close> does not overflow; the epoch theorem
  bounds the number of blocks by \<open>2^63\<close>.

  \<^bold>\<open>Not modelled.\<close> The EVM interpreter (x/evm/core/vm), a fork of go-ethereum's: running a message is
  an argument where gas is accounted. The ethiq price tables and wait list (x/ethiq), whose burn the
  DAO's conversion takes as an argument, and the erc20 module (x/erc20), whose conversions run
  compiled contracts. The bodies of the single precompiles, which pack ABI values into SDK calls. Ante
  handlers, application wiring, JSON-RPC, server, indexer and command line, which are plumbing around
  third-party code or do input and output. The generated protobuf code under api/ and in the
  \<^verbatim>\<open>.pb.go\<close> files, the bulk of the repository, of which only the structs are read. Within the modelled
  modules, events, telemetry, logging, paginated queries and the codec of most stored values.
\<close>

end
